(* ===== verification/Prelude.thy ===== *)
theory Prelude
  imports Main "HOL-Library.Word" "HOL-Library.Char_ord" "HOL-Library.List_Lexorder"
    "HOL-Library.AList"
begin

text \<open>
  Shared vocabulary of the development: Go's machine integers, byte slices and strings, the
  stateful error monad in which the protocol code is written, scripted I/O outcomes, and the
  generic lemmas that the component theories rest on.

  \<^item> \<open>uint8\<close>, \<open>uint32\<close>, \<open>uint64\<close> are words; \<open>int64\<close> is an \<open>int\<close> with the two's complement
    reduction \<open>wrap64\<close> written at every operation that can overflow.
  \<^item> A Go string is a byte sequence, so it is a \<open>string\<close>; \<open><\<close> on it is the bytewise
    lexicographic order of Go, from Char\_ord and List\_Lexorder.
  \<^item> A Go map is an association list with distinct keys; the order of the list stands for the
    iteration order, which Go leaves open.
\<close>

unbundle bit_operations_syntax

named_theorems wire_simps \<open>layout equations of byte strings\<close>
named_theorems go_monad \<open>evaluation of the stateful error monad\<close>

section \<open>Machine integers\<close>

type_synonym byte = "8 word"
type_synonym u8 = "8 word"
type_synonym u32 = "32 word"
type_synonym u64 = "64 word"
type_synonym i64 = int
type_synonym bytes = "byte list"

definition wrap64 :: "int \<Rightarrow> i64" where
  "wrap64 x = (x + 2 ^ 63) mod 2 ^ 64 - 2 ^ 63"

definition is_i64 :: "int \<Rightarrow> bool" where
  "is_i64 x \<longleftrightarrow> - (2 ^ 63) \<le> x \<and> x < 2 ^ 63"

text \<open>Go's conversions \<open>uint64(x)\<close> of an int64 and \<open>int64(x)\<close> of a uint64.\<close>

definition u64_of_i64 :: "i64 \<Rightarrow> u64" where
  "u64_of_i64 x = word_of_int x"

definition i64_of_u64 :: "u64 \<Rightarrow> i64" where
  "i64_of_u64 w = wrap64 (uint w)"

text \<open>Go's integer division truncates towards zero.\<close>

definition go_div :: "int \<Rightarrow> int \<Rightarrow> int" where
  "go_div a b = (if a < 0 then - ((- a) div b) else a div b)"

lemma unat_byte_less: "unat (b :: byte) < 256"
  using unsigned_less [of b, where 'a = nat] by simp

lemma unat_u32_less: "unat (w :: u32) < 4294967296"
  using unsigned_less [of w, where 'a = nat] by simp

lemma unat_u64_less: "unat (w :: u64) < 18446744073709551616"
  using unsigned_less [of w, where 'a = nat] by simp

lemma uint_u64_less: "uint (w :: u64) < 18446744073709551616"
  using unsigned_less [of w, where 'a = int] by simp

lemma word_of_nat_u64_inject:
  "i < 2 ^ 64 \<Longrightarrow> j < 2 ^ 64 \<Longrightarrow> (word_of_nat i :: u64) = word_of_nat j \<longleftrightarrow> i = j"
  by (simp add: word_unat_eq_iff unat_of_nat take_bit_nat_eq_self)

lemma ucast_u32_u64: "(ucast (ucast w :: u64) :: u32) = w"
  by (rule bit_word_eqI) (simp add: bit_simps)

lemma u32_succ: "(c :: u32) < c + 1 \<or> c = - 1"
proof (cases "c + 1 = 0")
  case True
  then show ?thesis by (metis eq_neg_iff_add_eq_0)
next
  case False
  then have "unat (c + 1) = unat c + 1"
    using unat_u32_less [of c] by (auto simp: unat_word_ariths word_unat_eq_iff mod_Suc)
  then show ?thesis by (simp add: word_less_nat_alt)
qed

lemma wrap64_range [simp]: "is_i64 (wrap64 x)"
  by (simp add: is_i64_def wrap64_def)

lemma wrap64_id [simp]: "is_i64 x \<Longrightarrow> wrap64 x = x"
  by (simp add: is_i64_def wrap64_def)

lemma wrap64_lower: "- 9223372036854775808 \<le> wrap64 x"
  and wrap64_upper: "wrap64 x < 9223372036854775808"
  using wrap64_range [of x] by (simp_all add: is_i64_def)

lemma wrap64_below:
  assumes "- (2 ^ 64) - 2 ^ 63 \<le> x" and "x < - (2 ^ 63)"
  shows "wrap64 x = x + 2 ^ 64"
proof -
  have "(x + 2 ^ 63) mod 2 ^ 64 = (x + 2 ^ 63 + 2 ^ 64) mod 2 ^ 64"
    by (rule mod_add_self2 [symmetric])
  also have "\<dots> = x + 2 ^ 63 + 2 ^ 64"
    using assms by (intro mod_pos_pos_trivial) auto
  finally show ?thesis
    by (simp add: wrap64_def)
qed

lemma wrap64_above:
  assumes "2 ^ 63 \<le> x" and "x < 2 ^ 64 + 2 ^ 63"
  shows "wrap64 x = x - 2 ^ 64"
proof -
  have "(x + 2 ^ 63) mod 2 ^ 64 = (x + 2 ^ 63 - 2 ^ 64) mod 2 ^ 64"
    by (rule minus_mod_self2 [symmetric])
  also have "\<dots> = x + 2 ^ 63 - 2 ^ 64"
    using assms by (intro mod_pos_pos_trivial) auto
  finally show ?thesis
    by (simp add: wrap64_def)
qed

lemma i64_of_u64_small:
  assumes "uint w < 2 ^ 63"
  shows "i64_of_u64 w = uint w"
proof -
  have "0 \<le> uint w" by (rule uint_nonnegative)
  with assms have "is_i64 (uint w)" unfolding is_i64_def by linarith
  then show ?thesis by (simp add: i64_of_u64_def)
qed

lemma wrap64_mod: "x mod 2 ^ 64 = y mod 2 ^ 64 \<Longrightarrow> wrap64 x = wrap64 y"
  unfolding wrap64_def by (metis mod_add_left_eq)

lemma i64_of_u64_u64_of_i64:
  assumes "is_i64 x"
  shows "i64_of_u64 (u64_of_i64 x) = x"
proof -
  have "uint (word_of_int x :: u64) = x mod 2 ^ 64"
    by (simp add: uint_word_of_int take_bit_eq_mod)
  then have "wrap64 (uint (word_of_int x :: u64)) = wrap64 x"
    by (intro wrap64_mod) simp
  with assms show ?thesis by (simp add: i64_of_u64_def u64_of_i64_def)
qed

lemma u64_of_i64_inject:
  assumes "is_i64 x" and "is_i64 y"
  shows "u64_of_i64 x = u64_of_i64 y \<longleftrightarrow> x = y"
proof
  assume "u64_of_i64 x = u64_of_i64 y"
  then have "x mod 2 ^ 64 = y mod 2 ^ 64"
    by (simp add: u64_of_i64_def word_uint_eq_iff uint_word_of_int take_bit_eq_mod)
  then have "wrap64 x = wrap64 y" by (rule wrap64_mod)
  with assms show "x = y" by simp
qed simp

section \<open>Bytes and strings\<close>

text \<open>The conversions \<open>[]byte(s)\<close> and \<open>string(b)\<close>.\<close>

definition bytes_of :: "string \<Rightarrow> bytes" where
  "bytes_of s = map (\<lambda>c. word_of_nat (of_char c)) s"

definition string_of :: "bytes \<Rightarrow> string" where
  "string_of b = map (\<lambda>w. char_of (unat w)) b"

text \<open>ASCII strings are valid UTF-8, so JSON writes and reads them unchanged.\<close>

definition ascii :: "string \<Rightarrow> bool" where
  "ascii s \<longleftrightarrow> (\<forall>c \<in> set s. of_char c < (128 :: nat))"

lemma unat_byte_of_char: "unat (word_of_nat (of_char c) :: byte) = of_char c"
proof -
  have "(of_char c :: nat) < 256" by (rule nat_of_char_less_256)
  then show ?thesis by (simp add: unat_of_nat take_bit_nat_eq_self)
qed

lemma string_of_bytes_of [simp]: "string_of (bytes_of s) = s"
  by (induction s) (simp_all add: string_of_def bytes_of_def unat_byte_of_char)

lemma bytes_of_string_of [simp]: "bytes_of (string_of b) = b"
proof (induction b)
  case (Cons w b)
  have "(of_char (char_of (unat w) :: char) :: nat) = unat w"
    using unat_byte_less [of w] by simp
  with Cons show ?case by (simp add: string_of_def bytes_of_def)
qed (simp add: string_of_def bytes_of_def)

lemma bytes_of_inject [simp]: "bytes_of s = bytes_of t \<longleftrightarrow> s = t"
  by (metis string_of_bytes_of)

lemma length_bytes_of [simp]: "length (bytes_of s) = length s"
  by (simp add: bytes_of_def)

lemma bytes_of_Nil [simp]: "bytes_of [] = []"
  by (simp add: bytes_of_def)

lemma bytes_of_append [simp]: "bytes_of (s @ t) = bytes_of s @ bytes_of t"
  by (simp add: bytes_of_def)

section \<open>The stateful error monad\<close>

text \<open>
  A Go function that changes a state and may return an error: the result is \<open>Inl\<close> of the error
  or \<open>Inr\<close> of the value, and the state is returned in both cases, because what was done before
  an early return stays done.
\<close>

type_synonym ('s, 'e, 'a) go = "'s \<Rightarrow> ('e + 'a) \<times> 's"

definition gret :: "'a \<Rightarrow> ('s, 'e, 'a) go" where
  "gret x = (\<lambda>s. (Inr x, s))"

definition gerr :: "'e \<Rightarrow> ('s, 'e, 'a) go" where
  "gerr e = (\<lambda>s. (Inl e, s))"

definition gbind :: "('s, 'e, 'a) go \<Rightarrow> ('a \<Rightarrow> ('s, 'e, 'b) go) \<Rightarrow> ('s, 'e, 'b) go" where
  "gbind m f = (\<lambda>s. case m s of (Inl e, s') \<Rightarrow> (Inl e, s') | (Inr x, s') \<Rightarrow> f x s')"

text \<open>A pure fallible computation inside the monad.\<close>

definition glift :: "'e + 'a \<Rightarrow> ('s, 'e, 'a) go" where
  "glift r = (\<lambda>s. (r, s))"

lemma gbind_Inr [go_monad]: "m s = (Inr x, s') \<Longrightarrow> gbind m f s = f x s'"
  by (simp add: gbind_def)

lemma gbind_Inl [go_monad]: "m s = (Inl e, s') \<Longrightarrow> gbind m f s = (Inl e, s')"
  by (simp add: gbind_def)

lemma gret_apply [go_monad, simp]: "gret x s = (Inr x, s)"
  by (simp add: gret_def)

lemma gerr_apply [go_monad, simp]: "gerr e s = (Inl e, s)"
  by (simp add: gerr_def)

lemma glift_apply [go_monad, simp]: "glift r s = (r, s)"
  by (simp add: glift_def)

lemma gbind_InrE:
  assumes "gbind m f s = (Inr y, t)"
  obtains x s' where "m s = (Inr x, s')" and "f x s' = (Inr y, t)"
proof (cases "m s")
  case (Pair r s')
  with assms that show ?thesis by (cases r) (simp_all add: gbind_def)
qed

section \<open>Scripted outcomes of the environment\<close>

text \<open>
  Whether a write to disk or a database statement succeeds is decided by the environment. A
  script lists the outcomes of the operations to come, \<open>False\<close> for a failure; beyond its end
  every operation succeeds.
\<close>

fun next_outcome :: "bool list \<Rightarrow> bool \<times> bool list" where
  "next_outcome [] = (True, [])"
| "next_outcome (b # bs) = (b, bs)"

section \<open>Association lists as Go maps\<close>

lemma map_of_update [simp]: "map_of (AList.update k v xs) = (map_of xs)(k \<mapsto> v)"
  by (rule update_conv')

lemma map_of_delete [simp]: "map_of (AList.delete k xs) = (map_of xs)(k := None)"
  by (rule delete_conv')

lemma distinct_keys_update [simp]:
  "distinct (map fst xs) \<Longrightarrow> distinct (map fst (AList.update k v xs))"
  by (rule distinct_update)

lemma distinct_keys_delete [simp]:
  "distinct (map fst xs) \<Longrightarrow> distinct (map fst (AList.delete k xs))"
  by (rule distinct_delete)

lemma update_in_place:
  "map_of xs k = Some v \<Longrightarrow> map fst (AList.update k w xs) = map fst xs"
  by (induction xs) auto

section \<open>Lists\<close>

lemma append_fixed_inject:
  assumes "length xs = length ys"
  shows "xs @ us = ys @ vs \<longleftrightarrow> xs = ys \<and> us = vs"
  using assms by simp

lemma append_suffix_inject:
  assumes "length us = length vs"
  shows "xs @ us = ys @ vs \<longleftrightarrow> xs = ys \<and> us = vs"
  using assms by simp

lemma append_separator_inject:
  assumes "c \<notin> set xs" and "c \<notin> set ys"
  shows "xs @ c # us = ys @ c # vs \<longleftrightarrow> xs = ys \<and> us = vs"
  using assms
proof (induction xs arbitrary: ys)
  case Nil
  then show ?case by (cases ys) auto
next
  case (Cons x xs)
  then show ?case by (cases ys) auto
qed

end
