(* ===== verification/Encoding.thy ===== *)
theory Encoding
  imports Prelude
begin

text \<open>
  The byte-level helpers of \<^verbatim>\<open>internal/crypto/hkdf.go\<close> (\<open>I2OSP\<close>, \<open>Concat\<close>, \<open>ZeroSalt32\<close>) and
  what the program uses of Go's \<open>encoding/binary\<close> and \<open>encoding/hex\<close>.
\<close>

section \<open>Definitions\<close>

text \<open>
  \<open>I2OSP\<close> fills the slice from its last index down, taking the low byte of \<open>x\<close> and shifting
  \<open>x\<close> right by eight bits in every round.
\<close>

fun I2OSP :: "u64 \<Rightarrow> nat \<Rightarrow> bytes" where
  "I2OSP x 0 = []"
| "I2OSP x (Suc n) = I2OSP (drop_bit 8 x) n @ [ucast x]"

definition Concat :: "bytes list \<Rightarrow> bytes" where
  "Concat parts = foldl (\<lambda>out p. out @ p) [] parts"

definition ZeroSalt32 :: bytes where
  "ZeroSalt32 = replicate 32 0"

text \<open>\<open>binary.BigEndian\<close>: a big-endian byte string as a number.\<close>

definition be_nat :: "bytes \<Rightarrow> nat" where
  "be_nat bs = foldl (\<lambda>a b. a * 256 + unat b) 0 bs"

text \<open>\<open>binary.BigEndian.PutUint64\<close>, \<open>PutUint32\<close> and \<open>Uint32\<close>.\<close>

definition PutUint64 :: "u64 \<Rightarrow> bytes" where
  "PutUint64 v = I2OSP v 8"

definition PutUint32 :: "u32 \<Rightarrow> bytes" where
  "PutUint32 v = I2OSP (ucast v) 4"

definition BE_Uint32 :: "bytes \<Rightarrow> u32" where
  "BE_Uint32 bs = word_of_nat (be_nat bs)"

text \<open>\<open>binary.LittleEndian.Uint64\<close>.\<close>

definition LE_Uint64 :: "bytes \<Rightarrow> u64" where
  "LE_Uint64 bs = word_of_nat (be_nat (rev bs))"

text \<open>\<open>encoding/hex\<close>: lower-case encoding, decoding of both cases, \<open>None\<close> for an error.\<close>

definition hex_digit :: "nat \<Rightarrow> char" where
  "hex_digit n = ''0123456789abcdef'' ! (n mod 16)"

definition hex_EncodeToString :: "bytes \<Rightarrow> string" where
  "hex_EncodeToString bs = concat (map (\<lambda>b. [hex_digit (unat b div 16), hex_digit (unat b)]) bs)"

definition hex_value :: "char \<Rightarrow> nat option" where
  "hex_value c =
     (let n = of_char c :: nat in
      if 48 \<le> n \<and> n \<le> 57 then Some (n - 48)
      else if 97 \<le> n \<and> n \<le> 102 then Some (n - 87)
      else if 65 \<le> n \<and> n \<le> 70 then Some (n - 55)
      else None)"

fun hex_DecodeString :: "string \<Rightarrow> bytes option" where
  "hex_DecodeString [] = Some []"
| "hex_DecodeString [c] = None"
| "hex_DecodeString (c # d # cs) =
     (case (hex_value c, hex_value d) of
        (Some h, Some l) \<Rightarrow> map_option (Cons (word_of_nat (16 * h + l))) (hex_DecodeString cs)
      | _ \<Rightarrow> None)"

section \<open>Layout\<close>

lemma length_I2OSP [simp]: "length (I2OSP x n) = n"
  by (induction n arbitrary: x) auto

lemma Concat_foldl: "foldl (\<lambda>out p. out @ p) acc parts = acc @ concat parts"
  by (induction parts arbitrary: acc) auto

lemma Concat_concat [simp]: "Concat parts = concat parts"
  by (simp add: Concat_def Concat_foldl)

lemma length_ZeroSalt32 [simp]: "length ZeroSalt32 = 32"
  by (simp add: ZeroSalt32_def)

lemma be_nat_Nil [simp]: "be_nat [] = 0"
  by (simp add: be_nat_def)

lemma be_nat_snoc [simp]: "be_nat (bs @ [b]) = be_nat bs * 256 + unat b"
  by (simp add: be_nat_def)

lemma be_nat_less: "be_nat bs < 256 ^ length bs"
proof (induction bs rule: rev_induct)
  case Nil
  then show ?case by simp
next
  case (snoc b bs)
  have "unat b < 256" by (rule unat_byte_less)
  then have "be_nat bs * 256 + unat b < (be_nat bs + 1) * 256" by simp
  also have "\<dots> \<le> 256 ^ length bs * 256" using snoc by (intro mult_le_mono1) simp
  finally show ?case by simp
qed

text \<open>\<open>I2OSP\<close> is the big-endian representation modulo \<open>256 ^ n\<close>.\<close>

lemma be_nat_I2OSP: "be_nat (I2OSP x n) = unat x mod 256 ^ n"
proof (induction n arbitrary: x)
  case 0
  then show ?case by simp
next
  case (Suc n)
  have low: "unat (ucast x :: byte) = unat x mod 256"
    by (simp add: unsigned_ucast_eq take_bit_eq_mod)
  have high: "unat (drop_bit 8 x) = unat x div 256"
    by (simp only: unat_drop_bit_eq) (simp add: drop_bit_eq_div)
  have "unat x mod (256 * 256 ^ n) = 256 * (unat x div 256 mod 256 ^ n) + unat x mod 256"
    by (rule mod_mult2_eq)
  then show ?case
    using Suc [of "drop_bit 8 x"] low high by simp
qed

lemma be_nat_I2OSP_8: "be_nat (I2OSP x 8) = unat x"
  using unat_u64_less [of x] by (simp add: be_nat_I2OSP)

lemma I2OSP_8_inject [simp]: "I2OSP x 8 = I2OSP y 8 \<longleftrightarrow> x = y"
proof
  assume "I2OSP x 8 = I2OSP y 8"
  then have "be_nat (I2OSP x 8) = be_nat (I2OSP y 8)" by simp
  then have "unat x = unat y"
    using unat_u64_less [of x] unat_u64_less [of y] by (simp add: be_nat_I2OSP)
  then show "x = y" by (simp add: word_unat_eq_iff)
qed simp

lemma be_nat_inject:
  "length xs = length ys \<Longrightarrow> be_nat xs = be_nat ys \<longleftrightarrow> xs = ys"
proof (induction xs arbitrary: ys rule: rev_induct)
  case Nil
  then show ?case by simp
next
  case (snoc x xs)
  then obtain z zs where ys: "ys = zs @ [z]" and len: "length xs = length zs"
    by (cases ys rule: rev_cases) auto
  have split: "(m * 256 + unat c) div 256 = m" "(m * 256 + unat c) mod 256 = unat c" for m and c :: byte
    using unat_byte_less [of c] by simp_all
  have "be_nat xs * 256 + unat x = be_nat zs * 256 + unat z \<longleftrightarrow>
      be_nat xs = be_nat zs \<and> unat x = unat z"
    using split [of "be_nat xs" x] split [of "be_nat zs" z] by metis
  with snoc.IH [OF len] show ?case
    by (simp add: ys word_unat_eq_iff)
qed

lemma length_PutUint64 [simp]: "length (PutUint64 v) = 8"
  by (simp add: PutUint64_def)

lemma length_PutUint32 [simp]: "length (PutUint32 v) = 4"
  by (simp add: PutUint32_def)

lemma PutUint64_inject [simp]: "PutUint64 x = PutUint64 y \<longleftrightarrow> x = y"
  by (simp add: PutUint64_def)

lemma be_nat_PutUint32: "be_nat (PutUint32 v) = unat v"
proof -
  have "unat v < 2 ^ 32" using unat_u32_less [of v] by simp
  then show ?thesis
    by (simp add: PutUint32_def be_nat_I2OSP unsigned_ucast_eq take_bit_nat_eq_self)
qed

lemma BE_Uint32_PutUint32 [simp]: "BE_Uint32 (PutUint32 v) = v"
  by (simp add: BE_Uint32_def be_nat_PutUint32)

lemma PutUint32_BE_Uint32: "length hdr = 4 \<Longrightarrow> PutUint32 (BE_Uint32 hdr) = hdr"
proof -
  assume len: "length hdr = 4"
  then have "be_nat hdr < 2 ^ 32" using be_nat_less [of hdr] by simp
  then have "be_nat (PutUint32 (BE_Uint32 hdr)) = be_nat hdr"
    by (simp add: be_nat_PutUint32 BE_Uint32_def unat_of_nat take_bit_nat_eq_self)
  with len show ?thesis by (simp add: be_nat_inject)
qed

lemma PutUint32_inject [simp]: "PutUint32 x = PutUint32 y \<longleftrightarrow> x = y"
  by (metis BE_Uint32_PutUint32)

lemma I2OSP_4_u32_inject [simp]:
  "I2OSP (ucast (x :: u32)) 4 = I2OSP (ucast (y :: u32)) 4 \<longleftrightarrow> x = y"
  using PutUint32_inject [of x y] by (simp add: PutUint32_def)

end
