(* ===== verification/Epoch.thy ===== *)
theory Epoch
  imports Prelude
begin

text \<open>
  Daily key epochs, \<^verbatim>\<open>internal/crypto/epoch.go\<close>. A \<open>time.Time\<close> is the number of nanoseconds since
  the Unix epoch; \<open>Unix()\<close> rounds down to seconds. Epoch numbers are \<open>uint64\<close>, second counts
  are \<open>int64\<close>.
\<close>

section \<open>Definitions\<close>

type_synonym time = int

definition Unix :: "time \<Rightarrow> i64" where
  "Unix t = t div 1000000000"

definition EpochSeconds :: i64 where
  "EpochSeconds = 86400"

definition DefaultGraceSeconds :: i64 where
  "DefaultGraceSeconds = 300"

definition MaxClockSkewSeconds :: i64 where
  "MaxClockSkewSeconds = 120"

definition EpochID :: "time \<Rightarrow> u64" where
  "EpochID t = u64_of_i64 (go_div (Unix t) EpochSeconds)"

definition EpochBounds :: "u64 \<Rightarrow> i64 \<times> i64" where
  "EpochBounds epochID =
     (let notBefore = wrap64 (i64_of_u64 epochID * EpochSeconds);
          notAfter = wrap64 (notBefore + EpochSeconds)
      in (notBefore, notAfter))"

definition EpochValidForUse :: "u64 \<Rightarrow> time \<Rightarrow> i64 \<Rightarrow> bool" where
  "EpochValidForUse epochID now grace =
     (let grace = (if grace \<le> 0 then DefaultGraceSeconds else grace);
          cur = EpochID now
      in if epochID = cur then True
         else if epochID + 1 = cur then Unix now < wrap64 (snd (EpochBounds epochID) + grace)
         else False)"

definition AgreeEpoch :: "u64 \<Rightarrow> u64 \<Rightarrow> time \<Rightarrow> i64 \<Rightarrow> u64 \<times> bool" where
  "AgreeEpoch epochA epochB now grace =
     (let grace = (if grace \<le> 0 then DefaultGraceSeconds else grace)
      in if epochA = epochB
         then (if EpochValidForUse epochA now grace then (epochA, True) else (0, False))
         else let (prev, newer) = (if epochA < epochB then (epochA, epochB) else (epochB, epochA));
                  cur = EpochID now
              in if newer = cur \<and> prev + 1 = newer \<and> EpochValidForUse prev now grace
                 then (prev, True) else (0, False))"

text \<open>
  The clocks the program runs under: from the second day of the Unix era up to about
  the year 146 billion, where no \<open>int64\<close> operation of this file overflows.
\<close>

definition sane_time :: "time \<Rightarrow> bool" where
  "sane_time t \<longleftrightarrow> 86400 \<le> Unix t \<and> Unix t < 2 ^ 62"

text \<open>The day number and the second within the day, the mathematical counterpart of the code.\<close>

definition day_of :: "time \<Rightarrow> int" where
  "day_of t = Unix t div 86400"

section \<open>Lemmas\<close>

lemma day_of_bounds:
  assumes "sane_time t"
  shows "1 \<le> day_of t" and "day_of t < 2 ^ 46"
  using assms by (auto simp: day_of_def sane_time_def)

lemma day_of_split: "Unix t = 86400 * day_of t + Unix t mod 86400"
  by (simp add: day_of_def)

lemma EpochID_day_of: "sane_time t \<Longrightarrow> EpochID t = word_of_int (day_of t)"
  by (simp add: EpochID_def go_div_def EpochSeconds_def u64_of_i64_def day_of_def sane_time_def)

lemma uint_EpochID:
  assumes "sane_time t"
  shows "uint (EpochID t) = day_of t"
proof -
  have "0 \<le> day_of t \<and> day_of t < 2 ^ 64"
    using day_of_bounds [OF assms] by simp
  then show ?thesis
    by (simp add: EpochID_day_of [OF assms] uint_word_of_int take_bit_int_eq_self)
qed

text \<open>Bounds of an epoch whose number is below \<open>2 ^ 46\<close> are computed without overflow.\<close>

lemma EpochBounds_small:
  assumes "uint e < 2 ^ 46"
  shows "EpochBounds e = (86400 * uint e, 86400 * uint e + 86400)"
proof -
  have nn: "0 \<le> uint e" by (rule uint_nonnegative)
  have i: "i64_of_u64 e = uint e"
    using assms by (intro i64_of_u64_small) simp
  have small: "is_i64 (u * 86400) \<and> is_i64 (u * 86400 + 86400)" if "0 \<le> u" "u < 2 ^ 46" for u
    using that by (simp add: is_i64_def)
  from small [OF nn assms] have a: "is_i64 (uint e * 86400)" and b: "is_i64 (uint e * 86400 + 86400)"
    by simp_all
  show ?thesis
    using a b by (simp add: EpochBounds_def Let_def EpochSeconds_def i mult.commute)
qed

lemma EpochBounds_EpochID:
  assumes "sane_time t"
  shows "EpochBounds (EpochID t) = (86400 * day_of t, 86400 * day_of t + 86400)"
  using EpochBounds_small [of "EpochID t"] day_of_bounds [OF assms]
  by (simp add: uint_EpochID [OF assms])

lemma succ_eq_EpochID:
  assumes "sane_time t"
  shows "e + 1 = EpochID t \<longleftrightarrow> uint e = day_of t - 1"
proof -
  have u: "uint (word_of_int (day_of t - 1) :: u64) = day_of t - 1"
    using day_of_bounds [OF assms] by (simp only: uint_word_of_int) (simp add: take_bit_int_eq_self)
  have "e + 1 = EpochID t \<longleftrightarrow> e = word_of_int (day_of t - 1)"
    by (auto simp: EpochID_day_of [OF assms] eq_diff_eq)
  also have "\<dots> \<longleftrightarrow> uint e = day_of t - 1"
    by (simp only: word_uint_eq_iff u)
  finally show ?thesis .
qed

lemma eq_EpochID: "sane_time t \<Longrightarrow> e = EpochID t \<longleftrightarrow> uint e = day_of t"
  by (simp add: word_uint_eq_iff uint_EpochID)

text \<open>The code's validity test, in terms of the day and the second within the day.\<close>

lemma EpochValidForUse_iff:
  assumes t: "sane_time now" and g: "0 < grace" "grace < 2 ^ 61"
  shows "EpochValidForUse e now grace \<longleftrightarrow>
    uint e = day_of now \<or> uint e = day_of now - 1 \<and> Unix now - 86400 * day_of now < grace"
proof (cases "e + 1 = EpochID now")
  case False
  moreover from False t have "uint e \<noteq> day_of now - 1"
    by (simp only: succ_eq_EpochID) simp
  ultimately show ?thesis
    using g t by (auto simp: EpochValidForUse_def Let_def eq_EpochID)
next
  case True
  then have ue: "uint e = day_of now - 1"
    using t by (simp add: succ_eq_EpochID)
  then have b: "snd (EpochBounds e) = 86400 * day_of now"
    using day_of_bounds [OF t] by (subst EpochBounds_small) auto
  have "is_i64 (86400 * day_of now + grace)"
    using day_of_bounds [OF t] g unfolding is_i64_def by auto
  then show ?thesis
    using True g t ue
    by (auto simp: EpochValidForUse_def Let_def b eq_EpochID)
qed

lemma AgreeEpoch_commute: "AgreeEpoch a b now g = AgreeEpoch b a now g"
  by (auto simp: AgreeEpoch_def Let_def dest: less_asym)

lemma AgreeEpoch_valid:
  assumes "AgreeEpoch a b now g = (e, True)"
  shows "EpochValidForUse e now g" and "e = a \<or> e = b"
  using assms
  by (auto simp: AgreeEpoch_def EpochValidForUse_def Let_def DefaultGraceSeconds_def
      split: if_splits)

text \<open>The epochs that may be used at a given time, in terms of the day and the second of the day.\<close>

definition usable_epoch :: "u64 \<Rightarrow> time \<Rightarrow> i64 \<Rightarrow> bool" where
  "usable_epoch e now grace \<longleftrightarrow>
     uint e = day_of now \<or> uint e = day_of now - 1 \<and> Unix now - 86400 * day_of now < grace"

section \<open>Properties\<close>

text \<open>
  C35: Epoch agreement is exact: two peers agree exactly when each one's epoch is today's, or
  yesterday's and still within the grace period after midnight; the agreed epoch is then the
  older of the two, and otherwise the answer is a refusal.
\<close>

theorem AgreeEpoch_exact:
  assumes t: "sane_time now" and g: "0 < grace" "grace < 2 ^ 61"
  shows "AgreeEpoch a b now grace =
    (if usable_epoch a now grace \<and> usable_epoch b now grace then (min a b, True) else (0, False))"
proof -
  have v: "EpochValidForUse e now grace \<longleftrightarrow> usable_epoch e now grace" for e
    unfolding usable_epoch_def by (rule EpochValidForUse_iff [OF t g])
  show ?thesis
  proof (cases "a = b")
    case True
    then show ?thesis using g by (simp add: AgreeEpoch_def v)
  next
    case False
    have pick: "(y = EpochID now \<and> x + 1 = y \<and> usable_epoch x now grace) \<longleftrightarrow>
        usable_epoch x now grace \<and> usable_epoch y now grace" if "x < y" for x y
    proof -
      have "uint x < uint y" using that by (simp only: word_less_def)
      moreover have "y = EpochID now \<and> x + 1 = y \<longleftrightarrow> uint y = day_of now \<and> uint x = day_of now - 1"
        using succ_eq_EpochID [OF t, of x] eq_EpochID [OF t, of y] by blast
      ultimately show ?thesis unfolding usable_epoch_def by linarith
    qed
    show ?thesis
    proof (cases "a < b")
      case True
      then show ?thesis using False g pick [OF True] by (auto simp: AgreeEpoch_def v min_def)
    next
      case nless: False
      with False have "b < a" by simp
      then show ?thesis using False nless g pick [of b a] by (auto simp: AgreeEpoch_def v min_def)
    qed
  qed
qed

theorem AgreeEpoch_exact_witness:
  "AgreeEpoch 99 100 8640000000000000 300 = (99, True) \<and> AgreeEpoch 99 100 8641000000000000 300 = (0, False)"
proof -
  have t: "sane_time 8640000000000000" "sane_time 8641000000000000"
    by (simp_all add: sane_time_def Unix_def)
  show ?thesis
    using AgreeEpoch_exact [OF t(1), of 300 99 100] AgreeEpoch_exact [OF t(2), of 300 99 100]
    by (simp add: usable_epoch_def day_of_def Unix_def)
qed

end
