(* ===== verification/Crypto.thy ===== *)
theory Crypto
  imports Encoding Epoch
begin

text \<open>
  The key schedule and the AEAD wrappers of \<^verbatim>\<open>internal/crypto\<close>: \<open>hkdf.go\<close>, \<open>general_key.go\<close>,
  \<open>x25519.go\<close>, \<open>aead.go\<close> and \<open>session.go\<close>.

  The primitives come from \<open>golang.org/x/crypto\<close>, which is not part of the repository. They are
  the fields of a \<open>crypto_lib\<close> value that every definition using them takes as its first
  argument; what the program relies on is stated as the named conditions \<open>x25519_total\<close>,
  \<open>dh_agrees\<close>, \<open>aead_correct\<close>, \<open>aead_overhead\<close> and \<open>hkdf_total\<close>, each of which is the documented behaviour of the package.
\<close>

section \<open>Library parameters\<close>

record crypto_lib =
  hkdf_ReadFull :: "bytes \<Rightarrow> bytes \<Rightarrow> bytes \<Rightarrow> nat \<Rightarrow> bytes option"
  curve25519_X25519 :: "bytes \<Rightarrow> bytes \<Rightarrow> bytes option"
  curve25519_Basepoint :: bytes
  chacha_Seal :: "bytes \<Rightarrow> bytes \<Rightarrow> bytes \<Rightarrow> bytes \<Rightarrow> bytes"
  chacha_Open :: "bytes \<Rightarrow> bytes \<Rightarrow> bytes \<Rightarrow> bytes \<Rightarrow> bytes option"

text \<open>
  \<open>hkdf_ReadFull ikm salt info l\<close> is \<open>io.ReadFull\<close> of \<open>l\<close> bytes from \<open>hkdf.New(sha256.New, \<dots>)\<close>.
  The arguments of \<open>chacha_Seal\<close> and \<open>chacha_Open\<close> are key, nonce, text and additional data.
\<close>

definition keypair :: "crypto_lib \<Rightarrow> bytes \<Rightarrow> bytes \<Rightarrow> bool" where
  "keypair L sk pk \<longleftrightarrow> length sk = 32 \<and> length pk = 32 \<and>
     curve25519_X25519 L sk (curve25519_Basepoint L) = Some pk"

definition x25519_total :: "crypto_lib \<Rightarrow> bool" where
  "x25519_total L \<longleftrightarrow> (\<forall>sk. length sk = 32 \<longrightarrow> (\<exists>pk. keypair L sk pk))"

definition dh_agrees :: "crypto_lib \<Rightarrow> bool" where
  "dh_agrees L \<longleftrightarrow> (\<forall>a pa b pb. keypair L a pa \<longrightarrow> keypair L b pb \<longrightarrow>
     (\<exists>ss. curve25519_X25519 L a pb = Some ss \<and> curve25519_X25519 L b pa = Some ss))"

definition aead_correct :: "crypto_lib \<Rightarrow> bool" where
  "aead_correct L \<longleftrightarrow> (\<forall>k n p a. length k = 32 \<longrightarrow> length n = 12 \<longrightarrow>
     chacha_Open L k n (chacha_Seal L k n p a) a = Some p)"

definition aead_overhead :: "crypto_lib \<Rightarrow> bool" where
  "aead_overhead L \<longleftrightarrow> (\<forall>k n p a. length k = 32 \<longrightarrow> length n = 12 \<longrightarrow>
     length (chacha_Seal L k n p a) = length p + 16)"

definition hkdf_total :: "crypto_lib \<Rightarrow> bool" where
  "hkdf_total L \<longleftrightarrow> (\<forall>ikm salt info l. l \<le> 255 * 32 \<longrightarrow>
     (\<exists>out. hkdf_ReadFull L ikm salt info l = Some out \<and> length out = l))"

section \<open>Definitions\<close>

datatype crypto_error =
    HKDFShort | BadMasterLength | RandFailed | X25519BadKeyLength | X25519BadPrivateLength
  | X25519Failed | AEADKeySize | AEADNonceSize | AEADOpenFailed
  | SimpleNeedsOrgDayKey | StrongNeedsIdentityKeys | StrongNeedsGeneralKeys | LocalIDNotParty

subsection \<open>hkdf.go and general\_key.go\<close>

definition HKDF :: "crypto_lib \<Rightarrow> bytes \<Rightarrow> bytes \<Rightarrow> bytes \<Rightarrow> nat \<Rightarrow> crypto_error + bytes" where
  "HKDF L ikm salt info l =
     (case hkdf_ReadFull L ikm salt info l of None \<Rightarrow> Inl HKDFShort | Some out \<Rightarrow> Inr out)"

definition epoch_salt :: "u64 \<Rightarrow> bytes" where
  "epoch_salt epochID = Concat [I2OSP epochID 8, bytes_of ''COE-v1-salt'']"

definition general_info :: "string \<Rightarrow> u32 \<Rightarrow> bytes" where
  "general_info deviceID enrollmentCounter =
     Concat [bytes_of ''COE-v1-general'', bytes_of deviceID, I2OSP (ucast enrollmentCounter) 4]"

definition org_day_info :: "string \<Rightarrow> bytes" where
  "org_day_info orgID = Concat [bytes_of ''COE-v1-org-day'', bytes_of orgID]"

definition DeriveGeneralKey ::
    "crypto_lib \<Rightarrow> bytes \<Rightarrow> u64 \<Rightarrow> string \<Rightarrow> u32 \<Rightarrow> crypto_error + bytes" where
  "DeriveGeneralKey L kaMaster epochID deviceID enrollmentCounter =
     (if length kaMaster \<noteq> 32 then Inl BadMasterLength
      else HKDF L kaMaster (epoch_salt epochID) (general_info deviceID enrollmentCounter) 32)"

definition DeriveOrgDayKey :: "crypto_lib \<Rightarrow> bytes \<Rightarrow> u64 \<Rightarrow> string \<Rightarrow> crypto_error + bytes" where
  "DeriveOrgDayKey L kaMaster epochID orgID =
     (if length kaMaster \<noteq> 32 then Inl BadMasterLength
      else HKDF L kaMaster (epoch_salt epochID) (org_day_info orgID) 32)"

subsection \<open>x25519.go\<close>

text \<open>
  \<open>crypto/rand\<close> is the list of random bytes still to be handed out; reading more than are left
  is the reader's error.
\<close>

definition rand_Read :: "nat \<Rightarrow> (bytes, crypto_error, bytes) go" where
  "rand_Read n = (\<lambda>r. if length r < n then (Inl RandFailed, r) else (Inr (take n r), drop n r))"

definition GenerateX25519 :: "crypto_lib \<Rightarrow> (bytes, crypto_error, bytes \<times> bytes) go" where
  "GenerateX25519 L = gbind (rand_Read 32) (\<lambda>private.
     case curve25519_X25519 L private (curve25519_Basepoint L) of
       None \<Rightarrow> gerr X25519Failed
     | Some public \<Rightarrow> gret (private, public))"

definition X25519 :: "crypto_lib \<Rightarrow> bytes \<Rightarrow> bytes \<Rightarrow> crypto_error + bytes" where
  "X25519 L private peerPublic =
     (if length private \<noteq> 32 \<or> length peerPublic \<noteq> 32 then Inl X25519BadKeyLength
      else case curve25519_X25519 L private peerPublic of
             None \<Rightarrow> Inl X25519Failed | Some ss \<Rightarrow> Inr ss)"

definition PublicFromPrivate :: "crypto_lib \<Rightarrow> bytes \<Rightarrow> crypto_error + bytes" where
  "PublicFromPrivate L private =
     (if length private \<noteq> 32 then Inl X25519BadPrivateLength
      else case curve25519_X25519 L private (curve25519_Basepoint L) of
             None \<Rightarrow> Inl X25519Failed | Some pk \<Rightarrow> Inr pk)"

subsection \<open>aead.go\<close>

definition NonceFromSeq :: "u64 \<Rightarrow> bytes" where
  "NonceFromSeq seq = Concat [I2OSP 0 4, I2OSP seq 8]"

definition BuildAAD :: "u8 \<Rightarrow> u64 \<Rightarrow> string \<Rightarrow> string \<Rightarrow> u64 \<Rightarrow> bytes" where
  "BuildAAD ver epochID senderID receiverID seq =
     Concat [bytes_of ''COE-v1-data'', [ver], I2OSP epochID 8,
             bytes_of senderID, bytes_of receiverID, I2OSP seq 8]"

text \<open>\<open>chacha20poly1305.New\<close> fails on a key of another length only, which is excluded first.\<close>

definition Seal :: "crypto_lib \<Rightarrow> bytes \<Rightarrow> bytes \<Rightarrow> bytes \<Rightarrow> bytes \<Rightarrow> crypto_error + bytes" where
  "Seal L key nonce aad plaintext =
     (if length key \<noteq> 32 then Inl AEADKeySize
      else if length nonce \<noteq> 12 then Inl AEADNonceSize
      else Inr (chacha_Seal L key nonce plaintext aad))"

definition Open :: "crypto_lib \<Rightarrow> bytes \<Rightarrow> bytes \<Rightarrow> bytes \<Rightarrow> bytes \<Rightarrow> crypto_error + bytes" where
  "Open L key nonce aad ciphertext =
     (if length key \<noteq> 32 then Inl AEADKeySize
      else if length nonce \<noteq> 12 then Inl AEADNonceSize
      else case chacha_Open L key nonce ciphertext aad of
             None \<Rightarrow> Inl AEADOpenFailed | Some pt \<Rightarrow> Inr pt)"

subsection \<open>session.go\<close>

record SessionParams =
  EpochID_p :: u64
  DeviceIDA :: string
  DeviceIDB :: string
  GeneralKeyA :: bytes
  GeneralKeyB :: bytes
  IdentitySk :: bytes
  IdentityPkPeer :: bytes
  EphSk :: bytes
  EphPkPeer :: bytes
  NonceA :: bytes
  NonceB :: bytes
  Profile_p :: string
  OrgDayKey :: bytes
  LocalDeviceID :: string
  PeerDeviceID :: string

definition orderedIDs :: "string \<Rightarrow> string \<Rightarrow> string \<times> string" where
  "orderedIDs a b = (if a < b then (a, b) else (b, a))"

text \<open>
  The ephemeral secret: \<open>nil\<close> unless both keys are present, else the result of \<open>X25519\<close>. The
  lines occur in \<open>DeriveWrapKey\<close> and in \<open>DeriveSessionStrong\<close>.
\<close>

definition eph_secret :: "crypto_lib \<Rightarrow> bytes \<Rightarrow> bytes \<Rightarrow> crypto_error + bytes option" where
  "eph_secret L ephSk ephPkPeer =
     (if length ephSk = 32 \<and> length ephPkPeer = 32
      then map_sum id Some (X25519 L ephSk ephPkPeer)
      else Inr None)"

definition DeriveWrapKey ::
    "crypto_lib \<Rightarrow> bytes \<Rightarrow> bytes \<Rightarrow> bytes \<Rightarrow> bytes \<Rightarrow> bytes \<Rightarrow> bytes \<Rightarrow> u64 \<Rightarrow> string \<Rightarrow> string
     \<Rightarrow> crypto_error + bytes" where
  "DeriveWrapKey L identitySk identityPkPeer ephSk ephPkPeer nonceA nonceB epochID deviceIDA deviceIDB =
     (case X25519 L identitySk identityPkPeer of
        Inl e \<Rightarrow> Inl e
      | Inr ssStatic \<Rightarrow>
        (case eph_secret L ephSk ephPkPeer of
           Inl e \<Rightarrow> Inl e
         | Inr ssEph \<Rightarrow>
           (let ikm = (case ssEph of Some ss \<Rightarrow> Concat [ssStatic, ss] | None \<Rightarrow> ssStatic);
                (idLo, idHi) = orderedIDs deviceIDA deviceIDB;
                salt = (if deviceIDA < deviceIDB then Concat [nonceA, nonceB]
                        else Concat [nonceB, nonceA]);
                info = Concat [bytes_of ''COE-v1-gk-wrap'', I2OSP epochID 8,
                               bytes_of idLo, bytes_of idHi]
            in HKDF L ikm salt info 32)))"

definition session_ikm :: "crypto_lib \<Rightarrow> SessionParams \<Rightarrow> crypto_error + bytes" where
  "session_ikm L p =
     (if Profile_p p = ''simple'' then
        (if length (OrgDayKey p) \<noteq> 32 then Inl SimpleNeedsOrgDayKey else Inr (OrgDayKey p))
      else if length (IdentitySk p) \<noteq> 32 \<or> length (IdentityPkPeer p) \<noteq> 32
        then Inl StrongNeedsIdentityKeys
      else if length (GeneralKeyA p) \<noteq> 32 \<or> length (GeneralKeyB p) \<noteq> 32
        then Inl StrongNeedsGeneralKeys
      else case X25519 L (IdentitySk p) (IdentityPkPeer p) of
        Inl e \<Rightarrow> Inl e
      | Inr ssStatic \<Rightarrow>
        (case eph_secret L (EphSk p) (EphPkPeer p) of
           Inl e \<Rightarrow> Inl e
         | Inr ssEph \<Rightarrow>
           (let gk = (if DeviceIDA p < DeviceIDB p then Concat [GeneralKeyA p, GeneralKeyB p]
                      else Concat [GeneralKeyB p, GeneralKeyA p])
            in Inr (case ssEph of Some ss \<Rightarrow> Concat [ssStatic, ss, gk]
                                | None \<Rightarrow> Concat [ssStatic, gk]))))"

definition default_profile :: "SessionParams \<Rightarrow> SessionParams" where
  "default_profile p = (if Profile_p p = '''' then p\<lparr>Profile_p := ''strong''\<rparr> else p)"

definition session_salt :: "SessionParams \<Rightarrow> bytes" where
  "session_salt p = (if DeviceIDA p < DeviceIDB p then Concat [NonceA p, NonceB p]
                     else Concat [NonceB p, NonceA p])"

definition session_info :: "SessionParams \<Rightarrow> bytes" where
  "session_info p =
     (let (idLo, idHi) = orderedIDs (DeviceIDA p) (DeviceIDB p);
          infoPrefix = (if Profile_p p = ''simple'' then ''COE-v1-session-simple''
                        else ''COE-v1-session'')
      in Concat [bytes_of infoPrefix, I2OSP (EpochID_p p) 8, bytes_of idLo,
                 bytes_of idHi, bytes_of (Profile_p p)])"

definition DeriveSessionStrong ::
    "crypto_lib \<Rightarrow> SessionParams \<Rightarrow> crypto_error + bytes \<times> bytes \<times> bytes" where
  "DeriveSessionStrong L p0 =
     (let p = default_profile p0 in
      case session_ikm L p of
        Inl e \<Rightarrow> Inl e
      | Inr ikm \<Rightarrow>
        (case HKDF L ikm (session_salt p) (session_info p) 32 of
           Inl e \<Rightarrow> Inl e
         | Inr sessionRoot \<Rightarrow>
           (case HKDF L sessionRoot ZeroSalt32
                   (Concat [bytes_of ''COE-v1-send'', bytes_of (DeviceIDA p)]) 32 of
              Inl e \<Rightarrow> Inl e
            | Inr kA \<Rightarrow>
              (case HKDF L sessionRoot ZeroSalt32
                      (Concat [bytes_of ''COE-v1-send'', bytes_of (DeviceIDB p)]) 32 of
                 Inl e \<Rightarrow> Inl e
               | Inr kB \<Rightarrow>
                 (if LocalDeviceID p = DeviceIDA p then Inr (sessionRoot, kA, kB)
                  else if LocalDeviceID p = DeviceIDB p then Inr (sessionRoot, kB, kA)
                  else Inl LocalIDNotParty)))))"

section \<open>A concrete library\<close>

text \<open>
  A small instance of the parameters that satisfies all five conditions, for the witnesses: a
  Diffie-Hellman over exclusive or, a seal that appends half of the key, a derivation that
  reads its inputs back.
\<close>

definition xor_bytes :: "bytes \<Rightarrow> bytes \<Rightarrow> bytes" where
  "xor_bytes a b = map2 (\<lambda>x y. x XOR y) a b"

definition xor_lib :: crypto_lib where
  "xor_lib = \<lparr>
     hkdf_ReadFull = (\<lambda>ikm salt info l. Some (take l (drop 12 info @ salt @ ikm @ replicate l 0))),
     curve25519_X25519 = (\<lambda>s p. Some (xor_bytes s p)),
     curve25519_Basepoint = 9 # replicate 31 0,
     chacha_Seal = (\<lambda>k n p a. p @ take 16 k),
     chacha_Open = (\<lambda>k n c a. if 16 \<le> length c \<and> drop (length c - 16) c = take 16 k
                              then Some (take (length c - 16) c) else None)\<rparr>"

section \<open>Lemmas\<close>

lemma length_xor_bytes [simp]: "length (xor_bytes a b) = min (length a) (length b)"
  by (simp add: xor_bytes_def)

lemma xor_bytes_swap:
  assumes "length a = length c" and "length b = length c"
  shows "xor_bytes a (xor_bytes b c) = xor_bytes b (xor_bytes a c)"
  using assms by (intro nth_equalityI) (simp_all add: xor_bytes_def ac_simps)

lemma keypair_xor_lib:
  "keypair xor_lib sk pk \<longleftrightarrow> length sk = 32 \<and> pk = xor_bytes sk (9 # replicate 31 0)"
  by (auto simp: keypair_def xor_lib_def)

lemma xor_lib_laws:
  "x25519_total xor_lib" "dh_agrees xor_lib" "aead_correct xor_lib" "hkdf_total xor_lib"
  "aead_overhead xor_lib"
proof -
  show "x25519_total xor_lib"
    by (simp add: x25519_total_def keypair_xor_lib)
  show "dh_agrees xor_lib"
    unfolding dh_agrees_def keypair_xor_lib by (simp add: xor_lib_def xor_bytes_swap)
  show "aead_correct xor_lib"
    by (simp add: aead_correct_def xor_lib_def)
  show "hkdf_total xor_lib"
    by (auto simp: hkdf_total_def xor_lib_def min_def)
  show "aead_overhead xor_lib"
    by (simp add: aead_overhead_def xor_lib_def)
qed

subsection \<open>Layout of salts, infos, nonces and additional data\<close>

lemma epoch_salt_inject [simp]: "epoch_salt e = epoch_salt e' \<longleftrightarrow> e = e'"
  by (simp add: epoch_salt_def)

lemma general_info_inject [simp]:
  "general_info d c = general_info d' c' \<longleftrightarrow> d = d' \<and> c = c'"
  by (simp add: general_info_def)

lemma org_day_info_inject [simp]: "org_day_info g = org_day_info g' \<longleftrightarrow> g = g'"
  by (simp add: org_day_info_def)

lemma take_general_info: "take 14 (general_info d c) = bytes_of ''COE-v1-general''"
  by (simp add: general_info_def)

lemma take_org_day_info: "take 14 (org_day_info g) = bytes_of ''COE-v1-org-day''"
  by (simp add: org_day_info_def)

lemma general_info_neq_org_day_info: "general_info d c \<noteq> org_day_info g"
proof
  assume "general_info d c = org_day_info g"
  then have "bytes_of ''COE-v1-general'' = bytes_of ''COE-v1-org-day''"
    using take_general_info [of d c] take_org_day_info [of g] by simp
  then show False by simp
qed

lemma length_NonceFromSeq [simp]: "length (NonceFromSeq s) = 12"
  by (simp add: NonceFromSeq_def)

lemma NonceFromSeq_inject [simp]: "NonceFromSeq s = NonceFromSeq t \<longleftrightarrow> s = t"
  by (simp add: NonceFromSeq_def)

text \<open>Everything but the border between the two device names is recoverable from the AAD.\<close>

lemma BuildAAD_eq_iff:
  "BuildAAD v e s r q = BuildAAD v' e' s' r' q' \<longleftrightarrow>
     v = v' \<and> e = e' \<and> s @ r = s' @ r' \<and> q = q'"
proof -
  have *: "BuildAAD v e s r q =
      bytes_of ''COE-v1-data'' @ [v] @ I2OSP e 8 @ bytes_of (s @ r) @ I2OSP q 8" for v e s r q
    by (simp add: BuildAAD_def)
  show ?thesis
    by (simp only: *) (auto simp del: bytes_of_append)
qed

subsection \<open>Agreement of the two ends\<close>

lemma orderedIDs_commute: "orderedIDs a b = orderedIDs b a"
  by (auto simp: orderedIDs_def dest: less_asym)

lemma X25519_agrees:
  assumes "dh_agrees L" "keypair L a pa" "keypair L b pb"
  obtains ss where "X25519 L a pb = Inr ss" and "X25519 L b pa = Inr ss"
  using assms unfolding dh_agrees_def X25519_def keypair_def by fastforce

lemma eph_secret_agrees:
  assumes "dh_agrees L" "keypair L a pa" "keypair L b pb"
  obtains ss where "eph_secret L a pb = Inr (Some ss)" and "eph_secret L b pa = Inr (Some ss)"
proof (rule X25519_agrees [OF assms])
  fix ss
  assume "X25519 L a pb = Inr ss" and "X25519 L b pa = Inr ss"
  with that [of ss] assms show ?thesis
    by (simp add: eph_secret_def keypair_def)
qed

lemma session_ikm_agrees:
  assumes "dh_agrees L" "keypair L skA pkA" "keypair L skB pkB" "keypair L eA epA" "keypair L eB epB"
  shows "session_ikm L (p\<lparr>IdentitySk := skB, IdentityPkPeer := pkA, EphSk := eB, EphPkPeer := epA,
             LocalDeviceID := l, PeerDeviceID := m\<rparr>) =
         session_ikm L (p\<lparr>IdentitySk := skA, IdentityPkPeer := pkB, EphSk := eA, EphPkPeer := epB,
             LocalDeviceID := l', PeerDeviceID := m'\<rparr>)"
proof (rule X25519_agrees [OF assms(1-3)])
  fix ss
  assume X: "X25519 L skA pkB = Inr ss" "X25519 L skB pkA = Inr ss"
  show ?thesis
  proof (rule eph_secret_agrees [OF assms(1,4,5)])
    fix es
    assume E: "eph_secret L eA epB = Inr (Some es)" "eph_secret L eB epA = Inr (Some es)"
    show ?thesis
      using X E assms by (simp add: session_ikm_def keypair_def)
  qed
qed

lemma HKDF_total:
  assumes "hkdf_total L" "l \<le> 255 * 32"
  obtains out where "HKDF L ikm salt info l = Inr out" and "length out = l"
proof -
  obtain out where "hkdf_ReadFull L ikm salt info l = Some out" and "length out = l"
    using assms unfolding hkdf_total_def by blast
  then show ?thesis by (intro that [of out]) (simp_all add: HKDF_def)
qed

lemma DeriveWrapKey_agrees:
  assumes "dh_agrees L" "hkdf_total L" "keypair L skA pkA" "keypair L skB pkB"
    "keypair L eA epA" "keypair L eB epB"
  obtains wrap where "length wrap = 32"
    and "DeriveWrapKey L skA pkB eA epB nA nB e idA idB = Inr wrap"
    and "DeriveWrapKey L skB pkA eB epA nA nB e idA idB = Inr wrap"
proof (rule X25519_agrees [OF assms(1,3,4)])
  fix ss
  assume X: "X25519 L skA pkB = Inr ss" "X25519 L skB pkA = Inr ss"
  show ?thesis
  proof (rule eph_secret_agrees [OF assms(1,5,6)])
    fix es
    assume E: "eph_secret L eA epB = Inr (Some es)" "eph_secret L eB epA = Inr (Some es)"
    obtain wrap where "DeriveWrapKey L skA pkB eA epB nA nB e idA idB = Inr wrap" "length wrap = 32"
      by (rule HKDF_total [OF assms(2), of 32 "ss @ es"
            "if idA < idB then Concat [nA, nB] else Concat [nB, nA]"
            "Concat [bytes_of ''COE-v1-gk-wrap'', I2OSP e 8, bytes_of (fst (orderedIDs idA idB)),
               bytes_of (snd (orderedIDs idA idB))]"])
        (simp_all add: DeriveWrapKey_def X E split_beta)
    with that show ?thesis
      by (simp add: DeriveWrapKey_def X E)
  qed
qed

lemma default_profile_sel [simp]:
  "DeviceIDA (default_profile p) = DeviceIDA p" "DeviceIDB (default_profile p) = DeviceIDB p"
  "LocalDeviceID (default_profile p) = LocalDeviceID p"
  by (simp_all add: default_profile_def)

lemma DeriveSessionStrong_total:
  assumes "hkdf_total L" and "session_ikm L (default_profile p) = Inr ikm"
    and "LocalDeviceID p = DeviceIDA p \<or> LocalDeviceID p = DeviceIDB p"
  obtains r s v where "DeriveSessionStrong L p = Inr (r, s, v)" "length s = 32" "length v = 32"
proof -
  obtain r where r: "HKDF L ikm (session_salt (default_profile p)) (session_info (default_profile p)) 32 = Inr r"
    by (rule HKDF_total [OF assms(1), of 32]) simp_all
  obtain kA where kA: "HKDF L r ZeroSalt32
      (Concat [bytes_of ''COE-v1-send'', bytes_of (DeviceIDA p)]) 32 = Inr kA" "length kA = 32"
    by (rule HKDF_total [OF assms(1), of 32]) simp_all
  obtain kB where kB: "HKDF L r ZeroSalt32
      (Concat [bytes_of ''COE-v1-send'', bytes_of (DeviceIDB p)]) 32 = Inr kB" "length kB = 32"
    by (rule HKDF_total [OF assms(1), of 32]) simp_all
  have "DeriveSessionStrong L p =
      Inr (r, if LocalDeviceID p = DeviceIDA p then (kA, kB) else (kB, kA))"
    using assms(2,3) r kA(1) kB(1) unfolding DeriveSessionStrong_def Let_def by auto
  then show ?thesis
    using that kA(2) kB(2) by (cases "LocalDeviceID p = DeviceIDA p") auto
qed

text \<open>The two ends of one session: the same parameters, with each end's own secrets.\<close>

definition as_A :: "bytes \<Rightarrow> bytes \<Rightarrow> bytes \<Rightarrow> bytes \<Rightarrow> SessionParams \<Rightarrow> SessionParams" where
  "as_A skA pkB eA epB p = p\<lparr>IdentitySk := skA, IdentityPkPeer := pkB, EphSk := eA, EphPkPeer := epB,
     LocalDeviceID := DeviceIDA p, PeerDeviceID := DeviceIDB p\<rparr>"

definition as_B :: "bytes \<Rightarrow> bytes \<Rightarrow> bytes \<Rightarrow> bytes \<Rightarrow> SessionParams \<Rightarrow> SessionParams" where
  "as_B skB pkA eB epA p = p\<lparr>IdentitySk := skB, IdentityPkPeer := pkA, EphSk := eB, EphPkPeer := epA,
     LocalDeviceID := DeviceIDB p, PeerDeviceID := DeviceIDA p\<rparr>"

lemma default_profile_as:
  "default_profile (as_A a b c d p) = as_A a b c d (default_profile p)"
  "default_profile (as_B a b c d p) = as_B a b c d (default_profile p)"
  by (simp_all add: default_profile_def as_A_def as_B_def)

lemma session_layout_as [simp]:
  "session_salt (as_A a b c d p) = session_salt p" "session_info (as_A a b c d p) = session_info p"
  "session_salt (as_B a b c d p) = session_salt p" "session_info (as_B a b c d p) = session_info p"
  "DeviceIDA (as_A a b c d p) = DeviceIDA p" "DeviceIDB (as_A a b c d p) = DeviceIDB p"
  "DeviceIDA (as_B a b c d p) = DeviceIDA p" "DeviceIDB (as_B a b c d p) = DeviceIDB p"
  "LocalDeviceID (as_A a b c d p) = DeviceIDA p" "LocalDeviceID (as_B a b c d p) = DeviceIDB p"
  by (simp_all add: session_salt_def session_info_def as_A_def as_B_def)

lemma DeriveSessionStrong_mirror:
  assumes "dh_agrees L" "keypair L skA pkA" "keypair L skB pkB" "keypair L eA epA" "keypair L eB epB"
  shows "DeriveSessionStrong L (as_B skB pkA eB epA p) =
      map_sum id (\<lambda>(r, s, v). (r, v, s)) (DeriveSessionStrong L (as_A skA pkB eA epB p))"
proof -
  have "session_ikm L (as_B skB pkA eB epA q) = session_ikm L (as_A skA pkB eA epB q)" for q
    unfolding as_A_def as_B_def by (rule session_ikm_agrees [OF assms])
  then show ?thesis
    unfolding DeriveSessionStrong_def Let_def default_profile_as by (auto split: sum.splits)
qed

section \<open>Properties\<close>

text \<open>
  C36: Keys of different devices, enrollments, epochs or organisations are derived from different
  inputs: if two keys derived from the master key coincide although the device, the enrollment
  counter or the epoch differ, or one is a device key and the other an organisation's day key,
  then HKDF itself has produced the same output for two different inputs.
\<close>

theorem derived_keys_separated:
  "(DeriveGeneralKey L m e d c = Inr k \<and> DeriveGeneralKey L m e' d' c' = Inr k \<and> (e, d, c) \<noteq> (e', d', c') \<or>
    DeriveGeneralKey L m e d c = Inr k \<and> DeriveOrgDayKey L m e' g = Inr k \<or>
    DeriveOrgDayKey L m e g = Inr k \<and> DeriveOrgDayKey L m e' g' = Inr k \<and> (e, g) \<noteq> (e', g')) \<longrightarrow>
   (\<exists>salt info salt' info'. (salt, info) \<noteq> (salt', info') \<and>
      hkdf_ReadFull L m salt info 32 = Some k \<and> hkdf_ReadFull L m salt' info' 32 = Some k)"
proof -
  have general: "DeriveGeneralKey L m e d c = Inr k \<longleftrightarrow>
      length m = 32 \<and> hkdf_ReadFull L m (epoch_salt e) (general_info d c) 32 = Some k"
    for e d c by (auto simp: DeriveGeneralKey_def HKDF_def split: option.splits)
  have org: "DeriveOrgDayKey L m e g = Inr k \<longleftrightarrow>
      length m = 32 \<and> hkdf_ReadFull L m (epoch_salt e) (org_day_info g) 32 = Some k"
    for e g by (auto simp: DeriveOrgDayKey_def HKDF_def split: option.splits)
  show ?thesis
    unfolding general org
    by (metis Pair_inject epoch_salt_inject general_info_inject org_day_info_inject general_info_neq_org_day_info)
qed

theorem derived_keys_separated_witness:
  "\<exists>salt info salt' info' k. (salt, info) \<noteq> (salt', info') \<and>
     hkdf_ReadFull (xor_lib\<lparr>hkdf_ReadFull := \<lambda>_ _ _ l. Some (replicate l 0)\<rparr>) (replicate 32 9) salt info 32 = Some k \<and>
     hkdf_ReadFull (xor_lib\<lparr>hkdf_ReadFull := \<lambda>_ _ _ l. Some (replicate l 0)\<rparr>) (replicate 32 9) salt' info' 32 = Some k"
proof -
  let ?L = "xor_lib\<lparr>hkdf_ReadFull := \<lambda>_ _ _ l. Some (replicate l 0)\<rparr>"
  have "DeriveGeneralKey ?L (replicate 32 9) 1 ''a'' 1 = Inr (replicate 32 0)" "DeriveGeneralKey ?L (replicate 32 9) 2 ''a'' 1 = Inr (replicate 32 0)"
    by (simp_all add: DeriveGeneralKey_def HKDF_def)
  then show ?thesis using derived_keys_separated [of ?L "replicate 32 9" 1 "''a''" 1 "replicate 32 0" 2 "''a''" 1] by auto
qed

end
