(* ===== verification/Frame.thy ===== *)
theory Frame
  imports Crypto
begin

text \<open>
  Length-prefixed framing over a connection, \<^verbatim>\<open>internal/p2p/frame.go\<close>.

  One end of a \<open>net.Conn\<close> is an \<open>endpoint\<close>: the bytes that have arrived and were not read yet,
  the bytes written so far, the number of further \<open>Write\<close> calls the transport will take, whether
  the connection is open, and the random bytes the process will draw from \<open>crypto/rand\<close>.
\<close>

section \<open>Definitions\<close>

record endpoint =
  rx :: bytes
  tx :: bytes
  writes_left :: nat
  up :: bool
  rnd :: bytes

datatype p2p_error =
    InvalidFrameLength nat | ConnWrite | ConnRead | JSONError
  | CryptoError crypto_error | PeerKeyOffer p2p_error | BadGeneralKeyLength
  | HandshakeRejected | UnexpectedPeer string | EpochDisagree u64 u64 | BadHello | ExpectedKeyOffer
  | DialFailed | SessionClosed | PeerClosed string | UnexpectedType u8 | EpochMismatch | ReplayOrOld u64

definition MaxPayload :: nat where
  "MaxPayload = 65536"

definition conn_Write :: "bytes \<Rightarrow> (endpoint, p2p_error, unit) go" where
  "conn_Write b = (\<lambda>c.
     if \<not> up c \<or> writes_left c = 0 then (Inl ConnWrite, c)
     else (Inr (), c\<lparr>tx := tx c @ b, writes_left := writes_left c - 1\<rparr>))"

text \<open>\<open>io.ReadFull\<close> into a buffer of \<open>n\<close> bytes; a short read consumes what there was.\<close>

definition io_ReadFull :: "nat \<Rightarrow> (endpoint, p2p_error, bytes) go" where
  "io_ReadFull n = (\<lambda>c.
     if \<not> up c then (Inl ConnRead, c)
     else if length (rx c) < n then (Inl ConnRead, c\<lparr>rx := []\<rparr>)
     else (Inr (take n (rx c)), c\<lparr>rx := drop n (rx c)\<rparr>))"

definition conn_Close :: "endpoint \<Rightarrow> endpoint" where
  "conn_Close c = c\<lparr>up := False\<rparr>"

definition WriteFrame :: "bytes \<Rightarrow> (endpoint, p2p_error, unit) go" where
  "WriteFrame payload =
     (if length payload = 0 \<or> length payload > MaxPayload
      then gerr (InvalidFrameLength (length payload))
      else gbind (conn_Write (PutUint32 (word_of_nat (length payload)))) (\<lambda>_. conn_Write payload))"

definition ReadFrame :: "(endpoint, p2p_error, bytes) go" where
  "ReadFrame = gbind (io_ReadFull 4) (\<lambda>hdr.
     let n = BE_Uint32 hdr
     in if n = 0 \<or> n > word_of_nat MaxPayload then gerr (InvalidFrameLength (unat n))
        else io_ReadFull (unat n))"

text \<open>What a frame looks like on the wire, and which payloads have one.\<close>

definition frame :: "bytes \<Rightarrow> bytes" where
  "frame payload = PutUint32 (word_of_nat (length payload)) @ payload"

definition framable :: "bytes \<Rightarrow> bool" where
  "framable payload \<longleftrightarrow> 0 < length payload \<and> length payload \<le> MaxPayload"

section \<open>Lemmas\<close>

lemma WriteFrame_framable:
  assumes "framable p" and "up c" and "2 \<le> writes_left c"
  shows "WriteFrame p c = (Inr (), c\<lparr>tx := tx c @ frame p, writes_left := writes_left c - 2\<rparr>)"
  using assms
  by (auto simp: WriteFrame_def framable_def frame_def gbind_def conn_Write_def)

lemma WriteFrame_InrD:
  assumes "WriteFrame p c = (Inr (), c')"
  shows "framable p" and "c' = c\<lparr>tx := tx c @ frame p, writes_left := writes_left c - 2\<rparr>"
  using assms
  by (auto simp: WriteFrame_def framable_def frame_def conn_Write_def gbind_def split: if_splits)

lemma WriteFrame_Inl_frame:
  "WriteFrame p c = (Inl e, c') \<Longrightarrow> rx c' = rx c \<and> rnd c' = rnd c \<and> up c' = up c"
  by (auto simp: WriteFrame_def conn_Write_def gbind_def split: if_splits)

lemma ReadFrame_frame:
  assumes "framable p" and "up c" and "rx c = frame p @ rest"
  shows "ReadFrame c = (Inr p, c\<lparr>rx := rest\<rparr>)"
proof -
  let ?n = "word_of_nat (length p) :: u32"
  have len: "unat ?n = length p"
    using assms(1) by (simp add: framable_def MaxPayload_def unat_of_nat take_bit_nat_eq_self)
  have hdr: "io_ReadFull 4 c = (Inr (PutUint32 ?n), c\<lparr>rx := p @ rest\<rparr>)"
    using assms(2,3) by (simp add: io_ReadFull_def frame_def)
  have "?n \<noteq> 0" and "\<not> ?n > word_of_nat MaxPayload"
    using assms(1) len by (auto simp: framable_def MaxPayload_def word_less_nat_alt)
  then show ?thesis
    using assms(2) len by (simp add: ReadFrame_def gbind_def hdr) (simp add: io_ReadFull_def)
qed

lemma io_ReadFull_InrD:
  "io_ReadFull n c = (Inr b, c') \<Longrightarrow>
     up c \<and> length b = n \<and> rx c = b @ rx c' \<and> c' = c\<lparr>rx := drop n (rx c)\<rparr>"
  by (auto simp: io_ReadFull_def split: if_splits)

lemma ReadFrame_InrD:
  assumes "ReadFrame c = (Inr p, c')"
  shows "framable p" and "rx c = frame p @ rx c'" and "c' = c\<lparr>rx := rx c'\<rparr>"
proof -
  obtain hdr c1 where h: "io_ReadFull 4 c = (Inr hdr, c1)"
    and r: "(if BE_Uint32 hdr = 0 \<or> BE_Uint32 hdr > word_of_nat MaxPayload
       then gerr (InvalidFrameLength (unat (BE_Uint32 hdr)))
       else io_ReadFull (unat (BE_Uint32 hdr))) c1 = (Inr p, c')"
    using assms unfolding ReadFrame_def Let_def by (rule gbind_InrE)
  then have n: "BE_Uint32 hdr \<noteq> 0" "\<not> BE_Uint32 hdr > word_of_nat MaxPayload"
    and b: "io_ReadFull (unat (BE_Uint32 hdr)) c1 = (Inr p, c')"
    by (auto split: if_splits)
  have lenh: "length hdr = 4" and rxc: "rx c = hdr @ rx c1" and c1: "c1 = c\<lparr>rx := drop 4 (rx c)\<rparr>"
    using io_ReadFull_InrD [OF h] by blast+
  have lenp: "length p = unat (BE_Uint32 hdr)" and rxc1: "rx c1 = p @ rx c'"
    and c': "c' = c1\<lparr>rx := drop (unat (BE_Uint32 hdr)) (rx c1)\<rparr>"
    using io_ReadFull_InrD [OF b] by blast+
  have "0 < unat (BE_Uint32 hdr)" using n(1) by (simp add: unat_gt_0)
  with n(2) lenp show "framable p"
    by (simp add: framable_def MaxPayload_def word_less_nat_alt)
  have "PutUint32 (word_of_nat (length p)) = hdr"
    by (simp add: lenp PutUint32_BE_Uint32 [OF lenh])
  then show "rx c = frame p @ rx c'" by (simp only: rxc rxc1 frame_def append_assoc)
  have "c' = c\<lparr>rx := drop (unat (BE_Uint32 hdr)) (drop 4 (rx c))\<rparr>"
    unfolding c' c1 by simp
  then show "c' = c\<lparr>rx := rx c'\<rparr>" by simp
qed

section \<open>The contract of a framing\<close>

text \<open>
  A framing turns payloads into self-delimiting byte strings: what one end wrote, the other
  end reads back, leaving the rest of the stream untouched.
\<close>

locale framing =
  fixes put :: "bytes \<Rightarrow> (endpoint, p2p_error, unit) go"
    and get :: "(endpoint, p2p_error, bytes) go"
    and image :: "bytes \<Rightarrow> bytes"
    and fits :: "bytes \<Rightarrow> bool"
  assumes put_fits: "put p c = (Inr (), c') \<Longrightarrow> fits p \<and> tx c' = tx c @ image p \<and> rx c' = rx c \<and>
      rnd c' = rnd c \<and> up c' = up c"
    and get_image: "fits p \<Longrightarrow> up c \<Longrightarrow> rx c = image p @ rest \<Longrightarrow> get c = (Inr p, c\<lparr>rx := rest\<rparr>)"
    and get_sound: "get c = (Inr p, c') \<Longrightarrow> fits p \<and> rx c = image p @ rx c'"
begin

lemma get_put:
  assumes "put p c = (Inr (), c')" and "up d" and "tx c @ rx d = tx c' @ rest"
  shows "get d = (Inr p, d\<lparr>rx := rest\<rparr>)"
  using put_fits [OF assms(1)] assms(2,3) by (intro get_image) simp_all

lemma image_prefix_free:
  assumes "fits p" and "fits q" and "image p @ us = image q @ vs"
  shows "p = q \<and> us = vs"
proof -
  let ?c = "\<lparr>rx = image p @ us, tx = [], writes_left = 0, up = True, rnd = []\<rparr>"
  have "get ?c = (Inr p, ?c\<lparr>rx := us\<rparr>)" using assms(1) by (intro get_image) simp_all
  moreover have "get ?c = (Inr q, ?c\<lparr>rx := vs\<rparr>)" using assms(2,3) by (intro get_image) simp_all
  ultimately show ?thesis by simp
qed

end

interpretation frames: framing WriteFrame ReadFrame frame framable
proof
  fix p c c' rest
  show "framable p \<and> tx c' = tx c @ frame p \<and> rx c' = rx c \<and> rnd c' = rnd c \<and> up c' = up c"
    if "WriteFrame p c = (Inr (), c')"
    using WriteFrame_InrD [OF that] by simp
  show "ReadFrame c = (Inr p, c\<lparr>rx := rest\<rparr>)"
    if "framable p" and "up c" and "rx c = frame p @ rest"
    using that by (rule ReadFrame_frame)
  show "framable p \<and> rx c = frame p @ rx c'" if "ReadFrame c = (Inr p, c')"
    using ReadFrame_InrD [OF that] by simp
qed

section \<open>Properties\<close>

text \<open>
  Reading a frame is exact: it succeeds with payload \<open>p\<close> precisely when the connection is up
  and the received bytes start with the frame of a payload of 1 to 65536 bytes, and then
  consumes that frame and nothing else; every other header is refused.
\<close>

theorem ReadFrame_exact:
  "ReadFrame c = (Inr p, c') \<longleftrightarrow>
     up c \<and> 0 < length p \<and> length p \<le> 65536 \<and> (\<exists>rest. rx c = frame p @ rest \<and> c' = c\<lparr>rx := rest\<rparr>)"
proof
  assume r: "ReadFrame c = (Inr p, c')"
  then have "up c" by (auto simp: ReadFrame_def gbind_def io_ReadFull_def split: if_splits)
  then show "up c \<and> 0 < length p \<and> length p \<le> 65536 \<and> (\<exists>rest. rx c = frame p @ rest \<and> c' = c\<lparr>rx := rest\<rparr>)"
    using ReadFrame_InrD [OF r] by (auto simp: framable_def MaxPayload_def)
qed (use frames.get_image in \<open>auto simp: framable_def MaxPayload_def\<close>)

end
