(* ===== verification/Replay.thy ===== *)
theory Replay
  imports Prelude
begin

text \<open>
  The replay window of \<^verbatim>\<open>internal/p2p/replay.go\<close> and the contract its client, the receive path of
  a session, relies on. The Go map \<open>map[uint64]struct{}\<close> is a set of sequence numbers; all
  arithmetic is on \<open>uint64\<close> and wraps.
\<close>

section \<open>Definitions\<close>

record ReplayWindow =
  w_size :: u64
  maxSeq :: u64
  bitmap :: "u64 set"
  inited :: bool

definition NewReplayWindow :: "u64 \<Rightarrow> ReplayWindow" where
  "NewReplayWindow sz =
     \<lparr>w_size = (if sz = 0 then 128 else sz), maxSeq = 0, bitmap = {}, inited = False\<rparr>"

definition Accept :: "ReplayWindow \<Rightarrow> u64 \<Rightarrow> bool \<times> ReplayWindow" where
  "Accept w seq =
     (if \<not> inited w then
        (True, w\<lparr>inited := True, maxSeq := seq, bitmap := insert seq (bitmap w)\<rparr>)
      else if seq \<in> bitmap w then (False, w)
      else if seq + w_size w < maxSeq w then (False, w)
      else
        let w' = (if seq > maxSeq w then
                    (let low = (if seq < w_size w then 0 else seq - w_size w + 1)
                     in w\<lparr>bitmap := {s \<in> bitmap w. \<not> s < low}, maxSeq := seq\<rparr>)
                  else w)
        in (True, w'\<lparr>bitmap := insert seq (bitmap w')\<rparr>))"

text \<open>A run of calls: the sequence numbers that were accepted, and the window at the end.\<close>

fun accept_run :: "ReplayWindow \<Rightarrow> u64 list \<Rightarrow> u64 list \<times> ReplayWindow" where
  "accept_run w [] = ([], w)"
| "accept_run w (s # ss) =
     (let (ok, w1) = Accept w s; (acc, w2) = accept_run w1 ss
      in (if ok then s # acc else acc, w2))"

section \<open>Invariant\<close>

text \<open>
  What the window keeps true after the history \<open>A\<close> of accepted numbers: every recorded number
  was accepted and lies at most \<open>size\<close> below the maximum, and every accepted number that is
  less than \<open>size\<close> below the maximum is still recorded.
\<close>

definition window_inv :: "u64 set \<Rightarrow> ReplayWindow \<Rightarrow> bool" where
  "window_inv A w \<longleftrightarrow> 0 < w_size w \<and> bitmap w \<subseteq> A \<and>
     (if inited w then
        maxSeq w \<in> bitmap w \<and>
        (\<forall>s \<in> A. s \<le> maxSeq w) \<and>
        (\<forall>s \<in> bitmap w. unat (maxSeq w) \<le> unat s + unat (w_size w)) \<and>
        (\<forall>s \<in> A. unat (maxSeq w) < unat s + unat (w_size w) \<longrightarrow> s \<in> bitmap w)
      else A = {})"

lemma window_inv_New: "window_inv {} (NewReplayWindow n)"
  by (simp add: window_inv_def NewReplayWindow_def word_greater_zero_iff)

lemma w_size_Accept [simp]: "w_size (snd (Accept w s)) = w_size w"
  by (simp add: Accept_def Let_def)

lemma inited_Accept [simp]: "inited (snd (Accept w s)) \<longleftrightarrow> inited w \<or> fst (Accept w s)"
  by (simp add: Accept_def Let_def)

lemma Accept_False: "fst (Accept w s) = False \<Longrightarrow> snd (Accept w s) = w"
  by (auto simp: Accept_def Let_def split: if_splits)

text \<open>The three ways a call can be accepted.\<close>

lemma above_low_iff:
  assumes "0 < n" and "n \<le> s"
  shows "\<not> x < s - n + 1 \<longleftrightarrow> unat s < unat x + unat (n :: u64)"
proof -
  have n: "unat n \<le> unat s" "0 < unat n"
    using assms by (simp_all add: word_le_nat_alt word_less_nat_alt)
  have "unat (s - n + 1) = (unat s - unat n + 1) mod 2 ^ 64"
    using unat_word_ariths(1) [of "s - n" 1] unat_sub [OF assms(2)] by simp
  also have "\<dots> = unat s - unat n + 1"
    using n unat_u64_less [of s] by (intro mod_less) simp
  finally show ?thesis
    using n by (auto simp: word_less_nat_alt)
qed

lemma old_iff:
  "\<not> s + n < m \<Longrightarrow> unat (m :: u64) \<le> unat s + unat n"
  using unat_word_ariths(1) [of s n] mod_less_eq_dividend [of "unat s + unat n" "2 ^ 64"]
  by (simp add: word_less_nat_alt not_less)

lemma Accept_True_cases:
  assumes "fst (Accept w s)" and "0 < w_size w"
  obtains
    (first) "\<not> inited w"
      "snd (Accept w s) = w\<lparr>inited := True, maxSeq := s, bitmap := insert s (bitmap w)\<rparr>"
  | (advance) "inited w" "maxSeq w < s"
      "snd (Accept w s) = w\<lparr>maxSeq := s,
         bitmap := insert s {x \<in> bitmap w. unat s < unat x + unat (w_size w)}\<rparr>"
  | (inside) "inited w" "s \<le> maxSeq w" "s \<notin> bitmap w"
      "unat (maxSeq w) \<le> unat s + unat (w_size w)"
      "snd (Accept w s) = w\<lparr>bitmap := insert s (bitmap w)\<rparr>"
proof (cases "inited w")
  case False
  then show ?thesis by (intro first) (simp_all add: Accept_def)
next
  case init: True
  with assms have nb: "s \<notin> bitmap w" and old: "\<not> s + w_size w < maxSeq w"
    by (auto simp: Accept_def split: if_splits)
  show ?thesis
  proof (cases "maxSeq w < s")
    case True
    have "{x \<in> bitmap w. \<not> x < (if s < w_size w then 0 else s - w_size w + 1)} =
        {x \<in> bitmap w. unat s < unat x + unat (w_size w)}"
      using assms(2) above_low_iff [of "w_size w" s]
      by (auto simp: word_less_nat_alt not_less word_le_nat_alt)
    with True init nb old show ?thesis
      by (intro advance) (simp_all add: Accept_def Let_def)
  next
    case False
    with init nb old show ?thesis
      by (intro inside) (simp_all add: Accept_def Let_def old_iff)
  qed
qed

lemma window_inv_Accept:
  assumes inv: "window_inv A w"
  shows "window_inv (if fst (Accept w s) then insert s A else A) (snd (Accept w s))"
proof (cases "fst (Accept w s)")
  case False
  with inv show ?thesis by (simp add: Accept_False)
next
  case True
  have pos: "0 < w_size w" using inv by (simp add: window_inv_def)
  from True pos show ?thesis
  proof (cases rule: Accept_True_cases)
    case first
    with inv True pos show ?thesis
      by (auto simp: window_inv_def)
  next
    case advance
    have "unat x < unat s" if "x \<in> A" for x
      using that inv advance(1,2) by (auto simp: window_inv_def word_less_nat_alt word_le_nat_alt)
    with inv advance True pos show ?thesis
      by (auto simp: window_inv_def word_le_nat_alt word_less_nat_alt less_imp_le)
  next
    case inside
    with inv True pos show ?thesis
      by (auto simp: window_inv_def)
  qed
qed

lemma window_inv_run:
  "window_inv A w \<Longrightarrow>
     window_inv (set (fst (accept_run w ss)) \<union> A) (snd (accept_run w ss))"
proof (induction ss arbitrary: A w)
  case Nil
  then show ?case by simp
next
  case (Cons s ss)
  from window_inv_Accept [OF Cons.prems, of s] Cons.IH show ?case
    by (fastforce simp: split_beta Un_insert_right Un_insert_left split: if_splits)
qed

lemma w_size_run [simp]: "w_size (snd (accept_run w ss)) = w_size w"
  by (induction ss arbitrary: w) (simp_all add: split_beta)

text \<open>Strictly inside the window the test is exact: refused if and only if accepted before.\<close>

lemma Accept_exact:
  assumes inv: "window_inv A w"
    and win: "unat (maxSeq w) < unat s + unat (w_size w)"
    and no_wrap: "unat s + unat (w_size w) < 2 ^ 64"
  shows "fst (Accept w s) \<longleftrightarrow> s \<notin> A"
proof (cases "inited w")
  case False
  with inv show ?thesis by (simp add: Accept_def window_inv_def)
next
  case True
  have "\<not> s + w_size w < maxSeq w"
    using win no_wrap by (simp add: word_less_nat_alt unat_word_ariths)
  moreover have "s \<in> bitmap w \<longleftrightarrow> s \<in> A"
    using inv True win by (auto simp: window_inv_def)
  ultimately show ?thesis
    using True by (simp add: Accept_def Let_def)
qed

lemma window_inv_card:
  assumes "window_inv A w"
  shows "card (bitmap w) \<le> unat (w_size w) + 1"
proof -
  have "unat ` bitmap w \<subseteq> {unat (maxSeq w) - unat (w_size w)..unat (maxSeq w)}"
  proof (rule image_subsetI)
    fix x
    assume x: "x \<in> bitmap w"
    with assms have i: "inited w" by (auto simp: window_inv_def split: if_splits)
    with assms x have "unat x \<le> unat (maxSeq w)" "unat (maxSeq w) \<le> unat x + unat (w_size w)"
      by (auto simp: window_inv_def word_le_nat_alt)
    then show "unat x \<in> {unat (maxSeq w) - unat (w_size w)..unat (maxSeq w)}" by simp
  qed
  then have "card (unat ` bitmap w) \<le> card {unat (maxSeq w) - unat (w_size w)..unat (maxSeq w)}"
    by (intro card_mono) simp_all
  moreover have "card (unat ` bitmap w) = card (bitmap w)"
    by (intro card_image) (simp add: inj_on_def word_unat_eq_iff)
  ultimately show ?thesis by simp
qed

section \<open>The contract of a replay filter\<close>

text \<open>
  What the receive path needs of a filter: a number that is marked is refused, an accepted
  number is marked, and a number ahead of everything seen is accepted, so that a stream
  numbered in increasing order passes.
\<close>

locale replay_filter =
  fixes accept :: "'w \<Rightarrow> u64 \<Rightarrow> bool \<times> 'w"
    and marked :: "'w \<Rightarrow> u64 \<Rightarrow> bool"
    and ahead :: "'w \<Rightarrow> u64 \<Rightarrow> bool"
    and invar :: "'w \<Rightarrow> bool"
  assumes invar_accept: "invar w \<Longrightarrow> invar (snd (accept w s))"
    and refuse_marked: "invar w \<Longrightarrow> marked w s \<Longrightarrow> accept w s = (False, w)"
    and accept_marks: "invar w \<Longrightarrow> fst (accept w s) \<Longrightarrow> marked (snd (accept w s)) s"
    and accept_ahead: "invar w \<Longrightarrow> ahead w s \<Longrightarrow> fst (accept w s)"
    and ahead_mono: "invar w \<Longrightarrow> ahead w s \<Longrightarrow> s < t \<Longrightarrow> unat t < 2 ^ 63 \<Longrightarrow>
      ahead (snd (accept w s)) t"
begin

lemma accept_twice:
  assumes "invar w" and "accept w s = (True, w')"
  shows "accept w' s = (False, w')"
proof -
  have "marked w' s" and "invar w'"
    using accept_marks [OF assms(1), of s] invar_accept [OF assms(1), of s] assms(2) by simp_all
  then show ?thesis by (intro refuse_marked)
qed

lemma accept_next:
  assumes "invar w" and "ahead w s"
  obtains w' where "accept w s = (True, w')" and "invar w'"
    and "\<And>t. s < t \<Longrightarrow> unat t < 2 ^ 63 \<Longrightarrow> ahead w' t"
proof
  show "accept w s = (True, snd (accept w s))"
    using accept_ahead [OF assms] by (simp add: prod_eq_iff)
  show "invar (snd (accept w s))" using assms(1) by (rule invar_accept)
  show "ahead (snd (accept w s)) t" if "s < t" and "unat t < 2 ^ 63" for t
    using assms that by (rule ahead_mono)
qed

end

definition replay_ok :: "ReplayWindow \<Rightarrow> bool" where
  "replay_ok w \<longleftrightarrow> unat (w_size w) < 2 ^ 63 \<and> (\<exists>A. window_inv A w)"

definition replay_marked :: "ReplayWindow \<Rightarrow> u64 \<Rightarrow> bool" where
  "replay_marked w s \<longleftrightarrow> inited w \<and> s \<in> bitmap w"

definition replay_ahead :: "ReplayWindow \<Rightarrow> u64 \<Rightarrow> bool" where
  "replay_ahead w s \<longleftrightarrow> (inited w \<longrightarrow> maxSeq w < s) \<and> unat s < 2 ^ 63"

lemma Accept_ahead:
  assumes ok: "replay_ok w" and a: "replay_ahead w s"
  shows "fst (Accept w s)"
proof -
  obtain A where A: "window_inv A w" and sz: "unat (w_size w) < 2 ^ 63"
    using ok by (auto simp: replay_ok_def)
  show ?thesis
  proof (cases "inited w")
    case True
    with a have m: "unat (maxSeq w) < unat s" and s: "unat s < 2 ^ 63"
      by (simp_all add: replay_ahead_def word_less_nat_alt)
    have "s \<notin> A" using A True m by (auto simp: window_inv_def word_le_nat_alt)
    with Accept_exact [OF A, of s] m s sz show ?thesis by simp
  qed (simp add: Accept_def)
qed

lemma maxSeq_Accept_ahead:
  assumes "replay_ok w" and "replay_ahead w s"
  shows "maxSeq (snd (Accept w s)) = s"
proof -
  have "0 < w_size w" using assms(1) by (auto simp: replay_ok_def window_inv_def)
  with Accept_ahead [OF assms] show ?thesis
    by (cases rule: Accept_True_cases) (use assms(2) in \<open>auto simp: replay_ahead_def\<close>)
qed

interpretation rw: replay_filter Accept replay_marked replay_ahead replay_ok
proof
  fix w s t
  assume ok: "replay_ok w"
  then obtain A where A: "window_inv A w" by (auto simp: replay_ok_def)
  show "replay_ok (snd (Accept w s))"
    using ok window_inv_Accept [OF A, of s] by (auto simp: replay_ok_def)
  show "Accept w s = (False, w)" if "replay_marked w s"
    using that by (simp add: replay_marked_def Accept_def)
  show "replay_marked (snd (Accept w s)) s" if "fst (Accept w s)"
    using that by (auto simp: replay_marked_def Accept_def Let_def split: if_splits)
  show "fst (Accept w s)" if "replay_ahead w s"
    using ok that by (rule Accept_ahead)
  show "replay_ahead (snd (Accept w s)) t"
    if "replay_ahead w s" and "s < t" and "unat t < 2 ^ 63"
    using that maxSeq_Accept_ahead [OF ok that(1)] by (simp add: replay_ahead_def)
qed

lemma replay_ok_New: "unat n < 2 ^ 63 \<Longrightarrow> replay_ok (NewReplayWindow n)"
  using window_inv_New [of n] by (auto simp: replay_ok_def NewReplayWindow_def)

lemma replay_ahead_New: "unat s < 2 ^ 63 \<Longrightarrow> replay_ahead (NewReplayWindow n) s"
  by (simp add: replay_ahead_def NewReplayWindow_def)

section \<open>Properties\<close>

text \<open>
  C16: After any run of calls on a fresh window, a sequence number that lies strictly inside the
  window (less than \<open>size\<close> below the maximum, no wrap of \<open>seq + size\<close>) is accepted if and only if
  it has not been accepted before: no duplicate passes and no new number is lost.
\<close>

theorem replay_window_exact:
  assumes "accept_run (NewReplayWindow n) ss = (acc, w)"
    and "unat (maxSeq w) < unat s + unat (w_size w)"
    and "unat s + unat (w_size w) < 2 ^ 64"
  shows "fst (Accept w s) \<longleftrightarrow> s \<notin> set acc"
proof -
  have "window_inv (set acc) w"
    using window_inv_run [OF window_inv_New, of n ss] assms(1) by simp
  then show ?thesis using assms(2,3) by (rule Accept_exact)
qed

theorem replay_window_exact_witness:
  "\<not> fst (Accept (snd (accept_run (NewReplayWindow 8) [0, 1, 5])) 1) \<and>
   fst (Accept (snd (accept_run (NewReplayWindow 8) [0, 1, 5])) 3)"
proof -
  let ?r = "accept_run (NewReplayWindow 8) [0, 1, 5]"
  have r: "?r = ([0, 1, 5], snd ?r)" and m: "maxSeq (snd ?r) = 5" and z: "w_size (NewReplayWindow 8) = 8"
    by (simp_all add: Accept_def NewReplayWindow_def)
  show ?thesis
    using replay_window_exact [OF r, of 1] replay_window_exact [OF r, of 3]
    by (simp add: m z del: accept_run.simps)
qed

text \<open>
  The set of remembered sequence numbers never grows beyond \<open>size + 1\<close> entries, whatever
  sequence numbers arrive.
\<close>

theorem replay_bitmap_bounded:
  "card (bitmap (snd (accept_run (NewReplayWindow n) ss)))
     \<le> unat (w_size (NewReplayWindow n)) + 1"
  using window_inv_card [OF window_inv_run [OF window_inv_New, of n ss]] by simp

text \<open>
  At the low-water mark the window forgets too early: the age test still admits
  \<open>seq = maxSeq - size\<close> while the entry for it was dropped when the maximum advanced. A frame
  numbered \<open>s\<close> is accepted, and accepted again after a frame numbered \<open>s + size\<close>.
\<close>

theorem replay_low_water_mark:
  assumes "0 < n" and "unat s + 2 * unat n < 2 ^ 64"
  shows "fst (accept_run (NewReplayWindow n) [s, s + n, s]) = [s, s + n, s]"
proof -
  have u: "unat (s + n) = unat s + unat n" and u2: "unat (s + n + n) = unat s + 2 * unat n"
    using assms(2) by (simp_all add: unat_word_ariths)
  have n: "n \<noteq> 0" and lt: "s < s + n" and le: "n \<le> s + n" and not_old: "\<not> s + n + n < s"
    using assms u u2 by (auto simp: word_less_nat_alt word_le_nat_alt)
  have w1: "Accept (NewReplayWindow n) s =
      (True, \<lparr>w_size = n, maxSeq = s, bitmap = {s}, inited = True\<rparr>)"
    using n by (simp add: NewReplayWindow_def Accept_def)
  have "{x. x = s \<and> \<not> x < s + n - n + 1} = {}"
    using above_low_iff [OF assms(1) le, of s] by (auto simp: u)
  then have w2: "Accept \<lparr>w_size = n, maxSeq = s, bitmap = {s}, inited = True\<rparr> (s + n) =
      (True, \<lparr>w_size = n, maxSeq = s + n, bitmap = {s + n}, inited = True\<rparr>)"
    using n lt le not_old by (auto simp: Accept_def Let_def not_less)
  have w3: "fst (Accept \<lparr>w_size = n, maxSeq = s + n, bitmap = {s + n}, inited = True\<rparr> s)"
    using n lt by (simp add: Accept_def Let_def)
  show ?thesis
    using w3 by (simp add: w1 w2 split_beta)
qed

theorem replay_low_water_mark_witness:
  "fst (accept_run (NewReplayWindow 128) [0, 128, 0]) = [0, 128, 0]"
  using replay_low_water_mark [of 128 0] by (simp del: accept_run.simps)

end
