(* ===== verification/FieldCodec.thy ===== *)
theory FieldCodec
  imports Encoding
begin

text \<open>
  A self-delimiting encoding of a list of byte strings, with its decoder: every field is written
  as its length in unary, a zero byte and its bytes. The concrete codecs that show the conditions
  on Go's JSON to be satisfiable are built from it.
\<close>

fun put_fields :: "bytes list \<Rightarrow> bytes" where
  "put_fields [] = []"
| "put_fields (f # fs) = replicate (length f) 1 @ 0 # f @ put_fields fs"

function get_fields :: "bytes \<Rightarrow> bytes list" where
  "get_fields [] = []"
| "get_fields (b # bs) =
     (let n = length (takeWhile (\<lambda>x. x = 1) (b # bs)); r = drop (Suc n) (b # bs)
      in take n r # get_fields (drop n r))"
  by pat_completeness auto
termination
  by (relation "measure length") auto

lemma takeWhile_unary: "takeWhile (\<lambda>x. x = 1) (replicate n (1 :: byte) @ 0 # xs) = replicate n 1"
  by (induction n) simp_all

lemma get_put_fields [simp]: "get_fields (put_fields fs) = fs"
proof (induction fs)
  case (Cons f fs)
  obtain b bs where b: "replicate (length f) 1 @ 0 # f @ put_fields fs = b # bs"
    by (cases "replicate (length f) 1 @ 0 # f @ put_fields fs") auto
  have "length (takeWhile (\<lambda>x. x = 1) (b # bs)) = length f"
    unfolding b [symmetric] by (simp add: takeWhile_unary)
  moreover have "drop (Suc (length f)) (b # bs) = f @ put_fields fs"
    unfolding b [symmetric] by simp
  ultimately show ?case using Cons by (simp add: b Let_def del: takeWhile.simps drop_Suc_Cons drop_drop)
qed simp

lemma length_put_fields: "length (put_fields fs) = length fs + 2 * sum_list (map length fs)"
  by (induction fs) simp_all

definition num :: "u64 \<Rightarrow> bytes" where "num w = I2OSP w 8"
definition un_num :: "bytes \<Rightarrow> u64" where "un_num b = word_of_nat (be_nat b)"

lemma un_num_num [simp]: "un_num (num w) = w" "length (num w) = 8"
  by (simp_all add: un_num_def num_def be_nat_I2OSP_8)

definition inum :: "i64 \<Rightarrow> bytes" where "inum x = num (u64_of_i64 x)"
definition un_inum :: "bytes \<Rightarrow> i64" where "un_inum b = i64_of_u64 (un_num b)"

lemma un_inum_inum [simp]: "is_i64 x \<Longrightarrow> un_inum (inum x) = x"
  by (simp add: un_inum_def inum_def i64_of_u64_u64_of_i64)

end
