(* ===== verification/Msg.thy ===== *)
theory Msg
  imports FieldCodec
begin

text \<open>
  The messages of the peer-to-peer protocol, \<^verbatim>\<open>internal/p2p/msg.go\<close>.

  Go's JSON encoder and decoder for the five message types are the fields of a \<open>codec\<close>; the
  conditions \<open>codec_ok\<close> and \<open>codec_fits\<close> say what the protocol needs of them: a value whose
  strings are ASCII is decoded as it was encoded, and the encoding is at most linear in its
  fields. A concrete codec, \<open>field_codec\<close>, shows that the conditions can hold.
\<close>

section \<open>Messages\<close>

definition TypeHello :: u8 where "TypeHello = 1"
definition TypeHelloAck :: u8 where "TypeHelloAck = 2"
definition TypeData :: u8 where "TypeData = 4"
definition TypeClose :: u8 where "TypeClose = 5"
definition TypeKeyOffer :: u8 where "TypeKeyOffer = 7"

record Hello =
  h_Type :: u8
  h_Ver :: u8
  h_DeviceID :: string
  h_EpochID :: u64
  h_IdentityPK :: bytes
  h_EphPK :: bytes
  h_SessionNonce :: bytes
  h_KeySerial :: u64
  h_Profile :: string

record HelloAck =
  a_Type :: u8
  a_Ver :: u8
  a_DeviceID :: string
  a_EpochID :: u64
  a_IdentityPK :: bytes
  a_EphPK :: bytes
  a_SessionNonce :: bytes
  a_KeySerial :: u64
  a_Profile :: string
  a_Accept :: bool

record KeyOffer =
  k_Type :: u8
  k_EpochID :: u64
  k_Nonce :: bytes
  k_Ciphertext :: bytes

record DataMsg =
  d_Type :: u8
  d_EpochID :: u64
  d_Seq :: u64
  d_Nonce :: bytes
  d_Ciphertext :: bytes

record CloseMsg =
  c_Type :: u8
  c_Reason :: string

text \<open>
  \<open>dec_head\<close> reads the type field alone; \<open>dec_CloseMsg\<close> ignores errors and leaves the zero value
  in what it cannot read, as \<open>Recv\<close> uses it.
\<close>

record codec =
  enc_Hello :: "Hello \<Rightarrow> bytes"
  dec_Hello :: "bytes \<Rightarrow> Hello option"
  enc_HelloAck :: "HelloAck \<Rightarrow> bytes"
  dec_HelloAck :: "bytes \<Rightarrow> HelloAck option"
  enc_KeyOffer :: "KeyOffer \<Rightarrow> bytes"
  dec_KeyOffer :: "bytes \<Rightarrow> KeyOffer option"
  enc_DataMsg :: "DataMsg \<Rightarrow> bytes"
  dec_DataMsg :: "bytes \<Rightarrow> DataMsg option"
  enc_CloseMsg :: "CloseMsg \<Rightarrow> bytes"
  dec_CloseMsg :: "bytes \<Rightarrow> CloseMsg"
  dec_head :: "bytes \<Rightarrow> u8 option"

definition codec_ok :: "codec \<Rightarrow> bool" where
  "codec_ok J \<longleftrightarrow>
     (\<forall>m. ascii (h_DeviceID m) \<longrightarrow> ascii (h_Profile m) \<longrightarrow> dec_Hello J (enc_Hello J m) = Some m) \<and>
     (\<forall>m. ascii (a_DeviceID m) \<longrightarrow> ascii (a_Profile m) \<longrightarrow> dec_HelloAck J (enc_HelloAck J m) = Some m) \<and>
     (\<forall>m. dec_KeyOffer J (enc_KeyOffer J m) = Some m) \<and>
     (\<forall>m. dec_DataMsg J (enc_DataMsg J m) = Some m \<and> dec_head J (enc_DataMsg J m) = Some (d_Type m)) \<and>
     (\<forall>m. dec_head J (enc_CloseMsg J m) = Some (c_Type m) \<and>
          (ascii (c_Reason m) \<longrightarrow> dec_CloseMsg J (enc_CloseMsg J m) = m))"

definition codec_fits :: "codec \<Rightarrow> bool" where
  "codec_fits J \<longleftrightarrow>
     (\<forall>m. 0 < length (enc_Hello J m) \<and> length (enc_Hello J m) \<le> 512 +
        6 * (length (h_DeviceID m) + length (h_Profile m)) +
        2 * (length (h_IdentityPK m) + length (h_EphPK m) + length (h_SessionNonce m))) \<and>
     (\<forall>m. 0 < length (enc_HelloAck J m) \<and> length (enc_HelloAck J m) \<le> 512 +
        6 * (length (a_DeviceID m) + length (a_Profile m)) +
        2 * (length (a_IdentityPK m) + length (a_EphPK m) + length (a_SessionNonce m))) \<and>
     (\<forall>m. 0 < length (enc_KeyOffer J m) \<and> length (enc_KeyOffer J m) \<le> 512 +
        2 * (length (k_Nonce m) + length (k_Ciphertext m))) \<and>
     (\<forall>m. 0 < length (enc_DataMsg J m) \<and> length (enc_DataMsg J m) \<le> 512 +
        2 * (length (d_Nonce m) + length (d_Ciphertext m)))"

section \<open>A concrete codec\<close>

definition field_codec :: codec where
  "field_codec = \<lparr>
     enc_Hello = (\<lambda>m. put_fields [[h_Type m], [h_Ver m], bytes_of (h_DeviceID m), num (h_EpochID m),
        h_IdentityPK m, h_EphPK m, h_SessionNonce m, num (h_KeySerial m), bytes_of (h_Profile m)]),
     dec_Hello = (\<lambda>b. case get_fields b of
        [[t], [v], d, e, i, p, n, k, f] \<Rightarrow> Some \<lparr>h_Type = t, h_Ver = v, h_DeviceID = string_of d,
          h_EpochID = un_num e, h_IdentityPK = i, h_EphPK = p, h_SessionNonce = n,
          h_KeySerial = un_num k, h_Profile = string_of f\<rparr>
      | _ \<Rightarrow> None),
     enc_HelloAck = (\<lambda>m. put_fields [[a_Type m], [a_Ver m], bytes_of (a_DeviceID m), num (a_EpochID m),
        a_IdentityPK m, a_EphPK m, a_SessionNonce m, num (a_KeySerial m), bytes_of (a_Profile m),
        (if a_Accept m then [1] else [])]),
     dec_HelloAck = (\<lambda>b. case get_fields b of
        [[t], [v], d, e, i, p, n, k, f, y] \<Rightarrow> Some \<lparr>a_Type = t, a_Ver = v, a_DeviceID = string_of d,
          a_EpochID = un_num e, a_IdentityPK = i, a_EphPK = p, a_SessionNonce = n,
          a_KeySerial = un_num k, a_Profile = string_of f, a_Accept = (y = [1])\<rparr>
      | _ \<Rightarrow> None),
     enc_KeyOffer = (\<lambda>m. put_fields [[k_Type m], num (k_EpochID m), k_Nonce m, k_Ciphertext m]),
     dec_KeyOffer = (\<lambda>b. case get_fields b of
        [[t], e, n, c] \<Rightarrow> Some \<lparr>k_Type = t, k_EpochID = un_num e, k_Nonce = n, k_Ciphertext = c\<rparr>
      | _ \<Rightarrow> None),
     enc_DataMsg = (\<lambda>m. put_fields [[d_Type m], num (d_EpochID m), num (d_Seq m), d_Nonce m,
        d_Ciphertext m]),
     dec_DataMsg = (\<lambda>b. case get_fields b of
        [[t], e, s, n, c] \<Rightarrow> Some \<lparr>d_Type = t, d_EpochID = un_num e, d_Seq = un_num s, d_Nonce = n,
          d_Ciphertext = c\<rparr>
      | _ \<Rightarrow> None),
     enc_CloseMsg = (\<lambda>m. put_fields [[c_Type m], bytes_of (c_Reason m)]),
     dec_CloseMsg = (\<lambda>b. case get_fields b of
        [[t], r] \<Rightarrow> \<lparr>c_Type = t, c_Reason = string_of r\<rparr> | _ \<Rightarrow> \<lparr>c_Type = 0, c_Reason = []\<rparr>),
     dec_head = (\<lambda>b. case get_fields b of [t] # _ \<Rightarrow> Some t | _ \<Rightarrow> None)\<rparr>"

lemma field_codec_laws: "codec_ok field_codec" "codec_fits field_codec"
  by (simp_all add: codec_ok_def codec_fits_def field_codec_def length_put_fields
        del: put_fields.simps)

end
