(* ===== verification/Session.thy ===== *)
theory Session
  imports Frame Replay Msg
begin

text \<open>
  The peer-to-peer protocol of \<^verbatim>\<open>internal/p2p/session.go\<close>: the two sides of the handshake and the
  established session. \<open>device.Now()\<close> is the argument \<open>now\<close>; the two mutex-protected halves of
  \<open>Recv\<close> run one after the other here, as in a process where one goroutine receives.
\<close>

section \<open>State\<close>

record LocalCreds =
  DeviceID_l :: string
  IdentitySK_l :: bytes
  IdentityPK_l :: bytes
  GeneralKey_l :: bytes
  KeySerial_l :: u64
  EpochID_l :: u64
  Profile_l :: string

record SessionConfig =
  Local :: LocalCreds
  PeerGeneralKey :: bytes
  PeerDeviceID_c :: string

text \<open>The connection of a session is the endpoint, passed beside it.\<close>

record Session =
  localID :: string
  peerID :: string
  epochID :: u64
  sendKey :: bytes
  recvKey :: bytes
  nextSeq :: u64
  replay :: ReplayWindow
  closed :: bool

section \<open>Handshake\<close>

definition with_rand :: "(bytes, crypto_error, 'a) go \<Rightarrow> (endpoint, p2p_error, 'a) go" where
  "with_rand m = (\<lambda>c. case m (rnd c) of
     (Inl e, r) \<Rightarrow> (Inl (CryptoError e), c\<lparr>rnd := r\<rparr>) | (Inr x, r) \<Rightarrow> (Inr x, c\<lparr>rnd := r\<rparr>))"

definition pure_crypto :: "crypto_error + 'a \<Rightarrow> ('s, p2p_error, 'a) go" where
  "pure_crypto r = glift (map_sum CryptoError id r)"

definition writeJSON :: "bytes \<Rightarrow> (endpoint, p2p_error, unit) go" where
  "writeJSON encoded = WriteFrame encoded"

definition readJSON :: "(bytes \<Rightarrow> 'm option) \<Rightarrow> (endpoint, p2p_error, 'm) go" where
  "readJSON unmarshal = gbind ReadFrame (\<lambda>b.
     case unmarshal b of None \<Rightarrow> gerr JSONError | Some v \<Rightarrow> gret v)"

definition randomNonce16 :: "(endpoint, p2p_error, bytes) go" where
  "randomNonce16 = with_rand (rand_Read 16)"

definition keyoffer_aad :: "u64 \<Rightarrow> string \<Rightarrow> bytes" where
  "keyoffer_aad epoch senderID =
     Concat [bytes_of ''COE-v1-keyoffer'', I2OSP epoch 8, bytes_of senderID]"

definition sealGeneralKey ::
    "crypto_lib \<Rightarrow> bytes \<Rightarrow> bytes \<Rightarrow> u64 \<Rightarrow> string \<Rightarrow> (endpoint, p2p_error, KeyOffer) go" where
  "sealGeneralKey L wrapKey generalKey epoch senderID =
     gbind (with_rand (rand_Read 12)) (\<lambda>nonce.
     gbind (pure_crypto (Seal L wrapKey nonce (keyoffer_aad epoch senderID) generalKey)) (\<lambda>ct.
     gret \<lparr>k_Type = TypeKeyOffer, k_EpochID = epoch, k_Nonce = nonce, k_Ciphertext = ct\<rparr>))"

definition openGeneralKey ::
    "crypto_lib \<Rightarrow> bytes \<Rightarrow> KeyOffer \<Rightarrow> u64 \<Rightarrow> string \<Rightarrow> p2p_error + bytes" where
  "openGeneralKey L wrapKey offer epoch senderID =
     (case Open L wrapKey (k_Nonce offer) (keyoffer_aad epoch senderID) (k_Ciphertext offer) of
        Inl e \<Rightarrow> Inl (CryptoError e)
      | Inr pt \<Rightarrow> if length pt \<noteq> 32 then Inl BadGeneralKeyLength else Inr pt)"

definition effective_profile :: "LocalCreds \<Rightarrow> string" where
  "effective_profile lc = (if Profile_l lc = '''' then ''strong'' else Profile_l lc)"

definition initiator_hello :: "LocalCreds \<Rightarrow> bytes \<Rightarrow> bytes \<Rightarrow> Hello" where
  "initiator_hello lc ephPK nonce =
     \<lparr>h_Type = TypeHello, h_Ver = 1, h_DeviceID = DeviceID_l lc, h_EpochID = EpochID_l lc,
      h_IdentityPK = IdentityPK_l lc, h_EphPK = ephPK, h_SessionNonce = nonce,
      h_KeySerial = KeySerial_l lc, h_Profile = effective_profile lc\<rparr>"

definition responder_ack :: "LocalCreds \<Rightarrow> bytes \<Rightarrow> bytes \<Rightarrow> HelloAck" where
  "responder_ack lc ephPK nonce =
     \<lparr>a_Type = TypeHelloAck, a_Ver = 1, a_DeviceID = DeviceID_l lc, a_EpochID = EpochID_l lc,
      a_IdentityPK = IdentityPK_l lc, a_EphPK = ephPK, a_SessionNonce = nonce,
      a_KeySerial = KeySerial_l lc, a_Profile = effective_profile lc, a_Accept = True\<rparr>"

text \<open>The key-offer exchange of the initiator: send the own key first, then read the peer's.\<close>

definition initiator_exchange ::
    "crypto_lib \<Rightarrow> codec \<Rightarrow> LocalCreds \<Rightarrow> bytes \<Rightarrow> bytes \<Rightarrow> HelloAck \<Rightarrow> u64
     \<Rightarrow> (endpoint, p2p_error, bytes) go" where
  "initiator_exchange L J lc ephSK nonce ack agreed =
     gbind (pure_crypto (DeriveWrapKey L (IdentitySK_l lc) (a_IdentityPK ack) ephSK (a_EphPK ack)
              nonce (a_SessionNonce ack) agreed (DeviceID_l lc) (a_DeviceID ack))) (\<lambda>wrap.
     gbind (sealGeneralKey L wrap (GeneralKey_l lc) agreed (DeviceID_l lc)) (\<lambda>offer.
     gbind (writeJSON (enc_KeyOffer J offer)) (\<lambda>_.
     gbind (readJSON (dec_KeyOffer J)) (\<lambda>peerOffer.
     if k_Type peerOffer \<noteq> TypeKeyOffer then gerr ExpectedKeyOffer
     else glift (map_sum PeerKeyOffer id
            (openGeneralKey L wrap peerOffer agreed (a_DeviceID ack)))))))"

definition responder_exchange ::
    "crypto_lib \<Rightarrow> codec \<Rightarrow> LocalCreds \<Rightarrow> bytes \<Rightarrow> bytes \<Rightarrow> Hello \<Rightarrow> u64
     \<Rightarrow> (endpoint, p2p_error, bytes) go" where
  "responder_exchange L J lc ephSK nonce hello agreed =
     gbind (pure_crypto (DeriveWrapKey L (IdentitySK_l lc) (h_IdentityPK hello) ephSK (h_EphPK hello)
              (h_SessionNonce hello) nonce agreed (h_DeviceID hello) (DeviceID_l lc))) (\<lambda>wrap.
     gbind (readJSON (dec_KeyOffer J)) (\<lambda>peerOffer.
     if k_Type peerOffer \<noteq> TypeKeyOffer then gerr ExpectedKeyOffer
     else gbind (glift (map_sum PeerKeyOffer id
                   (openGeneralKey L wrap peerOffer agreed (h_DeviceID hello)))) (\<lambda>peerGK.
          gbind (sealGeneralKey L wrap (GeneralKey_l lc) agreed (DeviceID_l lc)) (\<lambda>offer.
          gbind (writeJSON (enc_KeyOffer J offer)) (\<lambda>_. gret peerGK)))))"

definition initiator_params ::
    "LocalCreds \<Rightarrow> bytes \<Rightarrow> bytes \<Rightarrow> HelloAck \<Rightarrow> u64 \<Rightarrow> bytes \<Rightarrow> SessionParams" where
  "initiator_params lc ephSK nonce ack agreed peerGK =
     \<lparr>EpochID_p = agreed, DeviceIDA = DeviceID_l lc, DeviceIDB = a_DeviceID ack,
      GeneralKeyA = GeneralKey_l lc, GeneralKeyB = peerGK,
      IdentitySk = IdentitySK_l lc, IdentityPkPeer = a_IdentityPK ack,
      EphSk = ephSK, EphPkPeer = a_EphPK ack,
      NonceA = nonce, NonceB = a_SessionNonce ack, Profile_p = effective_profile lc,
      OrgDayKey = (if effective_profile lc = ''simple'' then GeneralKey_l lc else []),
      LocalDeviceID = DeviceID_l lc, PeerDeviceID = a_DeviceID ack\<rparr>"

definition responder_params ::
    "LocalCreds \<Rightarrow> bytes \<Rightarrow> bytes \<Rightarrow> Hello \<Rightarrow> u64 \<Rightarrow> bytes \<Rightarrow> SessionParams" where
  "responder_params lc ephSK nonce hello agreed peerGK =
     \<lparr>EpochID_p = agreed, DeviceIDA = h_DeviceID hello, DeviceIDB = DeviceID_l lc,
      GeneralKeyA = peerGK, GeneralKeyB = GeneralKey_l lc,
      IdentitySk = IdentitySK_l lc, IdentityPkPeer = h_IdentityPK hello,
      EphSk = ephSK, EphPkPeer = h_EphPK hello,
      NonceA = h_SessionNonce hello, NonceB = nonce, Profile_p = effective_profile lc,
      OrgDayKey = (if effective_profile lc = ''simple'' then GeneralKey_l lc else []),
      LocalDeviceID = DeviceID_l lc, PeerDeviceID = h_DeviceID hello\<rparr>"

definition new_session :: "string \<Rightarrow> string \<Rightarrow> u64 \<Rightarrow> bytes \<Rightarrow> bytes \<Rightarrow> Session" where
  "new_session lid pid epoch sk rk =
     \<lparr>localID = lid, peerID = pid, epochID = epoch, sendKey = sk, recvKey = rk, nextSeq = 0,
      replay = NewReplayWindow 128, closed = False\<rparr>"

definition handshakeInitiator ::
    "crypto_lib \<Rightarrow> codec \<Rightarrow> time \<Rightarrow> SessionConfig \<Rightarrow> (endpoint, p2p_error, Session) go" where
  "handshakeInitiator L J now cfg =
     (let lc = Local cfg; profile = effective_profile lc in
      gbind (with_rand (GenerateX25519 L)) (\<lambda>(ephSK, ephPK).
      gbind randomNonce16 (\<lambda>nonce.
      let hello = initiator_hello lc ephPK nonce in
      gbind (writeJSON (enc_Hello J hello)) (\<lambda>_.
      gbind (readJSON (dec_HelloAck J)) (\<lambda>ack.
      if a_Type ack \<noteq> TypeHelloAck \<or> \<not> a_Accept ack then gerr HandshakeRejected
      else if PeerDeviceID_c cfg \<noteq> '''' \<and> a_DeviceID ack \<noteq> PeerDeviceID_c cfg
        then gerr (UnexpectedPeer (a_DeviceID ack))
      else case AgreeEpoch (h_EpochID hello) (a_EpochID ack) now DefaultGraceSeconds of (agreed, ok) \<Rightarrow>
        if \<not> ok then gerr (EpochDisagree (h_EpochID hello) (a_EpochID ack))
        else
          gbind (if profile = ''simple'' then gret (GeneralKey_l lc)
                 else initiator_exchange L J lc ephSK nonce ack agreed) (\<lambda>peerGK.
          gbind (pure_crypto (DeriveSessionStrong L
                   (initiator_params lc ephSK nonce ack agreed peerGK))) (\<lambda>(_, sk, rk).
          gret (new_session (DeviceID_l lc) (a_DeviceID ack) agreed sk rk))))))))"

definition handshakeResponder ::
    "crypto_lib \<Rightarrow> codec \<Rightarrow> time \<Rightarrow> SessionConfig \<Rightarrow> (endpoint, p2p_error, Session) go" where
  "handshakeResponder L J now cfg =
     (let lc = Local cfg; profile = effective_profile lc in
      gbind (readJSON (dec_Hello J)) (\<lambda>hello.
      if h_Type hello \<noteq> TypeHello \<or> h_Ver hello \<noteq> 1 then gerr BadHello
      else if PeerDeviceID_c cfg \<noteq> '''' \<and> h_DeviceID hello \<noteq> PeerDeviceID_c cfg then
        (\<lambda>c. (Inl (UnexpectedPeer ''''), snd (writeJSON (enc_HelloAck J
           \<lparr>a_Type = TypeHelloAck, a_Ver = 0, a_DeviceID = DeviceID_l lc, a_EpochID = 0,
            a_IdentityPK = [], a_EphPK = [], a_SessionNonce = [], a_KeySerial = 0,
            a_Profile = '''', a_Accept = False\<rparr>) c)))
      else
      gbind (with_rand (GenerateX25519 L)) (\<lambda>(ephSK, ephPK).
      gbind randomNonce16 (\<lambda>nonce.
      let ack = responder_ack lc ephPK nonce in
      case AgreeEpoch (h_EpochID hello) (a_EpochID ack) now DefaultGraceSeconds of (agreed, ok) \<Rightarrow>
        if \<not> ok then
          (\<lambda>c. (Inl (EpochDisagree (h_EpochID hello) (a_EpochID ack)),
                snd (writeJSON (enc_HelloAck J (ack\<lparr>a_Accept := False\<rparr>)) c)))
        else
          gbind (writeJSON (enc_HelloAck J ack)) (\<lambda>_.
          gbind (if profile = ''simple'' then gret (GeneralKey_l lc)
                 else responder_exchange L J lc ephSK nonce hello agreed) (\<lambda>peerGK.
          gbind (pure_crypto (DeriveSessionStrong L
                   (responder_params lc ephSK nonce hello agreed peerGK))) (\<lambda>(_, sk, rk).
          gret (new_session (DeviceID_l lc) (h_DeviceID hello) agreed sk rk))))))))"

text \<open>\<open>Dial\<close> and \<open>DialConn\<close> close the connection when the handshake fails; \<open>Accept\<close> does not.\<close>

definition DialConn ::
    "crypto_lib \<Rightarrow> codec \<Rightarrow> time \<Rightarrow> SessionConfig \<Rightarrow> (endpoint, p2p_error, Session) go" where
  "DialConn L J now cfg = (\<lambda>c. case handshakeInitiator L J now cfg c of
     (Inl e, c') \<Rightarrow> (Inl e, conn_Close c') | (Inr s, c') \<Rightarrow> (Inr s, c'))"

text \<open>\<open>net.DialTimeout\<close> is the argument \<open>dialed\<close>: the connection it returns, or an error.\<close>

definition Dial ::
    "crypto_lib \<Rightarrow> codec \<Rightarrow> time \<Rightarrow> endpoint option \<Rightarrow> SessionConfig
     \<Rightarrow> (p2p_error + Session) \<times> endpoint option" where
  "Dial L J now dialed cfg = (case dialed of
     None \<Rightarrow> (Inl DialFailed, None)
   | Some c \<Rightarrow> (case handshakeInitiator L J now cfg c of
       (Inl e, c') \<Rightarrow> (Inl e, Some (conn_Close c')) | (Inr s, c') \<Rightarrow> (Inr s, Some c')))"

definition AcceptSession ::
    "crypto_lib \<Rightarrow> codec \<Rightarrow> time \<Rightarrow> SessionConfig \<Rightarrow> (endpoint, p2p_error, Session) go" where
  "AcceptSession L J now cfg = handshakeResponder L J now cfg"

section \<open>Established session\<close>

text \<open>
  \<open>Send\<close>, \<open>Recv\<close> and \<open>Close\<close> act on the session and on its connection. \<open>lift_conn\<close> runs a
  connection operation beside an unchanged session.
\<close>

definition lift_conn :: "(endpoint, p2p_error, 'a) go \<Rightarrow> (Session \<times> endpoint, p2p_error, 'a) go" where
  "lift_conn m = (\<lambda>(s, c). case m c of (r, c') \<Rightarrow> (r, (s, c')))"

definition Send :: "crypto_lib \<Rightarrow> codec \<Rightarrow> bytes \<Rightarrow> (Session \<times> endpoint, p2p_error, unit) go" where
  "Send L J plaintext = (\<lambda>(s, c).
     if closed s then (Inl SessionClosed, (s, c))
     else
       let seq = nextSeq s;
           s' = s\<lparr>nextSeq := nextSeq s + 1\<rparr>;
           nonce = NonceFromSeq seq;
           aad = BuildAAD 1 (epochID s) (localID s) (peerID s) seq
       in gbind (pure_crypto (Seal L (sendKey s) nonce aad plaintext)) (\<lambda>ct.
          lift_conn (writeJSON (enc_DataMsg J
            \<lparr>d_Type = TypeData, d_EpochID = epochID s, d_Seq = seq, d_Nonce = nonce,
             d_Ciphertext = ct\<rparr>))) (s', c))"

definition recv_data :: "crypto_lib \<Rightarrow> DataMsg \<Rightarrow> (Session \<times> endpoint, p2p_error, bytes) go" where
  "recv_data L msg = (\<lambda>(s, c).
     if d_EpochID msg \<noteq> epochID s then (Inl EpochMismatch, (s, c))
     else case Accept (replay s) (d_Seq msg) of
       (False, w) \<Rightarrow> (Inl (ReplayOrOld (d_Seq msg)), (s\<lparr>replay := w\<rparr>, c))
     | (True, w) \<Rightarrow>
       (let nonce = (if length (d_Nonce msg) = 0 then NonceFromSeq (d_Seq msg) else d_Nonce msg);
            aad = BuildAAD 1 (epochID s) (peerID s) (localID s) (d_Seq msg)
        in (map_sum CryptoError id (Open L (recvKey s) nonce aad (d_Ciphertext msg)),
            (s\<lparr>replay := w\<rparr>, c))))"

definition Recv :: "crypto_lib \<Rightarrow> codec \<Rightarrow> (Session \<times> endpoint, p2p_error, bytes) go" where
  "Recv L J = (\<lambda>(s, c).
     if closed s then (Inl SessionClosed, (s, c))
     else gbind (lift_conn ReadFrame) (\<lambda>b.
       case dec_head J b of
         None \<Rightarrow> gerr JSONError
       | Some typ \<Rightarrow>
         if typ = TypeClose then
           (\<lambda>(s, c). (Inl (PeerClosed (c_Reason (dec_CloseMsg J b))), (s\<lparr>closed := True\<rparr>, c)))
         else if typ \<noteq> TypeData then gerr (UnexpectedType typ)
         else (case dec_DataMsg J b of
                 None \<Rightarrow> gerr JSONError | Some msg \<Rightarrow> recv_data L msg)) (s, c))"

text \<open>
  The part of \<open>Recv\<close> after the frame is read. It takes the lock of the session again, so a \<open>Send\<close>,
  a \<open>Close\<close> or another \<open>Recv\<close> may come between it and the first part.
\<close>

definition recv_frame :: "crypto_lib \<Rightarrow> codec \<Rightarrow> bytes \<Rightarrow> (Session \<times> endpoint, p2p_error, bytes) go" where
  "recv_frame L J b =
     (case dec_head J b of
        None \<Rightarrow> gerr JSONError
      | Some typ \<Rightarrow>
        if typ = TypeClose then
          (\<lambda>(s, c). (Inl (PeerClosed (c_Reason (dec_CloseMsg J b))), (s\<lparr>closed := True\<rparr>, c)))
        else if typ \<noteq> TypeData then gerr (UnexpectedType typ)
        else (case dec_DataMsg J b of
                None \<Rightarrow> gerr JSONError | Some msg \<Rightarrow> recv_data L msg))"

definition CloseSession :: "codec \<Rightarrow> string \<Rightarrow> Session \<times> endpoint \<Rightarrow> Session \<times> endpoint" where
  "CloseSession J reason = (\<lambda>(s, c).
     if closed s then (s, c)
     else (s\<lparr>closed := True\<rparr>,
           conn_Close (snd (writeJSON (enc_CloseMsg J \<lparr>c_Type = TypeClose, c_Reason = reason\<rparr>) c))))"

text \<open>The small methods. \<open>net.Conn\<close>'s own way to set a deadline is the argument \<open>setter\<close>.\<close>

definition Session_Epoch :: "Session \<Rightarrow> u64" where
  "Session_Epoch s = epochID s"

definition Session_PeerID :: "Session \<Rightarrow> string" where
  "Session_PeerID s = peerID s"

definition Session_LocalID :: "Session \<Rightarrow> string" where
  "Session_LocalID s = localID s"

definition SetDeadline ::
    "(time \<Rightarrow> (endpoint, p2p_error, unit) go) \<Rightarrow> time \<Rightarrow> (Session \<times> endpoint, p2p_error, unit) go" where
  "SetDeadline setter t = lift_conn (setter t)"

definition SetReadDeadline ::
    "(time \<Rightarrow> (endpoint, p2p_error, unit) go) \<Rightarrow> time \<Rightarrow> (Session \<times> endpoint, p2p_error, unit) go" where
  "SetReadDeadline setter t = lift_conn (setter t)"

text \<open>Sending and receiving several messages in a row, stopping at the first error.\<close>

fun send_all :: "crypto_lib \<Rightarrow> codec \<Rightarrow> bytes list \<Rightarrow> (Session \<times> endpoint, p2p_error, unit) go" where
  "send_all L J [] = gret ()"
| "send_all L J (m # ms) = gbind (Send L J m) (\<lambda>_. send_all L J ms)"

fun recv_n :: "crypto_lib \<Rightarrow> codec \<Rightarrow> nat \<Rightarrow> (Session \<times> endpoint, p2p_error, bytes list) go" where
  "recv_n L J 0 = gret []"
| "recv_n L J (Suc n) = gbind (Recv L J) (\<lambda>m. gbind (recv_n L J n) (\<lambda>ms. gret (m # ms)))"

section \<open>Lemmas on the handshake\<close>

lemma with_rand_GenerateX25519:
  assumes "keypair L (take 32 (rnd c)) pk" and "32 \<le> length (rnd c)"
  shows "with_rand (GenerateX25519 L) c =
      (Inr (take 32 (rnd c), pk), c\<lparr>rnd := drop 32 (rnd c)\<rparr>)"
  using assms by (simp add: with_rand_def GenerateX25519_def gbind_def rand_Read_def keypair_def)

lemma with_rand_Read:
  "n \<le> length (rnd c) \<Longrightarrow>
     with_rand (rand_Read n) c = (Inr (take n (rnd c)), c\<lparr>rnd := drop n (rnd c)\<rparr>)"
  by (simp add: with_rand_def rand_Read_def)

lemma writeJSON_framable:
  "framable p \<Longrightarrow> up c \<Longrightarrow> 2 \<le> writes_left c \<Longrightarrow>
     writeJSON p c = (Inr (), c\<lparr>tx := tx c @ frame p, writes_left := writes_left c - 2\<rparr>)"
  by (simp add: writeJSON_def WriteFrame_framable)

lemma readJSON_frame:
  assumes "framable p" and "up c" and "rx c = frame p @ rest" and "dec p = Some m"
  shows "readJSON dec c = (Inr m, c\<lparr>rx := rest\<rparr>)"
  using frames.get_image [OF assms(1-3)] assms(4) by (simp add: readJSON_def gbind_def)

text \<open>The offer that \<open>sealGeneralKey\<close> builds from a nonce.\<close>

definition key_offer :: "crypto_lib \<Rightarrow> bytes \<Rightarrow> bytes \<Rightarrow> bytes \<Rightarrow> u64 \<Rightarrow> string \<Rightarrow> KeyOffer" where
  "key_offer L wrapKey nonce generalKey epoch senderID =
     \<lparr>k_Type = TypeKeyOffer, k_EpochID = epoch, k_Nonce = nonce,
      k_Ciphertext = chacha_Seal L wrapKey nonce generalKey (keyoffer_aad epoch senderID)\<rparr>"

lemma sealGeneralKey_ok:
  assumes "12 \<le> length (rnd c)" and "length wrapKey = 32"
  shows "sealGeneralKey L wrapKey gk epoch sender c =
      (Inr (key_offer L wrapKey (take 12 (rnd c)) gk epoch sender), c\<lparr>rnd := drop 12 (rnd c)\<rparr>)"
  using assms
  by (simp add: sealGeneralKey_def gbind_def with_rand_Read pure_crypto_def Seal_def key_offer_def)

lemma openGeneralKey_offer:
  assumes "aead_correct L" "length wrapKey = 32" "length nonce = 12" "length gk = 32"
  shows "openGeneralKey L wrapKey (key_offer L wrapKey nonce gk epoch sender) epoch sender = Inr gk"
  using assms by (simp add: openGeneralKey_def Open_def key_offer_def aead_correct_def)

lemma h_EpochID_hello [simp]: "h_EpochID (initiator_hello lc pk nonce) = EpochID_l lc"
  by (simp add: initiator_hello_def)

lemma responder_ack_sel [simp]:
  "a_EpochID (responder_ack lc pk nonce) = EpochID_l lc"
  "a_DeviceID (responder_ack lc pk nonce) = DeviceID_l lc"
  "a_Type (responder_ack lc pk nonce) = TypeHelloAck" "a_Accept (responder_ack lc pk nonce)"
  by (simp_all add: responder_ack_def)

text \<open>
  The handshake of each side, step by step, when the peer's two messages arrive and fit. An open
  endpoint is written with its four changing parts.
\<close>

abbreviation open_end :: "bytes \<Rightarrow> bytes \<Rightarrow> nat \<Rightarrow> bytes \<Rightarrow> endpoint" where
  "open_end r t n q \<equiv> \<lparr>rx = r, tx = t, writes_left = n, up = True, rnd = q\<rparr>"

lemma handshakeInitiator_run:
  fixes L J cfg ack q
  defines "lc \<equiv> Local cfg" and "eSK \<equiv> take 32 q"
    and "nonce \<equiv> take 16 (drop 32 q)" and "kn \<equiv> take 12 (drop 48 q)"
  assumes conn: "4 \<le> n" "60 \<le> length q"
    and kp: "keypair L eSK ePK"
    and prof: "effective_profile lc \<noteq> ''simple''"
    and ack: "a_Type ack = TypeHelloAck" "a_Accept ack"
      "PeerDeviceID_c cfg = '''' \<or> a_DeviceID ack = PeerDeviceID_c cfg"
      "dec_HelloAck J (enc_HelloAck J ack) = Some ack"
    and agree: "AgreeEpoch (EpochID_l lc) (a_EpochID ack) now DefaultGraceSeconds = (agreed, True)"
    and wrap: "DeriveWrapKey L (IdentitySK_l lc) (a_IdentityPK ack) eSK (a_EphPK ack)
         nonce (a_SessionNonce ack) agreed (DeviceID_l lc) (a_DeviceID ack) = Inr wrap"
      "length wrap = 32"
    and offer: "k_Type offer = TypeKeyOffer" "dec_KeyOffer J (enc_KeyOffer J offer) = Some offer"
      "openGeneralKey L wrap offer agreed (a_DeviceID ack) = Inr peerGK"
    and fits: "framable (enc_Hello J (initiator_hello lc ePK nonce))"
      "framable (enc_KeyOffer J (key_offer L wrap kn (GeneralKey_l lc) agreed (DeviceID_l lc)))"
      "framable (enc_HelloAck J ack)" "framable (enc_KeyOffer J offer)"
    and keys: "DeriveSessionStrong L (initiator_params lc eSK nonce ack agreed peerGK) =
      Inr (root, sk, rk)"
  shows "handshakeInitiator L J now cfg
        (open_end (frame (enc_HelloAck J ack) @ frame (enc_KeyOffer J offer) @ r) t n q) =
      (Inr (new_session (DeviceID_l lc) (a_DeviceID ack) agreed sk rk),
       open_end r (t @ frame (enc_Hello J (initiator_hello lc ePK nonce)) @
           frame (enc_KeyOffer J (key_offer L wrap kn (GeneralKey_l lc) agreed (DeviceID_l lc))))
         (n - 4) (drop 60 q))"
proof -
  let ?h = "enc_Hello J (initiator_hello lc ePK nonce)"
  let ?o = "enc_KeyOffer J (key_offer L wrap kn (GeneralKey_l lc) agreed (DeviceID_l lc))"
  let ?r2 = "frame (enc_KeyOffer J offer) @ r" let ?r = "frame (enc_HelloAck J ack) @ ?r2"
  have 1: "with_rand (GenerateX25519 L) (open_end ?r t n q) =
      (Inr (eSK, ePK), open_end ?r t n (drop 32 q))"
    using kp conn by (subst with_rand_GenerateX25519) (auto simp: eSK_def)
  have 2: "randomNonce16 (open_end ?r t n (drop 32 q)) = (Inr nonce, open_end ?r t n (drop 48 q))"
    using conn by (simp add: randomNonce16_def with_rand_Read nonce_def)
  have 3: "writeJSON ?h (open_end ?r t n (drop 48 q)) =
      (Inr (), open_end ?r (t @ frame ?h) (n - 2) (drop 48 q))"
    using conn fits by (simp add: writeJSON_framable)
  have 4: "readJSON (dec_HelloAck J) (open_end ?r (t @ frame ?h) (n - 2) (drop 48 q)) =
      (Inr ack, open_end ?r2 (t @ frame ?h) (n - 2) (drop 48 q))"
    using ack fits by (subst readJSON_frame) auto
  have 5: "sealGeneralKey L wrap (GeneralKey_l lc) agreed (DeviceID_l lc)
        (open_end ?r2 (t @ frame ?h) (n - 2) (drop 48 q)) =
      (Inr (key_offer L wrap kn (GeneralKey_l lc) agreed (DeviceID_l lc)),
       open_end ?r2 (t @ frame ?h) (n - 2) (drop 60 q))"
    using conn wrap by (simp add: sealGeneralKey_ok kn_def)
  have 6: "writeJSON ?o (open_end ?r2 (t @ frame ?h) (n - 2) (drop 60 q)) =
      (Inr (), open_end ?r2 (t @ frame ?h @ frame ?o) (n - 4) (drop 60 q))"
    using conn fits by (simp add: writeJSON_framable)
  have 7: "readJSON (dec_KeyOffer J) (open_end ?r2 (t @ frame ?h @ frame ?o) (n - 4) (drop 60 q)) =
      (Inr offer, open_end r (t @ frame ?h @ frame ?o) (n - 4) (drop 60 q))"
    using offer fits by (subst readJSON_frame) auto
  have x: "initiator_exchange L J lc eSK nonce ack agreed
        (open_end ?r2 (t @ frame ?h) (n - 2) (drop 48 q)) =
      (Inr peerGK, open_end r (t @ frame ?h @ frame ?o) (n - 4) (drop 60 q))"
    unfolding initiator_exchange_def pure_crypto_def
    using wrap offer by (simp add: gbind_def 5 6 7)
  show ?thesis
    unfolding handshakeInitiator_def Let_def lc_def [symmetric] pure_crypto_def
    using prof ack agree keys
    by (simp add: gbind_def 1 2 3 4 x)
qed

lemma handshakeResponder_run:
  fixes L J cfg hello q
  defines "lc \<equiv> Local cfg" and "eSK \<equiv> take 32 q"
    and "nonce \<equiv> take 16 (drop 32 q)" and "kn \<equiv> take 12 (drop 48 q)"
  assumes conn: "4 \<le> n" "60 \<le> length q"
    and kp: "keypair L eSK ePK"
    and prof: "effective_profile lc \<noteq> ''simple''"
    and hello: "h_Type hello = TypeHello" "h_Ver hello = 1"
      "PeerDeviceID_c cfg = '''' \<or> h_DeviceID hello = PeerDeviceID_c cfg"
      "dec_Hello J (enc_Hello J hello) = Some hello"
    and agree: "AgreeEpoch (h_EpochID hello) (EpochID_l lc) now DefaultGraceSeconds = (agreed, True)"
    and wrap: "DeriveWrapKey L (IdentitySK_l lc) (h_IdentityPK hello) eSK (h_EphPK hello)
         (h_SessionNonce hello) nonce agreed (h_DeviceID hello) (DeviceID_l lc) = Inr wrap"
      "length wrap = 32"
    and offer: "k_Type offer = TypeKeyOffer" "dec_KeyOffer J (enc_KeyOffer J offer) = Some offer"
      "openGeneralKey L wrap offer agreed (h_DeviceID hello) = Inr peerGK"
    and fits: "framable (enc_HelloAck J (responder_ack lc ePK nonce))"
      "framable (enc_KeyOffer J (key_offer L wrap kn (GeneralKey_l lc) agreed (DeviceID_l lc)))"
      "framable (enc_Hello J hello)" "framable (enc_KeyOffer J offer)"
    and keys: "DeriveSessionStrong L (responder_params lc eSK nonce hello agreed peerGK) =
      Inr (root, sk, rk)"
  shows "handshakeResponder L J now cfg
        (open_end (frame (enc_Hello J hello) @ frame (enc_KeyOffer J offer) @ r) t n q) =
      (Inr (new_session (DeviceID_l lc) (h_DeviceID hello) agreed sk rk),
       open_end r (t @ frame (enc_HelloAck J (responder_ack lc ePK nonce)) @
           frame (enc_KeyOffer J (key_offer L wrap kn (GeneralKey_l lc) agreed (DeviceID_l lc))))
         (n - 4) (drop 60 q))"
proof -
  let ?a = "enc_HelloAck J (responder_ack lc ePK nonce)"
  let ?o = "enc_KeyOffer J (key_offer L wrap kn (GeneralKey_l lc) agreed (DeviceID_l lc))"
  let ?r2 = "frame (enc_KeyOffer J offer) @ r"
  have 1: "readJSON (dec_Hello J) (open_end (frame (enc_Hello J hello) @ ?r2) t n q) =
      (Inr hello, open_end ?r2 t n q)"
    using hello fits by (subst readJSON_frame) auto
  have 2: "with_rand (GenerateX25519 L) (open_end ?r2 t n q) =
      (Inr (eSK, ePK), open_end ?r2 t n (drop 32 q))"
    using kp conn by (subst with_rand_GenerateX25519) (auto simp: eSK_def)
  have 3: "randomNonce16 (open_end ?r2 t n (drop 32 q)) = (Inr nonce, open_end ?r2 t n (drop 48 q))"
    using conn by (simp add: randomNonce16_def with_rand_Read nonce_def)
  have 4: "writeJSON ?a (open_end ?r2 t n (drop 48 q)) =
      (Inr (), open_end ?r2 (t @ frame ?a) (n - 2) (drop 48 q))"
    using conn fits by (simp add: writeJSON_framable)
  have 5: "readJSON (dec_KeyOffer J) (open_end ?r2 (t @ frame ?a) (n - 2) (drop 48 q)) =
      (Inr offer, open_end r (t @ frame ?a) (n - 2) (drop 48 q))"
    using offer fits by (subst readJSON_frame) auto
  have 6: "sealGeneralKey L wrap (GeneralKey_l lc) agreed (DeviceID_l lc)
        (open_end r (t @ frame ?a) (n - 2) (drop 48 q)) =
      (Inr (key_offer L wrap kn (GeneralKey_l lc) agreed (DeviceID_l lc)),
       open_end r (t @ frame ?a) (n - 2) (drop 60 q))"
    using conn wrap by (simp add: sealGeneralKey_ok kn_def)
  have 7: "writeJSON ?o (open_end r (t @ frame ?a) (n - 2) (drop 60 q)) =
      (Inr (), open_end r (t @ frame ?a @ frame ?o) (n - 4) (drop 60 q))"
    using conn fits by (simp add: writeJSON_framable)
  have x: "responder_exchange L J lc eSK nonce hello agreed
        (open_end ?r2 (t @ frame ?a) (n - 2) (drop 48 q)) =
      (Inr peerGK, open_end r (t @ frame ?a @ frame ?o) (n - 4) (drop 60 q))"
    unfolding responder_exchange_def pure_crypto_def
    using wrap offer by (simp add: gbind_def 5 6 7)
  show ?thesis
    unfolding handshakeResponder_def Let_def lc_def [symmetric] pure_crypto_def
    using prof hello agree keys
    by (simp add: gbind_def 1 2 3 4 x)
qed

section \<open>The two sides of the handshake together\<close>

text \<open>Credentials a device has after enrollment: a key pair, a general key, short ASCII names.\<close>

definition creds_ok :: "crypto_lib \<Rightarrow> LocalCreds \<Rightarrow> bool" where
  "creds_ok L lc \<longleftrightarrow> keypair L (IdentitySK_l lc) (IdentityPK_l lc) \<and> length (GeneralKey_l lc) = 32 \<and>
     ascii (DeviceID_l lc) \<and> length (DeviceID_l lc) \<le> 4096 \<and>
     ascii (Profile_l lc) \<and> length (Profile_l lc) \<le> 4096"

lemma ascii_effective_profile:
  "creds_ok L lc \<Longrightarrow> ascii (effective_profile lc) \<and> length (effective_profile lc) \<le> 4096"
  by (auto simp: creds_ok_def effective_profile_def ascii_def)

lemma keypair_length: "keypair L sk pk \<Longrightarrow> length sk = 32 \<and> length pk = 32"
  by (simp add: keypair_def)

lemma hello_codec:
  assumes "codec_ok J" "codec_fits J" "creds_ok L lc" "length pk = 32" "length nonce = 16"
  shows "dec_Hello J (enc_Hello J (initiator_hello lc pk nonce)) = Some (initiator_hello lc pk nonce)"
    and "framable (enc_Hello J (initiator_hello lc pk nonce))"
proof -
  note c = assms(3) [unfolded creds_ok_def] and p = ascii_effective_profile [OF assms(3)]
  show "dec_Hello J (enc_Hello J (initiator_hello lc pk nonce)) = Some (initiator_hello lc pk nonce)"
    using assms(1) c p by (simp add: codec_ok_def initiator_hello_def)
  have "length (enc_Hello J (initiator_hello lc pk nonce)) \<le> 512 +
      6 * (length (DeviceID_l lc) + length (effective_profile lc)) + 2 * (32 + 32 + 16)"
    "0 < length (enc_Hello J (initiator_hello lc pk nonce))"
    using assms(2) [unfolded codec_fits_def, THEN conjunct1, rule_format, of "initiator_hello lc pk nonce"]
      c assms(4,5) by (auto simp: initiator_hello_def dest: keypair_length)
  then show "framable (enc_Hello J (initiator_hello lc pk nonce))"
    using c p by (auto simp: framable_def MaxPayload_def)
qed

lemma ack_codec:
  assumes "codec_ok J" "codec_fits J" "creds_ok L lc" "length pk = 32" "length nonce = 16"
  shows "dec_HelloAck J (enc_HelloAck J (responder_ack lc pk nonce)) = Some (responder_ack lc pk nonce)"
    and "framable (enc_HelloAck J (responder_ack lc pk nonce))"
proof -
  note c = assms(3) [unfolded creds_ok_def] and p = ascii_effective_profile [OF assms(3)]
  show "dec_HelloAck J (enc_HelloAck J (responder_ack lc pk nonce)) = Some (responder_ack lc pk nonce)"
    using assms(1) c p by (simp add: codec_ok_def responder_ack_def)
  have "length (enc_HelloAck J (responder_ack lc pk nonce)) \<le> 512 +
      6 * (length (DeviceID_l lc) + length (effective_profile lc)) + 2 * (32 + 32 + 16)"
    "0 < length (enc_HelloAck J (responder_ack lc pk nonce))"
    using assms(2) [unfolded codec_fits_def, THEN conjunct2, THEN conjunct1, rule_format,
        of "responder_ack lc pk nonce"]
      c assms(4,5) by (auto simp: responder_ack_def dest: keypair_length)
  then show "framable (enc_HelloAck J (responder_ack lc pk nonce))"
    using c p by (auto simp: framable_def MaxPayload_def)
qed

lemma offer_codec:
  assumes "codec_ok J" "codec_fits J" "aead_overhead L" "length wrap = 32" "length nonce = 12"
    "length gk = 32"
  shows "dec_KeyOffer J (enc_KeyOffer J (key_offer L wrap nonce gk e d)) =
      Some (key_offer L wrap nonce gk e d)"
    and "framable (enc_KeyOffer J (key_offer L wrap nonce gk e d))"
proof -
  show "dec_KeyOffer J (enc_KeyOffer J (key_offer L wrap nonce gk e d)) =
      Some (key_offer L wrap nonce gk e d)"
    using assms(1) by (simp add: codec_ok_def)
  have "length (enc_KeyOffer J (key_offer L wrap nonce gk e d)) \<le> 512 + 2 * (12 + 48)"
    "0 < length (enc_KeyOffer J (key_offer L wrap nonce gk e d))"
    using assms(2) [unfolded codec_fits_def, THEN conjunct2, THEN conjunct2, THEN conjunct1, rule_format,
        of "key_offer L wrap nonce gk e d"] assms(3-6)
    by (auto simp: key_offer_def aead_overhead_def)
  then show "framable (enc_KeyOffer J (key_offer L wrap nonce gk e d))"
    by (simp add: framable_def MaxPayload_def)
qed

lemma offer_ready:
  assumes "codec_ok J" "codec_fits J" "aead_overhead L" "aead_correct L" "creds_ok L lc" "length wrap = 32" "length nonce = 12"
  shows "dec_KeyOffer J (enc_KeyOffer J (key_offer L wrap nonce (GeneralKey_l lc) e d)) =
      Some (key_offer L wrap nonce (GeneralKey_l lc) e d)"
    and "framable (enc_KeyOffer J (key_offer L wrap nonce (GeneralKey_l lc) e d))"
    and "openGeneralKey L wrap (key_offer L wrap nonce (GeneralKey_l lc) e d) e d = Inr (GeneralKey_l lc)"
  using assms offer_codec [OF assms(1-3,6,7)] openGeneralKey_offer [OF assms(4,6,7)] by (simp_all add: creds_ok_def)

text \<open>Both sides feed the key schedule with the two ends of the same parameters.\<close>

lemma params_as:
  assumes "effective_profile la = effective_profile lb" "effective_profile la \<noteq> ''simple''"
  shows "initiator_params la eA nA (responder_ack lb epB nB) e (GeneralKey_l lb) =
      as_A (IdentitySK_l la) (IdentityPK_l lb) eA epB
        (initiator_params la eA nA (responder_ack lb epB nB) e (GeneralKey_l lb))"
    and "responder_params lb eB nB (initiator_hello la epA nA) e (GeneralKey_l la) =
      as_B (IdentitySK_l lb) (IdentityPK_l la) eB epA
        (initiator_params la eA nA (responder_ack lb epB nB) e (GeneralKey_l lb))"
  using assms
  by (simp_all add: as_A_def as_B_def initiator_params_def responder_params_def responder_ack_def
      initiator_hello_def)

lemma session_keys_agree:
  fixes L la lb eA nA epB nB e
  defines "p \<equiv> initiator_params la eA nA (responder_ack lb epB nB) e (GeneralKey_l lb)"
  assumes "dh_agrees L" "hkdf_total L" "creds_ok L la" "creds_ok L lb"
    "keypair L eA epA" "keypair L eB epB"
    and prof: "effective_profile la = effective_profile lb" "effective_profile la \<noteq> ''simple''"
  obtains r kA kB where "DeriveSessionStrong L p = Inr (r, kA, kB)"
    and "DeriveSessionStrong L (responder_params lb eB nB (initiator_hello la epA nA) e (GeneralKey_l la)) =
      Inr (r, kB, kA)"
    and "length kA = 32" and "length kB = 32"
proof -
  note kA = assms(4) [unfolded creds_ok_def] and kB = assms(5) [unfolded creds_ok_def]
  obtain ss where ss: "X25519 L (IdentitySK_l la) (IdentityPK_l lb) = Inr ss"
    using X25519_agrees [OF assms(2), of "IdentitySK_l la" _ "IdentitySK_l lb"] kA kB by metis
  obtain es where es: "eph_secret L eA epB = Inr (Some es)"
    by (rule eph_secret_agrees [OF assms(2,6,7)])
  have np: "effective_profile la \<noteq> ''''" by (simp add: effective_profile_def)
  have dp: "default_profile p = p"
    using np by (simp add: default_profile_def p_def initiator_params_def)
  have "\<exists>ikm. session_ikm L p = Inr ikm"
    using ss es prof kA kB
    by (auto simp: session_ikm_def p_def initiator_params_def responder_ack_def dest: keypair_length)
  then obtain ikm where ikm: "session_ikm L (default_profile p) = Inr ikm" unfolding dp ..
  obtain r s v where d: "DeriveSessionStrong L p = Inr (r, s, v)" "length s = 32" "length v = 32"
    by (rule DeriveSessionStrong_total [OF assms(3) ikm]) (simp_all add: p_def initiator_params_def)
  have "DeriveSessionStrong L (responder_params lb eB nB (initiator_hello la epA nA) e (GeneralKey_l la)) =
      map_sum id (\<lambda>(r, s, v). (r, v, s)) (DeriveSessionStrong L p)"
    using DeriveSessionStrong_mirror [OF assms(2) _ _ assms(6,7), of "IdentitySK_l la" "IdentityPK_l la"
        "IdentitySK_l lb" "IdentityPK_l lb" p] kA kB params_as [OF prof, of eA nA epB nB e]
      params_as(2) [OF prof, of eB nB epA nA e eA epB]
    by (simp add: p_def)
  with d that show ?thesis by simp
qed

text \<open>
  The whole exchange of two well-equipped parties: what is on the wire in each direction, the wrap
  key both derive, and the two general keys that open under it.
\<close>

lemma handshake_transcript:
  assumes lib: "x25519_total L" "dh_agrees L" "aead_correct L" "aead_overhead L" "hkdf_total L"
    and codec: "codec_ok J" "codec_fits J"
    and creds: "creds_ok L (Local cfgA)" "creds_ok L (Local cfgB)"
    and profile: "effective_profile (Local cfgA) = effective_profile (Local cfgB)"
      "effective_profile (Local cfgA) \<noteq> ''simple''"
    and pins: "PeerDeviceID_c cfgA \<in> {'''', DeviceID_l (Local cfgB)}"
      "PeerDeviceID_c cfgB \<in> {'''', DeviceID_l (Local cfgA)}"
    and epochs: "AgreeEpoch (EpochID_l (Local cfgA)) (EpochID_l (Local cfgB)) nowA DefaultGraceSeconds = (e, True)"
      "AgreeEpoch (EpochID_l (Local cfgA)) (EpochID_l (Local cfgB)) nowB DefaultGraceSeconds = (e, True)"
    and conn: "4 \<le> nA" "60 \<le> length qA" "4 \<le> nB" "60 \<le> length qB"
  obtains streamA streamB kA kB wrap epA epB offA offB where
      "handshakeInitiator L J nowA cfgA (open_end streamB [] nA qA) =
        (Inr (new_session (DeviceID_l (Local cfgA)) (DeviceID_l (Local cfgB)) e kA kB),
         open_end [] streamA (nA - 4) (drop 60 qA))"
      "handshakeResponder L J nowB cfgB (open_end streamA [] nB qB) =
        (Inr (new_session (DeviceID_l (Local cfgB)) (DeviceID_l (Local cfgA)) e kB kA),
         open_end [] streamB (nB - 4) (drop 60 qB))"
      "length kA = 32" "length kB = 32"
      "streamA = frame (enc_Hello J (initiator_hello (Local cfgA) epA (take 16 (drop 32 qA)))) @
         frame (enc_KeyOffer J offA)"
      "streamB = frame (enc_HelloAck J (responder_ack (Local cfgB) epB (take 16 (drop 32 qB)))) @
         frame (enc_KeyOffer J offB)"
      "DeriveWrapKey L (IdentitySK_l (Local cfgA)) (IdentityPK_l (Local cfgB)) (take 32 qA) epB
         (take 16 (drop 32 qA)) (take 16 (drop 32 qB)) e (DeviceID_l (Local cfgA)) (DeviceID_l (Local cfgB)) = Inr wrap"
      "DeriveWrapKey L (IdentitySK_l (Local cfgB)) (IdentityPK_l (Local cfgA)) (take 32 qB) epA
         (take 16 (drop 32 qA)) (take 16 (drop 32 qB)) e (DeviceID_l (Local cfgA)) (DeviceID_l (Local cfgB)) = Inr wrap"
      "openGeneralKey L wrap offA e (DeviceID_l (Local cfgA)) = Inr (GeneralKey_l (Local cfgA))"
      "openGeneralKey L wrap offB e (DeviceID_l (Local cfgB)) = Inr (GeneralKey_l (Local cfgB))"
proof -
  let ?la = "Local cfgA" and ?lb = "Local cfgB"
  let ?eA = "take 32 qA" and ?rA = "take 16 (drop 32 qA)" and ?oA = "take 12 (drop 48 qA)"
  let ?eB = "take 32 qB" and ?rB = "take 16 (drop 32 qB)" and ?oB = "take 12 (drop 48 qB)"
  have len: "length ?eA = 32" "length ?eB = 32" "length ?rA = 16" "length ?rB = 16"
    "length ?oA = 12" "length ?oB = 12"
    using conn by simp_all
  obtain epA epB where eph: "keypair L ?eA epA" "keypair L ?eB epB"
    using lib(1) len by (metis x25519_total_def)
  then have epl: "length epA = 32" "length epB = 32" by (simp_all add: keypair_length)
  note credA = creds(1) [unfolded creds_ok_def] and credB = creds(2) [unfolded creds_ok_def]
  obtain wrap where wrap: "length wrap = 32"
    "DeriveWrapKey L (IdentitySK_l ?la) (IdentityPK_l ?lb) ?eA epB ?rA ?rB e (DeviceID_l ?la) (DeviceID_l ?lb) = Inr wrap"
    "DeriveWrapKey L (IdentitySK_l ?lb) (IdentityPK_l ?la) ?eB epA ?rA ?rB e (DeviceID_l ?la) (DeviceID_l ?lb) = Inr wrap"
    by (rule DeriveWrapKey_agrees [OF lib(2,5) credA [THEN conjunct1] credB [THEN conjunct1] eph])
  obtain r kA kB where keys:
    "DeriveSessionStrong L (initiator_params ?la ?eA ?rA (responder_ack ?lb epB ?rB) e (GeneralKey_l ?lb)) = Inr (r, kA, kB)"
    "DeriveSessionStrong L (responder_params ?lb ?eB ?rB (initiator_hello ?la epA ?rA) e (GeneralKey_l ?la)) = Inr (r, kB, kA)"
    "length kA = 32" "length kB = 32"
    by (rule session_keys_agree [OF lib(2,5) creds eph profile])
  let ?offA = "key_offer L wrap ?oA (GeneralKey_l ?la) e (DeviceID_l ?la)"
  let ?offB = "key_offer L wrap ?oB (GeneralKey_l ?lb) e (DeviceID_l ?lb)"
  let ?hello = "initiator_hello ?la epA ?rA" and ?ack = "responder_ack ?lb epB ?rB"
  note hello = hello_codec [OF codec creds(1) epl(1) len(3)] and ack = ack_codec [OF codec creds(2) epl(2) len(4)]
  note off = offer_ready [OF codec lib(4,3) creds(1) wrap(1) len(5)] offer_ready [OF codec lib(4,3) creds(2) wrap(1) len(6)]
  have A: "handshakeInitiator L J nowA cfgA
        (open_end (frame (enc_HelloAck J ?ack) @ frame (enc_KeyOffer J ?offB) @ []) [] nA qA) =
      (Inr (new_session (DeviceID_l ?la) (a_DeviceID ?ack) e kA kB),
       open_end [] ([] @ frame (enc_Hello J ?hello) @ frame (enc_KeyOffer J ?offA)) (nA - 4) (drop 60 qA))"
    by (rule handshakeInitiator_run [OF conn(1,2) eph(1) profile(2)])
      (use pins epochs wrap hello ack off keys in \<open>auto simp: responder_ack_def key_offer_def\<close>)
  have B: "handshakeResponder L J nowB cfgB
        (open_end (frame (enc_Hello J ?hello) @ frame (enc_KeyOffer J ?offA) @ []) [] nB qB) =
      (Inr (new_session (DeviceID_l ?lb) (h_DeviceID ?hello) e kB kA),
       open_end [] ([] @ frame (enc_HelloAck J ?ack) @ frame (enc_KeyOffer J ?offB)) (nB - 4) (drop 60 qB))"
    by (rule handshakeResponder_run [OF conn(3,4) eph(2)])
      (use profile pins epochs wrap hello ack off keys in \<open>auto simp: initiator_hello_def key_offer_def\<close>)
  have "h_DeviceID ?hello = DeviceID_l ?la" by (simp add: initiator_hello_def)
  then show ?thesis
    using that [OF A [unfolded append_Nil append_Nil2 responder_ack_sel] _ keys(3,4) refl refl wrap(2,3) off(3,6)]
      B [unfolded append_Nil append_Nil2] by simp
qed

lemma handshake_completes:
  assumes lib: "x25519_total L" "dh_agrees L" "aead_correct L" "aead_overhead L" "hkdf_total L"
    and codec: "codec_ok J" "codec_fits J"
    and creds: "creds_ok L (Local cfgA)" "creds_ok L (Local cfgB)"
    and profile: "effective_profile (Local cfgA) = effective_profile (Local cfgB)"
      "effective_profile (Local cfgA) \<noteq> ''simple''"
    and pins: "PeerDeviceID_c cfgA \<in> {'''', DeviceID_l (Local cfgB)}"
      "PeerDeviceID_c cfgB \<in> {'''', DeviceID_l (Local cfgA)}"
    and epochs: "AgreeEpoch (EpochID_l (Local cfgA)) (EpochID_l (Local cfgB)) nowA DefaultGraceSeconds = (e, True)"
      "AgreeEpoch (EpochID_l (Local cfgA)) (EpochID_l (Local cfgB)) nowB DefaultGraceSeconds = (e, True)"
    and conn: "4 \<le> nA" "60 \<le> length qA" "4 \<le> nB" "60 \<le> length qB"
  obtains streamA streamB kA kB where
      "handshakeInitiator L J nowA cfgA (open_end streamB [] nA qA) =
        (Inr (new_session (DeviceID_l (Local cfgA)) (DeviceID_l (Local cfgB)) e kA kB),
         open_end [] streamA (nA - 4) (drop 60 qA))"
      "handshakeResponder L J nowB cfgB (open_end streamA [] nB qB) =
        (Inr (new_session (DeviceID_l (Local cfgB)) (DeviceID_l (Local cfgA)) e kB kA),
         open_end [] streamB (nB - 4) (drop 60 qB))"
      "length kA = 32" "length kB = 32"
  by (rule handshake_transcript [OF assms]) (rule that)

section \<open>Properties of the handshake\<close>


definition alice :: SessionConfig where
  "alice = \<lparr>Local = \<lparr>DeviceID_l = ''alice'', IdentitySK_l = replicate 32 7,
      IdentityPK_l = xor_bytes (replicate 32 7) (9 # replicate 31 0), GeneralKey_l = replicate 32 1,
      KeySerial_l = 1, EpochID_l = 100, Profile_l = ''''\<rparr>,
     PeerGeneralKey = [], PeerDeviceID_c = ''bob''\<rparr>"

definition bob :: SessionConfig where
  "bob = \<lparr>Local = \<lparr>DeviceID_l = ''bob'', IdentitySK_l = replicate 32 5,
      IdentityPK_l = xor_bytes (replicate 32 5) (9 # replicate 31 0), GeneralKey_l = replicate 32 2,
      KeySerial_l = 2, EpochID_l = 100, Profile_l = ''strong''\<rparr>,
     PeerGeneralKey = [], PeerDeviceID_c = ''''\<rparr>"

lemma alice_bob_creds: "creds_ok xor_lib (Local alice)" "creds_ok xor_lib (Local bob)"
  by (simp_all add: creds_ok_def keypair_xor_lib alice_def bob_def ascii_def)


section \<open>Lemmas on the established session\<close>

definition data_msg :: "crypto_lib \<Rightarrow> Session \<Rightarrow> bytes \<Rightarrow> DataMsg" where
  "data_msg L s m = \<lparr>d_Type = TypeData, d_EpochID = epochID s, d_Seq = nextSeq s,
     d_Nonce = NonceFromSeq (nextSeq s),
     d_Ciphertext = chacha_Seal L (sendKey s) (NonceFromSeq (nextSeq s)) m
       (BuildAAD 1 (epochID s) (localID s) (peerID s) (nextSeq s))\<rparr>"

lemma Send_framed:
  assumes "\<not> closed s" "length (sendKey s) = 32"
  shows "Send L J m (s, c) =
      lift_conn (writeJSON (enc_DataMsg J (data_msg L s m))) (s\<lparr>nextSeq := nextSeq s + 1\<rparr>, c)"
  using assms by (simp add: Send_def Let_def gbind_def pure_crypto_def Seal_def data_msg_def)

lemma data_codec:
  assumes "codec_ok J" "codec_fits J" "aead_overhead L" "length (sendKey s) = 32" "length m \<le> 32000"
  shows "framable (enc_DataMsg J (data_msg L s m))"
proof -
  have "0 < length (enc_DataMsg J (data_msg L s m))"
    "length (enc_DataMsg J (data_msg L s m)) \<le> 512 + 2 * (12 + (length m + 16))"
    using assms(2) [unfolded codec_fits_def, THEN conjunct2, THEN conjunct2, THEN conjunct2, rule_format,
        of "data_msg L s m"] assms(3,4)
    by (auto simp: data_msg_def aead_overhead_def)
  with assms(5) show ?thesis by (simp add: framable_def MaxPayload_def)
qed

lemma Recv_frame:
  assumes "\<not> closed s" "up c" "framable b" "rx c = frame b @ rest"
    "dec_head J b = Some TypeData" "dec_DataMsg J b = Some msg"
  shows "Recv L J (s, c) = recv_data L msg (s, c\<lparr>rx := rest\<rparr>)"
  using assms(1,5,6) frames.get_image [OF assms(3,2,4)]
  by (simp add: Recv_def gbind_def lift_conn_def TypeClose_def TypeData_def)

lemma recv_data_msg:
  assumes "aead_correct L" "length (sendKey a) = 32" "recvKey b = sendKey a" "epochID b = epochID a"
    "peerID b = localID a" "localID b = peerID a" "Accept (replay b) (nextSeq a) = (True, w)"
  shows "recv_data L (data_msg L a m) (b, c) = (Inr m, (b\<lparr>replay := w\<rparr>, c))"
  using assms by (simp add: recv_data_def data_msg_def Open_def aead_correct_def)

lemma Recv_split:
  "Recv L J = (\<lambda>(s, c). if closed s then (Inl SessionClosed, (s, c))
     else gbind (lift_conn ReadFrame) (recv_frame L J) (s, c))"
  unfolding Recv_def recv_frame_def [abs_def] by (rule refl)

lemma deadlines_keep_session:
  "fst (snd (SetDeadline setter t (s, c))) = s" "fst (snd (SetReadDeadline setter t (s, c))) = s"
  by (simp_all add: SetDeadline_def SetReadDeadline_def lift_conn_def split: prod.split)

text \<open>The sender at sequence number \<open>i\<close>, and the receiver of the same direction with window \<open>w\<close>.\<close>

lemma delivery:
  assumes lib: "aead_correct L" "aead_overhead L" "codec_ok J" "codec_fits J"
    and k: "\<not> closed a" "\<not> closed b" "length (sendKey a) = 32" "recvKey b = sendKey a"
      "epochID b = epochID a" "peerID b = localID a" "localID b = peerID a"
    and sizes: "\<forall>m \<in> set ms. length m \<le> 32000" "2 * length ms \<le> n"
    and ahead: "replay_ok (replay b)" "replay_ahead (replay b) (nextSeq a)"
      "unat (nextSeq a) + length ms < 2 ^ 63"
  shows "\<exists>wire a' b'.
      send_all L J ms (a, open_end r t n q) = (Inr (), (a', open_end r (t @ wire) (n - 2 * length ms) q)) \<and>
      (\<forall>rest t' n' q'. recv_n L J (length ms) (b, open_end (wire @ rest) t' n' q') =
         (Inr ms, (b', open_end rest t' n' q')))"
  using assms(5-)
proof (induction ms arbitrary: a b t n)
  case Nil
  then show ?case by (intro exI [of _ "[]"] exI [of _ a] exI [of _ b]) simp
next
  case (Cons m ms)
  let ?f = "enc_DataMsg J (data_msg L a m)"
  let ?a = "a\<lparr>nextSeq := nextSeq a + 1\<rparr>"
  have fit: "framable ?f" using Cons.prems lib by (intro data_codec) simp_all
  have send: "Send L J m (a, open_end r t n q) = (Inr (), (?a, open_end r (t @ frame ?f) (n - 2) q))"
    using Cons.prems fit by (simp add: Send_framed lift_conn_def writeJSON_framable)
  have seq: "unat (nextSeq a + 1) = unat (nextSeq a) + 1"
    using Cons.prems by (simp add: unat_word_ariths)
  obtain w where w: "Accept (replay b) (nextSeq a) = (True, w)" "replay_ok w"
    "\<And>t. nextSeq a < t \<Longrightarrow> unat t < 2 ^ 63 \<Longrightarrow> replay_ahead w t"
    using Cons.prems rw.accept_next by blast
  have "dec_head J ?f = Some TypeData" "dec_DataMsg J ?f = Some (data_msg L a m)"
    using lib(3) by (simp_all add: codec_ok_def data_msg_def)
  then have recv: "Recv L J (b, open_end (frame ?f @ rest) t' n' q') =
      (Inr m, (b\<lparr>replay := w\<rparr>, open_end rest t' n' q'))" for rest t' n' q'
    using Cons.prems fit w(1) lib(1) by (subst Recv_frame) (auto simp: recv_data_msg)
  have left: "2 * length ms \<le> n - 2" using Cons.prems(9) by simp
  have "replay_ahead w (nextSeq a + 1)"
    using w(3) Cons.prems seq by (simp add: word_less_nat_alt)
  then obtain wire a' b' where IH:
      "send_all L J ms (?a, open_end r (t @ frame ?f) (n - 2) q) =
        (Inr (), (a', open_end r ((t @ frame ?f) @ wire) (n - 2 - 2 * length ms) q))"
      "\<forall>rest t' n' q'. recv_n L J (length ms) (b\<lparr>replay := w\<rparr>, open_end (wire @ rest) t' n' q') =
        (Inr ms, (b', open_end rest t' n' q'))"
    using Cons.IH [of ?a "b\<lparr>replay := w\<rparr>" "n - 2" "t @ frame ?f"] Cons.prems w(2) seq left by auto
  then show ?case
    by (intro exI [of _ "frame ?f @ wire"] exI [of _ a'] exI [of _ b'])
      (simp add: gbind_def send recv)
qed

text \<open>Any number of receives, whatever arrives; errors do not stop the loop.\<close>

fun recv_steps :: "crypto_lib \<Rightarrow> codec \<Rightarrow> nat \<Rightarrow> Session \<times> endpoint \<Rightarrow> Session \<times> endpoint" where
  "recv_steps L J 0 sc = sc"
| "recv_steps L J (Suc n) sc = recv_steps L J n (snd (Recv L J sc))"

lemma ReadFrame_up [simp]: "up (snd (ReadFrame c)) = up c"
  by (auto simp: ReadFrame_def gbind_def io_ReadFull_def Let_def)

lemma recv_data_state:
  "snd (recv_data L msg (s, c)) = (s', c') \<Longrightarrow> c' = c \<and> epochID s' = epochID s \<and>
     (replay s' = replay s \<or> (\<exists>q. replay s' = snd (Accept (replay s) q)))"
  by (auto simp: recv_data_def Let_def split: if_splits prod.splits bool.splits) (metis snd_conv)+

text \<open>A receive leaves the window alone or runs one \<open>Accept\<close> on it, and keeps the connection open.\<close>

lemma Recv_state:
  assumes "snd (Recv L J (s, c)) = (s', c')"
  shows "replay s' = replay s \<or> (\<exists>q. replay s' = snd (Accept (replay s) q))" and "up c' = up c"
    and "epochID s' = epochID s"
proof -
  obtain r c1 where rf: "ReadFrame c = (r, c1)" by fastforce
  then have up: "up c1 = up c" using ReadFrame_up [of c] by simp
  show "replay s' = replay s \<or> (\<exists>q. replay s' = snd (Accept (replay s) q))" and "up c' = up c"
    and "epochID s' = epochID s"
    using assms rf up
    by (auto simp: Recv_def gbind_def lift_conn_def split: sum.splits option.splits if_splits
        dest!: recv_data_state)
qed

lemma window_inv_steps:
  assumes "recv_steps L J n (s, c) = (s', c')" and "window_inv A (replay s)"
  shows "(\<exists>B. A \<subseteq> B \<and> window_inv B (replay s')) \<and> up c' = up c \<and> epochID s' = epochID s \<and>
     w_size (replay s') = w_size (replay s)"
  using assms
proof (induction n arbitrary: s c A)
  case (Suc n)
  obtain s1 c1 where 1: "snd (Recv L J (s, c)) = (s1, c1)" by fastforce
  note st = Recv_state [OF 1]
  have "w_size (replay s1) = w_size (replay s)" using st(1) by auto
  moreover obtain B where "A \<subseteq> B" "window_inv B (replay s1)"
    using st(1) Suc.prems(2) window_inv_Accept [OF Suc.prems(2)] by (metis order_refl subset_insertI)
  ultimately show ?case
    using Suc.IH [of s1 c1 B] Suc.prems(1) 1 st(2,3) by (metis order_trans recv_steps.simps(2))
qed auto

lemma Recv_InrD:
  assumes "Recv L J (s, c) = (Inr p, (s', c'))"
  obtains b msg where "framable b" "rx c = frame b @ rx c'" "dec_head J b = Some TypeData"
    "dec_DataMsg J b = Some msg" "d_EpochID msg = epochID s"
    "Accept (replay s) (d_Seq msg) = (True, replay s')" "up c" "\<not> closed s'" "epochID s' = epochID s"
proof -
  have nc: "\<not> closed s" using assms by (auto simp: Recv_def split: if_splits)
  obtain b c1 where rf: "ReadFrame c = (Inr b, c1)"
    using assms nc by (cases "fst (ReadFrame c)"; cases "ReadFrame c")
      (auto simp: Recv_def gbind_def lift_conn_def)
  obtain msg where m: "dec_head J b = Some TypeData" "dec_DataMsg J b = Some msg"
    "recv_data L msg (s, c1) = (Inr p, (s', c'))"
    using assms nc rf
    by (auto simp: Recv_def gbind_def lift_conn_def split: option.splits if_splits)
  then have d: "d_EpochID msg = epochID s" "Accept (replay s) (d_Seq msg) = (True, replay s')"
    "c' = c1" "closed s' = closed s" "epochID s' = epochID s"
    by (auto simp: recv_data_def Let_def split: if_splits prod.splits bool.splits)
  have "up c" using rf by (auto simp: ReadFrame_def gbind_def io_ReadFull_def split: if_splits)
  then show ?thesis
    using that [of b msg] m(1,2) d nc ReadFrame_InrD(1,2) [OF rf] by simp
qed

lemma data_msg_sel [simp]:
  "d_Type (data_msg L s m) = TypeData" "d_EpochID (data_msg L s m) = epochID s"
  "d_Seq (data_msg L s m) = nextSeq s" "d_Nonce (data_msg L s m) = NonceFromSeq (nextSeq s)"
  by (simp_all add: data_msg_def)

lemma send_all_wire:
  assumes "send_all L J ms (s, c) = (Inr (), (s', c'))"
  shows "\<exists>ds. tx c' = tx c @ concat (map (\<lambda>d. frame (enc_DataMsg J d)) ds) \<and> length ds = length ms \<and>
     (\<forall>i < length ds. d_Seq (ds ! i) = nextSeq s + word_of_nat i \<and>
        d_Nonce (ds ! i) = NonceFromSeq (nextSeq s + word_of_nat i))"
  using assms
proof (induction ms arbitrary: s c)
  case Nil
  then show ?case by (intro exI [of _ "[]"]) simp
next
  case (Cons m ms)
  obtain sc1 where 1: "Send L J m (s, c) = (Inr (), sc1)" and 2: "send_all L J ms sc1 = (Inr (), (s', c'))"
    using Cons.prems by (auto elim: gbind_InrE)
  have nc: "\<not> closed s" "length (sendKey s) = 32"
    using 1 by (auto simp: Send_def Let_def gbind_def pure_crypto_def Seal_def split: if_splits)
  obtain c1 where sc1: "sc1 = (s\<lparr>nextSeq := nextSeq s + 1\<rparr>, c1)"
    and c1: "tx c1 = tx c @ frame (enc_DataMsg J (data_msg L s m))"
    using 1 frames.put_fits [of "enc_DataMsg J (data_msg L s m)" c]
    by (auto simp: Send_framed [OF nc] lift_conn_def writeJSON_def split: prod.splits)
  obtain ds where ds: "tx c' = tx c1 @ concat (map (\<lambda>d. frame (enc_DataMsg J d)) ds)"
    "length ds = length ms"
    "\<forall>i < length ds. d_Seq (ds ! i) = nextSeq s + 1 + word_of_nat i \<and>
        d_Nonce (ds ! i) = NonceFromSeq (nextSeq s + 1 + word_of_nat i)"
    using Cons.IH [of "s\<lparr>nextSeq := nextSeq s + 1\<rparr>" c1] 2 sc1 by auto
  show ?case
    using ds c1
    by (intro exI [of _ "data_msg L s m # ds"]) (auto simp: nth_Cons data_msg_def ac_simps split: nat.split)
qed

section \<open>Properties of the session\<close>

text \<open>
  C5: The data path delivers: on the two sessions a handshake yields, any list of fewer than
  \<open>2 ^ 63\<close> messages of at most 32000 bytes is sent without error when the transport takes the
  writes, and the other end receives exactly those messages, in order and without error,
  whatever follows them on the wire.
\<close>

theorem session_delivery:
  assumes "aead_correct L" "aead_overhead L" "codec_ok J" "codec_fits J" "length k = 32"
    and "\<forall>m \<in> set ms. length m \<le> 32000" "2 * length ms \<le> n" "length ms < 2 ^ 63"
  shows "\<exists>wire a' b'.
      send_all L J ms (new_session ida idb e k ka, open_end r t n q) =
        (Inr (), (a', open_end r (t @ wire) (n - 2 * length ms) q)) \<and>
      (\<forall>rest t' n' q'.
         recv_n L J (length ms) (new_session idb ida e kb k, open_end (wire @ rest) t' n' q') =
         (Inr ms, (b', open_end rest t' n' q')))"
  by (rule delivery)
    (use assms replay_ok_New [of 128] replay_ahead_New [of 0 128] in \<open>simp_all add: new_session_def\<close>)

theorem session_delivery_witness:
  "\<exists>wire a' b'.
      send_all xor_lib field_codec [[1, 2, 3], [], [4]]
          (new_session ''alice'' ''bob'' 100 (replicate 32 7) [], open_end [] [] 6 []) =
        (Inr (), (a', open_end [] wire 0 [])) \<and>
      recv_n xor_lib field_codec 3 (new_session ''bob'' ''alice'' 100 [] (replicate 32 7), open_end wire [] 0 []) =
        (Inr [[1, 2, 3], [], [4]], (b', open_end [] [] 0 []))"
proof -
  obtain wire a' b' where w:
    "send_all xor_lib field_codec [[1, 2, 3], [], [4]]
          (new_session ''alice'' ''bob'' 100 (replicate 32 7) [], open_end [] [] 6 []) =
        (Inr (), (a', open_end [] ([] @ wire) (6 - 2 * length [[1, 2, 3], [], [4 :: byte]]) []))"
    "\<forall>rest t' n' q'. recv_n xor_lib field_codec (length [[1, 2, 3], [], [4 :: byte]])
        (new_session ''bob'' ''alice'' 100 [] (replicate 32 7), open_end (wire @ rest) t' n' q') =
        (Inr [[1, 2, 3], [], [4]], (b', open_end rest t' n' q'))"
    using session_delivery [OF xor_lib_laws(3,5) field_codec_laws, of "replicate 32 7" "[[1, 2, 3], [], [4]]" 6
        "''alice''" "''bob''" 100 "[]" "[]" "[]" "[]" "[]"]
    by (auto simp del: send_all.simps recv_n.simps)
  show ?thesis
    using w(1) w(2) [rule_format, of "[]" "[]" 0 "[]"]
    by (intro exI [of _ wire] exI [of _ a'] exI [of _ b'])
      (simp add: numeral_3_eq_3 del: send_all.simps recv_n.simps)
qed

text \<open>
  A frame that was received once is refused when it arrives again, after any number of
  further receives of arbitrary bytes, as long as the session is open and the sequence number
  of the frame is less than a window below the largest one seen.
\<close>

theorem replayed_frame_refused:
  assumes "Recv L J (s, c) = (Inr p, (s1, c1))" and "rx c = frame b @ rx c1" and "framable b"
    and "dec_DataMsg J b = Some msg" and "replay_ok (replay s)"
    and "recv_steps L J n (s1, c1) = (s2, c2)" and "\<not> closed s2"
    and "unat (maxSeq (replay s2)) < unat (d_Seq msg) + unat (w_size (replay s2))"
    and "unat (d_Seq msg) + unat (w_size (replay s2)) < 2 ^ 64"
  shows "fst (Recv L J (s2, c2\<lparr>rx := frame b @ rest\<rparr>)) = Inl (ReplayOrOld (d_Seq msg))"
proof -
  obtain b' msg' where r: "framable b'" "rx c = frame b' @ rx c1" "dec_head J b' = Some TypeData"
    "dec_DataMsg J b' = Some msg'" "d_EpochID msg' = epochID s"
    "Accept (replay s) (d_Seq msg') = (True, replay s1)" "up c" "epochID s1 = epochID s"
    by (rule Recv_InrD [OF assms(1)])
  have eq: "b' = b" "msg' = msg"
    using frames.image_prefix_free [OF r(1) assms(3)] r(2,4) assms(2,4) by auto
  obtain A where A: "window_inv A (replay s)" using assms(5) by (auto simp: replay_ok_def)
  have "window_inv (insert (d_Seq msg) A) (replay s1)"
    using window_inv_Accept [OF A, of "d_Seq msg"] r(6) eq by simp
  then obtain B where B: "d_Seq msg \<in> B" "window_inv B (replay s2)" "up c2 = up c1" "epochID s2 = epochID s1"
    using window_inv_steps [OF assms(6)] by blast
  have "up c1" using Recv_state(2) [of L J s c s1 c1] assms(1) r(7) by simp
  moreover have "Accept (replay s2) (d_Seq msg) = (False, replay s2)"
    using Accept_exact [OF B(2) assms(8,9)] B(1) Accept_False [of "replay s2"] by (simp add: prod_eq_iff)
  ultimately show ?thesis
    using assms(7) r eq B(3,4) Recv_frame [of s2 "c2\<lparr>rx := frame b @ rest\<rparr>" b rest J msg L]
    by (simp add: recv_data_def)
qed

theorem replayed_frame_refused_witness:
  "let a = new_session ''alice'' ''bob'' 100 (replicate 32 7) [];
       b = enc_DataMsg field_codec (data_msg xor_lib a [1]);
       s = new_session ''bob'' ''alice'' 100 [] (replicate 32 7);
       (s1, c1) = snd (Recv xor_lib field_codec (s, open_end (frame b) [] 0 []))
   in fst (Recv xor_lib field_codec (s1, c1\<lparr>rx := frame b\<rparr>)) = Inl (ReplayOrOld 0)"
proof -
  define a where "a = new_session ''alice'' ''bob'' 100 (replicate 32 7) []"
  define b where "b = enc_DataMsg field_codec (data_msg xor_lib a [1])"
  define s where "s = new_session ''bob'' ''alice'' 100 [] (replicate 32 7)"
  define w where "w = snd (Accept (NewReplayWindow 128) 0)"
  have fit: "framable b"
    unfolding b_def by (rule data_codec [OF field_codec_laws xor_lib_laws(5)]) (simp_all add: a_def new_session_def)
  have dec: "dec_head field_codec b = Some TypeData" "dec_DataMsg field_codec b = Some (data_msg xor_lib a [1])"
    using field_codec_laws(1) by (simp_all add: codec_ok_def b_def)
  have sel: "nextSeq a = 0" "w_size w = 128" "maxSeq w = 0"
    by (simp_all add: a_def new_session_def w_def) (simp_all add: NewReplayWindow_def Accept_def)
  have r: "Recv xor_lib field_codec (s, open_end (frame b) [] 0 []) =
      (Inr [1], (s\<lparr>replay := w\<rparr>, open_end [] [] 0 []))"
    using fit dec by (subst Recv_frame [where rest = "[]"])
      (auto simp: recv_data_msg [OF xor_lib_laws(3)] a_def s_def new_session_def w_def Accept_def NewReplayWindow_def)
  have "fst (Recv xor_lib field_codec (s\<lparr>replay := w\<rparr>, open_end [] [] 0 []\<lparr>rx := frame b @ []\<rparr>)) =
      Inl (ReplayOrOld (d_Seq (data_msg xor_lib a [1])))"
    by (rule replayed_frame_refused [OF r, of b _ 0])
      (use fit dec sel replay_ok_New [of 128] in \<open>simp_all add: s_def new_session_def\<close>)
  then show ?thesis
    using r sel by (simp add: Let_def flip: a_def s_def b_def)
qed

text \<open>
  C17: The data messages that successful sends put on the wire carry consecutive sequence numbers
  and pairwise different nonces, for up to \<open>2 ^ 64\<close> messages of one session, so no nonce is used
  twice with the session's sending key.
\<close>

theorem wire_nonces_distinct:
  assumes "send_all L J ms (s, c) = (Inr (), (s', c'))" and "length ms \<le> 2 ^ 64"
  shows "\<exists>ds. tx c' = tx c @ concat (map (\<lambda>d. frame (enc_DataMsg J d)) ds) \<and> length ds = length ms \<and>
     (\<forall>i < length ds. d_Seq (ds ! i) = nextSeq s + word_of_nat i) \<and> distinct (map d_Nonce ds)"
proof -
  obtain ds where ds: "tx c' = tx c @ concat (map (\<lambda>d. frame (enc_DataMsg J d)) ds)" "length ds = length ms"
    "\<forall>i < length ds. d_Seq (ds ! i) = nextSeq s + word_of_nat i \<and>
        d_Nonce (ds ! i) = NonceFromSeq (nextSeq s + word_of_nat i)"
    using send_all_wire [OF assms(1)] by blast
  have "i = j" if "i < length ds" "j < length ds" "(word_of_nat i :: u64) = word_of_nat j" for i j
    using that ds(2) assms(2) by (intro word_of_nat_u64_inject [THEN iffD1]) simp_all
  then have "distinct (map d_Nonce ds)"
    using ds(3) by (auto simp: distinct_conv_nth)
  with ds show ?thesis by blast
qed


theorem wire_nonces_distinct_witness:
  "\<exists>s' c' ds. send_all xor_lib field_codec [[1], [2]]
      (new_session ''alice'' ''bob'' 100 (replicate 32 7) [], open_end [] [] 4 []) = (Inr (), (s', c')) \<and>
    tx c' = concat (map (\<lambda>d. frame (enc_DataMsg field_codec d)) ds) \<and> length ds = 2 \<and>
    distinct (map d_Nonce ds)"
proof -
  let ?s = "new_session ''alice'' ''bob'' 100 (replicate 32 7) []"
  obtain s' c' where "send_all xor_lib field_codec [[1], [2]] (?s, open_end [] [] 4 []) = (Inr (), (s', c'))"
    using delivery [OF xor_lib_laws(3,5) field_codec_laws, of ?s
        "new_session ''bob'' ''alice'' 100 [] (replicate 32 7)" "[[1], [2]]" 4 "[]" "[]" "[]"]
      replay_ok_New [of 128] replay_ahead_New [of 0 128]
    by (auto simp: new_session_def simp del: send_all.simps)
  then show ?thesis
    using wire_nonces_distinct [of xor_lib field_codec "[[1], [2]]" ?s "open_end [] [] 4 []" s' c']
    by (auto simp del: send_all.simps)
qed

text \<open>
  C39: The window is updated before the authentication tag is checked: a forged frame in the
  right epoch makes \<open>Recv\<close> fail, and the genuine message with that sequence number, which arrives
  next, is refused as a replay.
\<close>

theorem forged_frame_blocks_genuine:
  assumes "\<not> closed s" "up c" "replay_ok (replay s)" "replay_ahead (replay s) (nextSeq a)"
    and "codec_ok J" "epochID a = epochID s" "d_Seq forged = nextSeq a" "d_Type forged = TypeData"
    and "d_EpochID forged = epochID s" "length (recvKey s) = 32" "length (d_Nonce forged) = 12"
    and "chacha_Open L (recvKey s) (d_Nonce forged) (d_Ciphertext forged)
           (BuildAAD 1 (epochID s) (peerID s) (localID s) (nextSeq a)) = None"
    and "framable (enc_DataMsg J forged)" "framable (enc_DataMsg J (data_msg L a m))"
    and "rx c = frame (enc_DataMsg J forged) @ frame (enc_DataMsg J (data_msg L a m)) @ rest"
  shows "fst (Recv L J (s, c)) = Inl (CryptoError AEADOpenFailed) \<and>
    fst (Recv L J (snd (Recv L J (s, c)))) = Inl (ReplayOrOld (nextSeq a))"
proof -
  let ?f = "enc_DataMsg J forged" and ?g = "enc_DataMsg J (data_msg L a m)"
  obtain w where w: "Accept (replay s) (nextSeq a) = (True, w)" "replay_ok w"
    using assms rw.accept_next by blast
  have dec: "dec_head J ?f = Some TypeData" "dec_DataMsg J ?f = Some forged"
    "dec_head J ?g = Some TypeData" "dec_DataMsg J ?g = Some (data_msg L a m)"
    using assms by (simp_all add: codec_ok_def)
  have 1: "Recv L J (s, c) = (Inl (CryptoError AEADOpenFailed), (s\<lparr>replay := w\<rparr>, c\<lparr>rx := frame ?g @ rest\<rparr>))"
    using assms dec w by (subst Recv_frame) (auto simp: recv_data_def Open_def)
  have "Accept w (nextSeq a) = (False, w)" using assms(3) w(1) by (rule rw.accept_twice)
  then have 2: "fst (Recv L J (s\<lparr>replay := w\<rparr>, c\<lparr>rx := frame ?g @ rest\<rparr>)) = Inl (ReplayOrOld (nextSeq a))"
    using assms dec by (subst Recv_frame [where b = ?g and rest = rest]) (auto simp: recv_data_def)
  from 1 2 show ?thesis by simp
qed

theorem forged_frame_blocks_genuine_witness:
  "let a = new_session ''alice'' ''bob'' 100 (replicate 32 7) [];
       s = new_session ''bob'' ''alice'' 100 [] (replicate 32 7);
       good = data_msg xor_lib a [1]; forged = good\<lparr>d_Ciphertext := []\<rparr>;
       c = open_end (frame (enc_DataMsg field_codec forged) @ frame (enc_DataMsg field_codec good)) [] 0 []
   in fst (Recv xor_lib field_codec (snd (Recv xor_lib field_codec (s, c)))) = Inl (ReplayOrOld 0)"
proof -
  define a where "a = new_session ''alice'' ''bob'' 100 (replicate 32 7) []"
  define s where "s = new_session ''bob'' ''alice'' 100 [] (replicate 32 7)"
  define forged where "forged = (data_msg xor_lib a [1])\<lparr>d_Ciphertext := []\<rparr>"
  let ?c = "open_end (frame (enc_DataMsg field_codec forged) @
      frame (enc_DataMsg field_codec (data_msg xor_lib a [1])) @ []) [] 0 []"
  have fit: "framable (enc_DataMsg field_codec (data_msg xor_lib a [1]))"
    by (rule data_codec [OF field_codec_laws xor_lib_laws(5)]) (simp_all add: a_def new_session_def)
  have fit': "framable (enc_DataMsg field_codec forged)"
    by (simp add: framable_def MaxPayload_def field_codec_def forged_def length_put_fields
        del: put_fields.simps)
  have "fst (Recv xor_lib field_codec (snd (Recv xor_lib field_codec (s, ?c)))) = Inl (ReplayOrOld (nextSeq a))"
    by (rule forged_frame_blocks_genuine [where s = s and c = ?c and forged = forged and rest = "[]", THEN conjunct2])
      (use fit fit' field_codec_laws replay_ok_New [of 128] replay_ahead_New [of 0 128] in
        \<open>simp_all add: s_def a_def forged_def new_session_def xor_lib_def\<close>)
  then show ?thesis
    by (simp add: Let_def a_def s_def forged_def new_session_def)
qed

end
