(* ===== verification/KATypes.thy ===== *)
theory KATypes
  imports Encoding Epoch
begin

text \<open>
  The data of the key authority: requests and answers (\<^verbatim>\<open>internal/kaapi/types.go\<close>), device records
  (\<^verbatim>\<open>registry.go\<close>), vouchers (\<^verbatim>\<open>voucher.go\<close>), the \<open>Store\<close> interface (\<^verbatim>\<open>store.go\<close>) as a record of
  operations over a state type, and an abstract registry that says what a store promises.
  \<open>crypto/sha256\<close> is the parameter \<open>sha256\<close>.
\<close>

section \<open>Records\<close>

record IssueRequest =
  DeviceID_q :: string
  EpochHint_q :: u64
  Nonce_q :: bytes
  ClientTime_q :: i64
  Profile_q :: string
  Signature_q :: bytes

record IssueResponse =
  DeviceID_s :: string
  EpochID_s :: u64
  NotBefore_s :: i64
  NotAfter_s :: i64
  GraceSeconds_s :: u64
  KeySerial_s :: u64
  RequestID_s :: bytes
  PublicTag_s :: bytes
  GeneralKey_s :: bytes
  Profile_s :: string
  KATime_s :: i64

record EnrollRequest =
  DeviceID_e :: string
  IdentityPK_e :: bytes
  SignPK_e :: bytes
  OrgID_e :: string
  Label_e :: string
  EnrollmentCounter_e :: u32
  Profile_e :: string
  VoucherCode_e :: string

record EnrollResponse =
  DeviceID_er :: string
  EnrollmentCounter_er :: u32
  Profile_er :: string

record StatusResponse =
  DeviceID_st :: string
  Revoked_st :: bool
  CurrentEpochID_st :: u64
  IssuedThisEpoch_st :: bool
  KeySerial_st :: u64
  NotAfter_st :: i64

record RevokeRequest =
  DeviceID_rr :: string
  Reason_rr :: string

record HealthResponse =
  Status_h :: string
  Time_h :: i64
  EpochID_h :: u64
  TLS_h :: bool

record DeviceRecord =
  DeviceID :: string
  IdentityPK :: bytes
  SignPK :: bytes
  OrgID :: string
  Label :: string
  EnrollmentCounter :: u32
  Profile :: string
  Revoked :: bool
  LastEpochID :: u64
  LastSerial :: u64
  IssuedEpoch :: u64

record Voucher =
  ID_v :: string
  CodeHash_v :: string
  Label_v :: string
  OrgID_v :: string
  Profile_v :: string
  MaxUses_v :: i64
  Uses_v :: i64
  ExpiresAt_v :: i64
  CreatedAt_v :: i64
  Revoked_v :: bool

record VoucherInfo =
  ID_vi :: string
  Label_vi :: string
  OrgID_vi :: string
  Profile_vi :: string
  MaxUses_vi :: i64
  Uses_vi :: i64
  ExpiresAt_vi :: i64
  Revoked_vi :: bool
  CreatedAt_vi :: i64

record CreateVoucherRequest =
  Label_cv :: string
  OrgID_cv :: string
  Profile_cv :: string
  MaxUses_cv :: i64
  TTLHours_cv :: i64
  Code_cv :: string

record CreateVoucherResponse =
  ID_cr :: string
  Code_cr :: string
  MaxUses_cr :: i64
  ExpiresAt_cr :: i64
  Label_cr :: string
  Profile_cr :: string
  OrgID_cr :: string

definition voucher_info :: "Voucher \<Rightarrow> VoucherInfo" where
  "voucher_info v = \<lparr>ID_vi = ID_v v, Label_vi = Label_v v, OrgID_vi = OrgID_v v, Profile_vi = Profile_v v,
     MaxUses_vi = MaxUses_v v, Uses_vi = Uses_v v, ExpiresAt_vi = ExpiresAt_v v,
     Revoked_vi = Revoked_v v, CreatedAt_vi = CreatedAt_v v\<rparr>"

section \<open>Voucher codes\<close>

text \<open>\<open>strings.TrimSpace\<close> on the ASCII blanks.\<close>

definition is_space :: "char \<Rightarrow> bool" where
  "is_space c \<longleftrightarrow> of_char c \<in> {9, 10, 11, 12, 13, 32 :: nat}"

definition TrimSpace :: "string \<Rightarrow> string" where
  "TrimSpace s = rev (dropWhile is_space (rev (dropWhile is_space s)))"

definition HashVoucherCode :: "(bytes \<Rightarrow> bytes) \<Rightarrow> string \<Rightarrow> string" where
  "HashVoucherCode sha256 code = hex_EncodeToString (sha256 (bytes_of (TrimSpace code)))"

section \<open>Errors and the interface\<close>

datatype ka_error =
    DeviceIDRequired | IdentityPKLength | SignPKLength | NotEnrolled | IsRevoked
  | IDRequired | NotFound | Persist

text \<open>
  The error codes of \<open>RedeemVoucher\<close>, which returns a string instead of an \<open>error\<close>.
\<close>

datatype voucher_error = InvalidVoucher | VoucherRevoked | VoucherExpired | VoucherExhausted | Internal

text \<open>
  \<open>store.go\<close>: an implementation of the interface over the state type \<open>'s\<close>. The clock is an
  argument of the one method that reads it.
\<close>

record 's Store =
  st_Enroll :: "EnrollRequest \<Rightarrow> ('s, ka_error, DeviceRecord) go"
  st_Get :: "string \<Rightarrow> 's \<Rightarrow> DeviceRecord option"
  st_ListDevices :: "'s \<Rightarrow> DeviceRecord list"
  st_Revoke :: "string \<Rightarrow> ('s, ka_error, unit) go"
  st_MarkIssued :: "string \<Rightarrow> u64 \<Rightarrow> ('s, ka_error, u64) go"
  st_RedeemVoucher :: "time \<Rightarrow> string \<Rightarrow> ('s, voucher_error, Voucher) go"
  st_AddVoucher :: "Voucher \<Rightarrow> ('s, ka_error, unit) go"
  st_ListVouchers :: "'s \<Rightarrow> VoucherInfo list"
  st_RevokeVoucher :: "string \<Rightarrow> ('s, ka_error, unit) go"

section \<open>Enrollment and redemption of one record\<close>

text \<open>
  The checks of \<open>Enroll\<close>, the record of a new device and the update of a known one. The two
  implementations of the interface contain the same lines.
\<close>

definition enroll_check :: "EnrollRequest \<Rightarrow> ka_error option" where
  "enroll_check req =
     (if DeviceID_e req = '''' then Some DeviceIDRequired
      else if length (IdentityPK_e req) \<noteq> 32 then Some IdentityPKLength
      else if length (SignPK_e req) \<noteq> 0 \<and> length (SignPK_e req) \<noteq> 32 then Some SignPKLength
      else None)"

definition enroll_profile :: "EnrollRequest \<Rightarrow> string" where
  "enroll_profile req = (if Profile_e req = '''' then ''strong'' else Profile_e req)"

definition enroll_new :: "EnrollRequest \<Rightarrow> DeviceRecord" where
  "enroll_new req =
     \<lparr>DeviceID = DeviceID_e req, IdentityPK = IdentityPK_e req, SignPK = SignPK_e req,
      OrgID = OrgID_e req, Label = Label_e req,
      EnrollmentCounter = (if EnrollmentCounter_e req = 0 then 1 else EnrollmentCounter_e req),
      Profile = enroll_profile req, Revoked = False, LastEpochID = 0, LastSerial = 0, IssuedEpoch = 0\<rparr>"

definition enroll_existing :: "EnrollRequest \<Rightarrow> DeviceRecord \<Rightarrow> DeviceRecord" where
  "enroll_existing req old = old\<lparr>
     EnrollmentCounter := (if EnrollmentCounter_e req > EnrollmentCounter old then EnrollmentCounter_e req
                           else EnrollmentCounter old + 1),
     IdentityPK := IdentityPK_e req,
     SignPK := (if length (SignPK_e req) > 0 then SignPK_e req else SignPK old),
     OrgID := OrgID_e req, Label := Label_e req, Profile := enroll_profile req, Revoked := False\<rparr>"

definition enrolled_record :: "EnrollRequest \<Rightarrow> DeviceRecord option \<Rightarrow> DeviceRecord" where
  "enrolled_record req old =
     (case old of None \<Rightarrow> enroll_new req | Some r \<Rightarrow> enroll_existing req r)"

definition voucher_check :: "time \<Rightarrow> Voucher \<Rightarrow> voucher_error option" where
  "voucher_check now v =
     (if Revoked_v v then Some VoucherRevoked
      else if ExpiresAt_v v > 0 \<and> Unix now > ExpiresAt_v v then Some VoucherExpired
      else if MaxUses_v v > 0 \<and> Uses_v v \<ge> MaxUses_v v then Some VoucherExhausted
      else None)"

definition voucher_used :: "Voucher \<Rightarrow> Voucher" where
  "voucher_used v = v\<lparr>Uses_v := wrap64 (Uses_v v + 1)\<rparr>"

definition issued_record :: "u64 \<Rightarrow> u64 \<Rightarrow> DeviceRecord \<Rightarrow> DeviceRecord" where
  "issued_record epoch serial rec =
     rec\<lparr>IssuedEpoch := epoch, LastEpochID := epoch, LastSerial := serial\<rparr>"

definition already_issued :: "u64 \<Rightarrow> DeviceRecord \<Rightarrow> bool" where
  "already_issued epoch rec \<longleftrightarrow> IssuedEpoch rec = epoch \<and> LastSerial rec \<noteq> 0"

end
