(* ===== verification/Ice.thy ===== *)
theory Ice
  imports KATypes
begin

text \<open>
  The configuration of WebRTC sessions, \<^verbatim>\<open>internal/webrtcx/ice.go\<close> and the type \<open>Config\<close> of
  \<^verbatim>\<open>internal/webrtcx/dial.go\<close>: defaults from the environment, the list of STUN and TURN servers and
  the transport policy that go into \<open>webrtc.NewPeerConnection\<close>. The environment is a function
  from names to values, empty when a variable is not set.
\<close>

section \<open>Definitions\<close>

subsection \<open>What is used of package strings\<close>

fun strings_Split :: "char \<Rightarrow> string \<Rightarrow> string list" where
  "strings_Split sep [] = [[]]"
| "strings_Split sep (c # cs) =
     (if c = sep then [] # strings_Split sep cs
      else case strings_Split sep cs of [] \<Rightarrow> [[c]] | p # ps \<Rightarrow> (c # p) # ps)"

definition HasPrefix :: "string \<Rightarrow> string \<Rightarrow> bool" where
  "HasPrefix s p \<longleftrightarrow> take (length p) s = p"

fun Contains :: "string \<Rightarrow> string \<Rightarrow> bool" where
  "Contains [] p \<longleftrightarrow> p = []"
| "Contains (c # cs) p \<longleftrightarrow> HasPrefix (c # cs) p \<or> Contains cs p"

definition ToLower :: "string \<Rightarrow> string" where
  "ToLower = map (\<lambda>c. if 65 \<le> (of_char c :: nat) \<and> (of_char c :: nat) \<le> 90 then char_of ((of_char c :: nat) + 32) else c)"

subsection \<open>Config and ice.go\<close>

datatype ICEPolicy = NoPolicy | ICEPolicyAll | ICEPolicyRelay

record Config =
  SignalURL_w :: string
  LocalID_w :: string
  PeerID_w :: string
  STUN_w :: "string list"
  TURNURLs_w :: "string list"
  TURNUser_w :: string
  TURNPass_w :: string
  Policy_w :: ICEPolicy

record ICEServer =
  URLs_v :: "string list"
  Username_v :: string
  Credential_v :: string

definition splitCSV :: "string \<Rightarrow> string list" where
  "splitCSV s = filter (\<lambda>p. p \<noteq> '''') (map TrimSpace (strings_Split (CHR '','') s))"

definition ApplyEnv :: "(string \<Rightarrow> string) \<Rightarrow> Config \<Rightarrow> Config" where
  "ApplyEnv env cfg = cfg\<lparr>
     STUN_w := (if STUN_w cfg = [] \<and> env ''COE_STUN'' \<noteq> '''' then splitCSV (env ''COE_STUN'') else STUN_w cfg),
     TURNURLs_w := (if TURNURLs_w cfg = [] \<and> env ''COE_TURN_URLS'' \<noteq> '''' then splitCSV (env ''COE_TURN_URLS'')
        else TURNURLs_w cfg),
     TURNUser_w := (if TURNUser_w cfg = '''' then env ''COE_TURN_USER'' else TURNUser_w cfg),
     TURNPass_w := (if TURNPass_w cfg = '''' then env ''COE_TURN_PASS'' else TURNPass_w cfg),
     Policy_w := (if Policy_w cfg = NoPolicy then
        (let p = ToLower (TrimSpace (env ''COE_ICE_POLICY'')) in
         if p = ''relay'' \<or> p = ''turn'' then ICEPolicyRelay else ICEPolicyAll)
        else Policy_w cfg)\<rparr>"

definition defaultSTUNList :: "string list \<Rightarrow> string list" where
  "defaultSTUNList s = (if length s > 0 then s
     else [''stun:stun.l.google.com:19302'', ''stun:stun1.l.google.com:19302''])"

definition has_scheme :: "string \<Rightarrow> bool" where
  "has_scheme u \<longleftrightarrow> HasPrefix u ''stun:'' \<or> HasPrefix u ''stuns:'' \<or> HasPrefix u ''turn:'' \<or> HasPrefix u ''turns:''"

definition normalizeICEURL :: "string \<Rightarrow> string \<Rightarrow> string" where
  "normalizeICEURL u0 kind =
     (let u = TrimSpace u0 in
      if u = '''' then u
      else if Contains u '':'' \<and> \<not> Contains u ''://'' \<and> \<not> has_scheme u then kind @ '':'' @ u
      else u)"

definition buildICEServers :: "Config \<Rightarrow> ICEServer list" where
  "buildICEServers cfg =
     map (\<lambda>u. \<lparr>URLs_v = [normalizeICEURL u ''stun''], Username_v = '''', Credential_v = ''''\<rparr>)
       (defaultSTUNList (STUN_w cfg)) @
     (if length (TURNURLs_w cfg) > 0 then
        [\<lparr>URLs_v = map (\<lambda>u. normalizeICEURL u ''turn'') (TURNURLs_w cfg),
          Username_v = TURNUser_w cfg, Credential_v = TURNPass_w cfg\<rparr>]
      else [])"

definition iceTransportPolicy :: "Config \<Rightarrow> ICEPolicy" where
  "iceTransportPolicy cfg =
     (if Policy_w cfg = ICEPolicyRelay \<and> length (TURNURLs_w cfg) > 0 then ICEPolicyRelay else ICEPolicyAll)"

section \<open>Lemmas\<close>

lemma strings_Split_none: "sep \<notin> set a \<Longrightarrow> strings_Split sep a = [a]"
  by (induction a) auto

lemma strings_Split_append: "sep \<notin> set a \<Longrightarrow> strings_Split sep (a @ sep # b) = a # strings_Split sep b"
  by (induction a) auto

lemma TrimSpace_fixed: "TrimSpace u = u \<longleftrightarrow> u = [] \<or> \<not> is_space (hd u) \<and> \<not> is_space (last u)"
proof
  assume t: "TrimSpace u = u"
  have len: "length (dropWhile is_space u) = length u"
    using t length_dropWhile_le [of is_space u] length_dropWhile_le [of is_space "rev (dropWhile is_space u)"]
    unfolding TrimSpace_def by (metis le_antisym length_rev)
  then have d: "dropWhile is_space u = u" by (metis append_eq_append_conv append_Nil takeWhile_dropWhile_id)
  then have r: "dropWhile is_space (rev u) = rev u" using t unfolding TrimSpace_def by (metis rev_rev_ident)
  show "u = [] \<or> \<not> is_space (hd u) \<and> \<not> is_space (last u)"
    using d r by (metis hd_dropWhile hd_rev rev_is_Nil_conv)
next
  assume "u = [] \<or> \<not> is_space (hd u) \<and> \<not> is_space (last u)"
  then show "TrimSpace u = u"
  proof
    assume u: "\<not> is_space (hd u) \<and> \<not> is_space (last u)"
    then have "dropWhile is_space u = u" by (cases u) auto
    moreover have "dropWhile is_space (rev u) = rev u" using u by (cases u rule: rev_cases) auto
    ultimately show ?thesis by (simp add: TrimSpace_def)
  qed (simp add: TrimSpace_def)
qed

lemma TrimSpace_Nil [simp]: "TrimSpace [] = []"
  by (simp add: TrimSpace_def)

lemma TrimSpace_TrimSpace [simp]: "TrimSpace (TrimSpace s) = TrimSpace s"
proof (cases "TrimSpace s = []")
  case False
  let ?d = "dropWhile is_space s"
  have ne: "dropWhile is_space (rev ?d) \<noteq> []" using False unfolding TrimSpace_def by fastforce
  then have d: "?d \<noteq> []" by force
  have "\<exists>zs. ?d = TrimSpace s @ zs"
    unfolding TrimSpace_def by (metis rev_append rev_rev_ident takeWhile_dropWhile_id)
  then have "hd (TrimSpace s) = hd ?d" using False by auto
  moreover have "\<not> is_space (hd ?d)" using d by (rule hd_dropWhile)
  moreover have "\<not> is_space (last (TrimSpace s))"
    using hd_dropWhile [OF ne] ne by (simp add: TrimSpace_def last_rev)
  ultimately show ?thesis by (simp add: TrimSpace_fixed)
qed simp

text \<open>\<open>Dial\<close> applies the environment and \<open>newPC\<close> applies it again; the second time changes nothing.\<close>

lemma ApplyEnv_ApplyEnv: "ApplyEnv env (ApplyEnv env cfg) = ApplyEnv env cfg"
  by (simp add: ApplyEnv_def Let_def)

lemma has_scheme_kind: "kind \<in> {''stun'', ''turn''} \<Longrightarrow> has_scheme (kind @ '':'' @ u)"
  by (auto simp: has_scheme_def HasPrefix_def)

lemma normalizeICEURL_idempotent:
  assumes "kind \<in> {''stun'', ''turn''}"
  shows "normalizeICEURL (normalizeICEURL u kind) kind' = normalizeICEURL u kind"
proof -
  let ?u = "TrimSpace u"
  have trim: "TrimSpace (kind @ '':'' @ ?u) = kind @ '':'' @ ?u" if "?u \<noteq> ''''"
    using that assms TrimSpace_fixed [of ?u] by (subst TrimSpace_fixed) (auto simp: is_space_def)
  show ?thesis
    using trim has_scheme_kind [OF assms, of ?u] by (auto simp: normalizeICEURL_def Let_def)
qed

text \<open>TURN-only mode is asked for only when a TURN server is on the list.\<close>

lemma relay_needs_turn:
  assumes "iceTransportPolicy cfg = ICEPolicyRelay"
  shows "TURNURLs_w cfg \<noteq> [] \<and> \<lparr>URLs_v = map (\<lambda>u. normalizeICEURL u ''turn'') (TURNURLs_w cfg),
      Username_v = TURNUser_w cfg, Credential_v = TURNPass_w cfg\<rparr> \<in> set (buildICEServers cfg)"
  using assms by (auto simp: iceTransportPolicy_def buildICEServers_def split: if_splits)

end
