(* ===== verification/Agent.thy ===== *)
theory Agent
  imports Session Ice
begin

text \<open>
  The desktop agent, \<^verbatim>\<open>internal/agent\<close>: the hub of peer sessions (hub.go) and the local control
  interface (localapi.go). A \<open>*p2p.Session\<close> is an index into a heap of sessions with their
  connections, so that two sessions with the same peer are told apart as the code tells them
  apart. The goroutines that run \<open>readLoop\<close> are a list of such pointers; one iteration of a loop
  is one step. \<open>Connect\<close> and its relatives release the lock during the handshake: they are the
  part before it, the handshake, and the part after it, and the step relation lets any other
  steps come between.
\<close>

section \<open>Definitions\<close>

subsection \<open>hub.go\<close>

record InboxMsg =
  From_b :: string
  Body_b :: string
  Raw_b :: bytes
  Received_b :: time

record SessionInfo =
  PeerID_b :: string
  EpochID_b :: u64
  Active_b :: bool

record ICEConfig =
  STUN_b :: "string list"
  TURNURLs_b :: "string list"
  TURNUser_b :: string
  TURNPass_b :: string

record AgentHub =
  hub_creds :: LocalCreds
  hub_peers :: "(string \<times> string) list"
  hub_sessions :: "(string \<times> nat) list"
  hub_heap :: "(Session \<times> endpoint) list"
  hub_loops :: "nat list"
  hub_inbox :: "InboxMsg list"
  hub_inboxCh :: "InboxMsg list"
  hub_ice :: ICEConfig

datatype agent_error = NoAddress string | NoSession string | WebRTCFailed | P2P p2p_error

definition NewAgentHub :: "LocalCreds \<Rightarrow> AgentHub" where
  "NewAgentHub creds = \<lparr>hub_creds = creds, hub_peers = [], hub_sessions = [], hub_heap = [], hub_loops = [],
     hub_inbox = [], hub_inboxCh = [],
     hub_ice = \<lparr>STUN_b = [], TURNURLs_b = [], TURNUser_b = '''', TURNPass_b = ''''\<rparr>\<rparr>"

definition SetICE :: "ICEConfig \<Rightarrow> AgentHub \<Rightarrow> AgentHub" where
  "SetICE ice h = h\<lparr>hub_ice := ice\<rparr>"

definition SetCreds :: "LocalCreds \<Rightarrow> AgentHub \<Rightarrow> AgentHub" where
  "SetCreds c h = h\<lparr>hub_creds := c\<rparr>"

definition AddPeer :: "string \<Rightarrow> string \<Rightarrow> AgentHub \<Rightarrow> AgentHub" where
  "AddPeer deviceID addr h = h\<lparr>hub_peers := AList.update deviceID addr (hub_peers h)\<rparr>"

text \<open>The getters copy what they return.\<close>

definition Creds :: "AgentHub \<Rightarrow> LocalCreds" where
  "Creds h = hub_creds h"

definition Peers :: "AgentHub \<Rightarrow> (string \<times> string) list" where
  "Peers h = hub_peers h"

fun LoadPeers :: "(string \<times> string) list \<Rightarrow> AgentHub \<Rightarrow> AgentHub" where
  "LoadPeers [] h = h"
| "LoadPeers ((deviceID, addr) # ps) h =
     LoadPeers ps (if deviceID \<noteq> '''' \<and> addr \<noteq> '''' then AddPeer deviceID addr h else h)"

definition Sessions :: "AgentHub \<Rightarrow> SessionInfo list" where
  "Sessions h = map (\<lambda>(i, p). \<lparr>PeerID_b = i, EpochID_b = epochID (fst (hub_heap h ! p)), Active_b = True\<rparr>)
     (hub_sessions h)"

definition close_at :: "codec \<Rightarrow> string \<Rightarrow> nat \<Rightarrow> AgentHub \<Rightarrow> AgentHub" where
  "close_at J reason p h = h\<lparr>hub_heap := (hub_heap h)[p := CloseSession J reason (hub_heap h ! p)]\<rparr>"

text \<open>Closing and deleting the session that is registered for a peer, if there is one.\<close>

definition drop_session :: "codec \<Rightarrow> string \<Rightarrow> string \<Rightarrow> AgentHub \<Rightarrow> AgentHub" where
  "drop_session J reason peer h =
     (case map_of (hub_sessions h) peer of
        None \<Rightarrow> h
      | Some p \<Rightarrow> (close_at J reason p h)\<lparr>hub_sessions := AList.delete peer (hub_sessions h)\<rparr>)"

text \<open>Registering a new session under a name and starting its \<open>readLoop\<close>.\<close>

definition add_session :: "string \<Rightarrow> Session \<Rightarrow> endpoint \<Rightarrow> AgentHub \<Rightarrow> AgentHub" where
  "add_session peer s c h =
     (let p = length (hub_heap h) in
      h\<lparr>hub_heap := hub_heap h @ [(s, c)], hub_sessions := AList.update peer p (hub_sessions h),
        hub_loops := p # hub_loops h\<rparr>)"

definition connect_begin :: "codec \<Rightarrow> string \<Rightarrow> string \<Rightarrow> AgentHub \<Rightarrow> string \<times> LocalCreds \<times> AgentHub" where
  "connect_begin J peer addr h =
     (let addr' = (if addr = '''' then (case map_of (hub_peers h) peer of None \<Rightarrow> '''' | Some a \<Rightarrow> a) else addr);
          h1 = (if addr = '''' then h else AddPeer peer addr h)
      in (addr', hub_creds h1, drop_session J ''reconnect'' peer h1))"

definition pinned :: "LocalCreds \<Rightarrow> string \<Rightarrow> SessionConfig" where
  "pinned creds peer = \<lparr>Local = creds, PeerGeneralKey = [], PeerDeviceID_c = peer\<rparr>"

text \<open>\<open>net.DialTimeout\<close> is the argument \<open>dialed\<close>.\<close>

definition Connect ::
    "crypto_lib \<Rightarrow> codec \<Rightarrow> time \<Rightarrow> (string \<Rightarrow> endpoint option) \<Rightarrow> string \<Rightarrow> string \<Rightarrow> (AgentHub, agent_error, unit) go" where
  "Connect L J now dialed peer addr = (\<lambda>h.
     case connect_begin J peer addr h of
       (addr', creds, h1) \<Rightarrow>
         if addr' = '''' then (Inl (NoAddress peer), h1)
         else case Dial L J now (dialed addr') (pinned creds peer) of
           (Inr s, Some c) \<Rightarrow> (Inr (), add_session peer s c h1)
         | (Inr s, None) \<Rightarrow> (Inl (P2P DialFailed), h1)
         | (Inl e, _) \<Rightarrow> (Inl (P2P e), h1))"

text \<open>
  \<open>webrtcx.Dial\<close> and \<open>webrtcx.Accept\<close> are the arguments \<open>rtc_dial\<close> and \<open>rtc_accept\<close>: the
  connection they return, or an error.
\<close>

definition rtc_config :: "AgentHub \<Rightarrow> string \<Rightarrow> string \<Rightarrow> Config" where
  "rtc_config h peer signalURL =
     \<lparr>SignalURL_w = signalURL, LocalID_w = DeviceID_l (hub_creds h), PeerID_w = peer, STUN_w = STUN_b (hub_ice h),
      TURNURLs_w = TURNURLs_b (hub_ice h), TURNUser_w = TURNUser_b (hub_ice h), TURNPass_w = TURNPass_b (hub_ice h),
      Policy_w = NoPolicy\<rparr>"

definition ConnectWebRTC ::
    "crypto_lib \<Rightarrow> codec \<Rightarrow> time \<Rightarrow> (Config \<Rightarrow> endpoint option) \<Rightarrow> (Config \<Rightarrow> i64 \<Rightarrow> endpoint option) \<Rightarrow>
     string \<Rightarrow> string \<Rightarrow> bool \<Rightarrow> i64 \<Rightarrow> (AgentHub, agent_error, unit) go" where
  "ConnectWebRTC L J now rtc_dial rtc_accept peer signalURL asInitiator wait = (\<lambda>h.
     let wait = (if wait \<le> 0 then 60000000000 else wait);
         creds = hub_creds h; wcfg = rtc_config h peer signalURL;
         h1 = drop_session J ''reconnect'' peer h in
     case (if asInitiator then rtc_dial wcfg else rtc_accept wcfg wait) of
       None \<Rightarrow> (Inl WebRTCFailed, h1)
     | Some c \<Rightarrow>
       (case (if asInitiator then DialConn L J now (pinned creds peer) c else AcceptSession L J now (pinned creds peer) c) of
          (Inl e, _) \<Rightarrow> (Inl (P2P e), h1)
        | (Inr s, c') \<Rightarrow> (Inr (), add_session peer s c' h1)))"

definition accept_finish :: "codec \<Rightarrow> Session \<Rightarrow> endpoint \<Rightarrow> AgentHub \<Rightarrow> AgentHub" where
  "accept_finish J s c h =
     add_session (peerID s) s c
       (case map_of (hub_sessions h) (peerID s) of None \<Rightarrow> h | Some p \<Rightarrow> close_at J ''replaced'' p h)"

definition AcceptConn :: "crypto_lib \<Rightarrow> codec \<Rightarrow> time \<Rightarrow> endpoint \<Rightarrow> (AgentHub, agent_error, unit) go" where
  "AcceptConn L J now conn = (\<lambda>h.
     case AcceptSession L J now (pinned (hub_creds h) '''') conn of
       (Inl e, _) \<Rightarrow> (Inl (P2P e), h)
     | (Inr s, c) \<Rightarrow> (Inr (), accept_finish J s c h))"

definition deliver :: "InboxMsg \<Rightarrow> AgentHub \<Rightarrow> AgentHub" where
  "deliver msg h =
     (let inbox = hub_inbox h @ [msg];
          inbox = (if length inbox > 500 then drop (length inbox - 500) inbox else inbox)
      in h\<lparr>hub_inbox := inbox,
           hub_inboxCh := (if length (hub_inboxCh h) < 64 then hub_inboxCh h @ [msg] else hub_inboxCh h)\<rparr>)"

text \<open>One iteration of \<open>readLoop\<close> of the session at \<open>p\<close>; an error ends the loop.\<close>

definition read_step :: "crypto_lib \<Rightarrow> codec \<Rightarrow> time \<Rightarrow> nat \<Rightarrow> AgentHub \<Rightarrow> AgentHub" where
  "read_step L J now p h =
     (let peer = peerID (fst (hub_heap h ! p)) in
      case Recv L J (hub_heap h ! p) of
        (Inl e, sc) \<Rightarrow>
          (let h1 = h\<lparr>hub_heap := (hub_heap h)[p := sc]\<rparr>;
               h2 = (if map_of (hub_sessions h1) peer = Some p
                     then h1\<lparr>hub_sessions := AList.delete peer (hub_sessions h1)\<rparr> else h1)
           in (close_at J ''recv-err'' p h2)\<lparr>hub_loops := removeAll p (hub_loops h2)\<rparr>)
      | (Inr pt, sc) \<Rightarrow>
          deliver \<lparr>From_b = peer, Body_b = string_of pt, Raw_b = pt, Received_b = now\<rparr>
            (h\<lparr>hub_heap := (hub_heap h)[p := sc]\<rparr>))"

definition hub_Send :: "crypto_lib \<Rightarrow> codec \<Rightarrow> string \<Rightarrow> bytes \<Rightarrow> (AgentHub, agent_error, unit) go" where
  "hub_Send L J peer body = (\<lambda>h.
     case map_of (hub_sessions h) peer of
       None \<Rightarrow> (Inl (NoSession peer), h)
     | Some p \<Rightarrow> (case Send L J body (hub_heap h ! p) of
         (r, sc) \<Rightarrow> (map_sum P2P id r, h\<lparr>hub_heap := (hub_heap h)[p := sc]\<rparr>)))"

definition Inbox :: "bool \<Rightarrow> AgentHub \<Rightarrow> InboxMsg list \<times> AgentHub" where
  "Inbox clear h = (hub_inbox h, if clear then h\<lparr>hub_inbox := []\<rparr> else h)"

text \<open>
  \<open>WaitInbox\<close> takes the next value of the channel; \<open>ticks\<close> are the loop iterations that happen
  within the waiting time.
\<close>

fun WaitInbox :: "crypto_lib \<Rightarrow> codec \<Rightarrow> (time \<times> nat) list \<Rightarrow> AgentHub \<Rightarrow> InboxMsg option \<times> AgentHub" where
  "WaitInbox L J ticks h =
     (case hub_inboxCh h of
        m # ms \<Rightarrow> (Some m, h\<lparr>hub_inboxCh := ms\<rparr>)
      | [] \<Rightarrow> (case ticks of
            [] \<Rightarrow> (None, h)
          | (now, p) # rest \<Rightarrow>
              WaitInbox L J rest (if p \<in> set (hub_loops h) then read_step L J now p h else h)))"

declare WaitInbox.simps [simp del]

definition CloseAll :: "codec \<Rightarrow> AgentHub \<Rightarrow> AgentHub" where
  "CloseAll J h = fold (\<lambda>(i, p) h. (close_at J ''shutdown'' p h)\<lparr>hub_sessions := AList.delete i (hub_sessions h)\<rparr>)
     (hub_sessions h) h"

subsection \<open>localapi.go\<close>

record LocalAPI =
  DeviceID_o :: string
  Token_o :: string
  Status_o :: "(string \<times> string) list"

text \<open>What the routes read: the decoded bodies and the query of the inbox route.\<close>

datatype local_call =
    LHealth
  | LStatus
  | LPeersGet
  | LPeersPost "(string \<times> string) option"
  | LConnect "(string \<times> string) option"
  | LConnectWebRTC "(string \<times> string \<times> string \<times> int) option"
  | LSessions
  | LSend "(string \<times> string) option"
  | LInbox string string

datatype local_body =
    LError string
  | LAgentError agent_error
  | LHealthBody string
  | LStatusBody string "SessionInfo list" "(string \<times> string) list" "(string \<times> string) list"
  | LPeersBody "(string \<times> string) list"
  | LPeerBody string
  | LSessionBody string
  | LWebRTCBody string string
  | LSessionsBody "SessionInfo list"
  | LOK
  | LMessages "InboxMsg list"

text \<open>
  The world around the agent during a call: connections that dialling returns, the clock, the
  parser of durations, and the iterations of read loops that happen while the call waits.
\<close>

record local_env =
  env_now :: time
  env_dial :: "string \<Rightarrow> endpoint option"
  env_rtc_dial :: "Config \<Rightarrow> endpoint option"
  env_rtc_accept :: "Config \<Rightarrow> i64 \<Rightarrow> endpoint option"
  env_ParseDuration :: "string \<Rightarrow> i64 option"
  env_ticks :: "(time \<times> nat) list"

definition api_handleHealth :: "LocalAPI \<Rightarrow> AgentHub \<Rightarrow> (nat \<times> local_body) \<times> AgentHub" where
  "api_handleHealth a h = ((200, LHealthBody (DeviceID_o a)), h)"

definition api_handleStatus :: "LocalAPI \<Rightarrow> AgentHub \<Rightarrow> (nat \<times> local_body) \<times> AgentHub" where
  "api_handleStatus a h = ((200, LStatusBody (DeviceID_o a) (Sessions h) (Peers h) (Status_o a)), h)"

definition api_handlePeersGet :: "AgentHub \<Rightarrow> (nat \<times> local_body) \<times> AgentHub" where
  "api_handlePeersGet h = ((200, LPeersBody (Peers h)), h)"

definition api_handleSessions :: "AgentHub \<Rightarrow> (nat \<times> local_body) \<times> AgentHub" where
  "api_handleSessions h = ((200, LSessionsBody (Sessions h)), h)"

definition api_handlePeersPost :: "(string \<times> string) option \<Rightarrow> AgentHub \<Rightarrow> (nat \<times> local_body) \<times> AgentHub" where
  "api_handlePeersPost body h = (case body of
     None \<Rightarrow> ((400, LError ''bad_request''), h)
   | Some (deviceID, addr) \<Rightarrow>
       if deviceID = '''' \<or> addr = '''' then ((400, LError ''bad_request''), h)
       else ((200, LPeerBody deviceID), AddPeer deviceID addr h))"

definition api_handleConnect ::
    "crypto_lib \<Rightarrow> codec \<Rightarrow> local_env \<Rightarrow> (string \<times> string) option \<Rightarrow> AgentHub \<Rightarrow> (nat \<times> local_body) \<times> AgentHub" where
  "api_handleConnect L J w body h = (case body of
     None \<Rightarrow> ((400, LError ''bad_request''), h)
   | Some (deviceID, addr) \<Rightarrow>
       if deviceID = '''' then ((400, LError ''bad_request''), h)
       else (case Connect L J (env_now w) (env_dial w) deviceID addr h of
           (Inl e, h') \<Rightarrow> ((502, LAgentError e), h')
         | (Inr _, h') \<Rightarrow> ((200, LSessionBody deviceID), h')))"

definition api_handleConnectWebRTC ::
    "crypto_lib \<Rightarrow> codec \<Rightarrow> local_env \<Rightarrow> (string \<times> string \<times> string \<times> int) option \<Rightarrow> AgentHub
     \<Rightarrow> (nat \<times> local_body) \<times> AgentHub" where
  "api_handleConnectWebRTC L J w body h = (case body of
     None \<Rightarrow> ((400, LError ''bad_request''), h)
   | Some (deviceID, signalURL, role0, waitSec) \<Rightarrow>
       if deviceID = '''' \<or> signalURL = '''' then ((400, LError ''bad_request''), h)
       else
         let role = (if role0 = '''' then ''dial'' else role0);
             wait = wrap64 (waitSec * 1000000000);
             wait = (if wait \<le> 0 then 60000000000 else wait);
             asDial = (role \<noteq> ''accept'')
         in (case ConnectWebRTC L J (env_now w) (env_rtc_dial w) (env_rtc_accept w) deviceID signalURL asDial wait h of
             (Inl e, h') \<Rightarrow> ((502, LAgentError e), h')
           | (Inr _, h') \<Rightarrow> ((200, LWebRTCBody deviceID role), h')))"

definition api_handleSend ::
    "crypto_lib \<Rightarrow> codec \<Rightarrow> (string \<times> string) option \<Rightarrow> AgentHub \<Rightarrow> (nat \<times> local_body) \<times> AgentHub" where
  "api_handleSend L J body h = (case body of
     None \<Rightarrow> ((400, LError ''bad_request''), h)
   | Some (to, text) \<Rightarrow>
       if to = '''' then ((400, LError ''bad_request''), h)
       else (case hub_Send L J to (bytes_of text) h of
           (Inl e, h') \<Rightarrow> ((502, LAgentError e), h')
         | (Inr _, h') \<Rightarrow> ((200, LOK), h')))"

definition api_handleInbox ::
    "crypto_lib \<Rightarrow> codec \<Rightarrow> local_env \<Rightarrow> string \<Rightarrow> string \<Rightarrow> AgentHub \<Rightarrow> (nat \<times> local_body) \<times> AgentHub" where
  "api_handleInbox L J w wait clear h =
     (if wait \<noteq> '''' then
        (let d = (case env_ParseDuration w wait of None \<Rightarrow> 5000000000 | Some d \<Rightarrow> d);
             ticks = takeWhile (\<lambda>(t, p). t < env_now w + d) (env_ticks w)
         in case WaitInbox L J ticks h of
              (Some m, h') \<Rightarrow> ((200, LMessages [m]), h')
            | (None, h') \<Rightarrow> ((200, LMessages []), h'))
      else (case Inbox (clear \<noteq> ''0'') h of (ms, h') \<Rightarrow> ((200, LMessages ms), h')))"

definition local_route ::
    "crypto_lib \<Rightarrow> codec \<Rightarrow> local_env \<Rightarrow> LocalAPI \<Rightarrow> local_call \<Rightarrow> AgentHub \<Rightarrow> (nat \<times> local_body) \<times> AgentHub" where
  "local_route L J w a c h = (case c of
     LHealth \<Rightarrow> api_handleHealth a h
   | LStatus \<Rightarrow> api_handleStatus a h
   | LPeersGet \<Rightarrow> api_handlePeersGet h
   | LPeersPost b \<Rightarrow> api_handlePeersPost b h
   | LConnect b \<Rightarrow> api_handleConnect L J w b h
   | LConnectWebRTC b \<Rightarrow> api_handleConnectWebRTC L J w b h
   | LSessions \<Rightarrow> api_handleSessions h
   | LSend b \<Rightarrow> api_handleSend L J b h
   | LInbox wait clear \<Rightarrow> api_handleInbox L J w wait clear h)"

definition auth ::
    "LocalAPI \<Rightarrow> string \<Rightarrow> (AgentHub \<Rightarrow> (nat \<times> local_body) \<times> AgentHub) \<Rightarrow> AgentHub \<Rightarrow> (nat \<times> local_body) \<times> AgentHub" where
  "auth a authorization route h =
     (if Token_o a \<noteq> '''' \<and> authorization \<noteq> ''Bearer '' @ Token_o a then ((401, LError ''unauthorized''), h)
      else route h)"

definition local_serve ::
    "crypto_lib \<Rightarrow> codec \<Rightarrow> local_env \<Rightarrow> LocalAPI \<Rightarrow> string \<Rightarrow> local_call \<Rightarrow> AgentHub \<Rightarrow> (nat \<times> local_body) \<times> AgentHub" where
  "local_serve L J w a authorization c h = auth a authorization (local_route L J w a c) h"

subsection \<open>Interleaved operations\<close>

text \<open>
  One step per section under the lock, per receive of a read loop and per channel operation; the
  handshakes run between such sections on connections of their own. The network may replace the
  connection of a session by any other at any moment.
\<close>

inductive agent_step :: "crypto_lib \<Rightarrow> codec \<Rightarrow> AgentHub \<Rightarrow> AgentHub \<Rightarrow> bool" for L J where
  set_ice: "agent_step L J h (SetICE i h)"
| set_creds: "agent_step L J h (SetCreds cr h)"
| load_peers: "agent_step L J h (LoadPeers ps h)"
| connect_begin: "connect_begin J peer addr h = (a, cr, h') \<Longrightarrow> agent_step L J h h'"
| rtc_begin: "agent_step L J h (drop_session J ''reconnect'' peer h)"
| connect_end: "peer \<noteq> '''' \<Longrightarrow> Dial L J now d (pinned cr peer) = (Inr s, Some c) \<Longrightarrow>
    agent_step L J h (add_session peer s c h)"
| rtc_dial_end: "peer \<noteq> '''' \<Longrightarrow> DialConn L J now (pinned cr peer) d = (Inr s, c) \<Longrightarrow>
    agent_step L J h (add_session peer s c h)"
| rtc_accept_end: "peer \<noteq> '''' \<Longrightarrow> AcceptSession L J now (pinned cr peer) d = (Inr s, c) \<Longrightarrow>
    agent_step L J h (add_session peer s c h)"
| accept_end: "AcceptSession L J now (pinned cr '''') d = (Inr s, c) \<Longrightarrow> agent_step L J h (accept_finish J s c h)"
| read: "p \<in> set (hub_loops h) \<Longrightarrow> agent_step L J h (read_step L J now p h)"
| send: "agent_step L J h (snd (hub_Send L J peer body h))"
| inbox: "agent_step L J h (snd (Inbox clear h))"
| inbox_ch: "hub_inboxCh h = m # ms \<Longrightarrow> agent_step L J h (h\<lparr>hub_inboxCh := ms\<rparr>)"
| close_all: "agent_step L J h (CloseAll J h)"
| network: "hub_heap h ! p = (s, c) \<Longrightarrow> agent_step L J h (h\<lparr>hub_heap := (hub_heap h)[p := (s, c')]\<rparr>)"

inductive agent_reachable :: "crypto_lib \<Rightarrow> codec \<Rightarrow> AgentHub \<Rightarrow> bool" for L J where
  start: "agent_reachable L J (NewAgentHub cr)"
| step: "agent_reachable L J h \<Longrightarrow> agent_step L J h h' \<Longrightarrow> agent_reachable L J h'"

text \<open>
  Every registered session is a session with the peer it is registered for and has its reader;
  the two message buffers are within their bounds.
\<close>

definition agent_inv :: "AgentHub \<Rightarrow> bool" where
  "agent_inv h \<longleftrightarrow>
     (\<forall>i p. map_of (hub_sessions h) i = Some p \<longrightarrow>
        p < length (hub_heap h) \<and> peerID (fst (hub_heap h ! p)) = i \<and> p \<in> set (hub_loops h)) \<and>
     (\<forall>p \<in> set (hub_loops h). p < length (hub_heap h)) \<and>
     length (hub_inbox h) \<le> 500 \<and> length (hub_inboxCh h) \<le> 64"

section \<open>Lemmas\<close>

lemmas local_reads = api_handleHealth_def api_handleStatus_def api_handlePeersGet_def api_handleSessions_def

subsection \<open>Sessions keep their names\<close>

lemma CloseSession_peer [simp]: "peerID (fst (CloseSession J r sc)) = peerID (fst sc)"
  by (cases sc) (simp add: CloseSession_def)

lemma lift_conn_fst: "fst (snd (lift_conn m (s, c))) = s"
  by (simp add: lift_conn_def split: prod.split)

lemma Send_peer [simp]: "peerID (fst (snd (Send L J b sc))) = peerID (fst sc)"
  by (cases sc) (auto simp: Send_def Let_def gbind_def pure_crypto_def lift_conn_fst split: prod.splits sum.splits)

lemma recv_data_peer: "peerID (fst (snd (recv_data L msg (s, c)))) = peerID s"
  by (simp add: recv_data_def Let_def split: prod.split bool.split)

lemma Recv_peer [simp]: "peerID (fst (snd (Recv L J sc))) = peerID (fst sc)"
proof (cases sc)
  case (Pair s c)
  obtain r c' where "ReadFrame c = (r, c')" by fastforce
  then show ?thesis
    unfolding Pair
    by (cases r) (auto simp: Recv_def gbind_def lift_conn_def recv_data_peer split: option.splits)
qed

subsection \<open>Handshakes honour the pin\<close>

lemma handshakeInitiator_pin:
  assumes "handshakeInitiator L J now (pinned cr peer) d = (Inr s, c)" and "peer \<noteq> ''''"
  shows "peerID s = peer"
  using assms
  by (auto simp: handshakeInitiator_def Let_def pinned_def new_session_def
      elim!: gbind_InrE split: prod.splits if_splits)

lemma handshakeResponder_pin:
  assumes "handshakeResponder L J now (pinned cr peer) d = (Inr s, c)" and "peer \<noteq> ''''"
  shows "peerID s = peer"
  using assms
  by (auto simp: handshakeResponder_def Let_def pinned_def new_session_def
      elim!: gbind_InrE split: prod.splits if_splits)

subsection \<open>The invariant\<close>

lemma agent_invD:
  assumes "agent_inv h" "map_of (hub_sessions h) i = Some p"
  shows "p < length (hub_heap h)" "peerID (fst (hub_heap h ! p)) = i" "p \<in> set (hub_loops h)"
  using assms by (auto simp: agent_inv_def)

text \<open>Writing one session back, or closing it, keeps the invariant; so does forgetting a session.\<close>

lemma agent_inv_heap:
  assumes "agent_inv h" "peerID (fst sc) = peerID (fst (hub_heap h ! p))"
  shows "agent_inv (h\<lparr>hub_heap := (hub_heap h)[p := sc]\<rparr>)"
proof -
  have "peerID (fst ((hub_heap h)[p := sc] ! q)) = peerID (fst (hub_heap h ! q))" for q
    using assms(2) by (cases "p < length (hub_heap h)") (simp_all add: nth_list_update list_update_beyond)
  then show ?thesis using assms(1) by (simp add: agent_inv_def)
qed

lemma agent_inv_close_at: "agent_inv h \<Longrightarrow> agent_inv (close_at J r p h)"
  unfolding close_at_def by (rule agent_inv_heap) simp_all

lemma agent_inv_delete: "agent_inv h \<Longrightarrow> agent_inv (h\<lparr>hub_sessions := AList.delete i (hub_sessions h)\<rparr>)"
  by (auto simp: agent_inv_def split: if_splits)

lemma close_at_sel [simp]:
  "hub_sessions (close_at J r p h) = hub_sessions h" "hub_loops (close_at J r p h) = hub_loops h"
  "length (hub_heap (close_at J r p h)) = length (hub_heap h)"
  by (simp_all add: close_at_def)

lemma agent_inv_drop_session: "agent_inv h \<Longrightarrow> agent_inv (drop_session J r i h)"
  using agent_inv_delete [OF agent_inv_close_at, of h i J r] by (auto simp: drop_session_def split: option.split)

lemma agent_inv_add_session: "agent_inv h \<Longrightarrow> peerID s = i \<Longrightarrow> agent_inv (add_session i s c h)"
  by (auto simp: agent_inv_def add_session_def Let_def nth_append less_SucI split: if_splits)

lemma agent_inv_AddPeer [simp]: "agent_inv (AddPeer i a h) = agent_inv h"
  by (simp add: agent_inv_def AddPeer_def)

lemma agent_inv_Set [simp]: "agent_inv (SetICE i h) = agent_inv h" "agent_inv (SetCreds cr h) = agent_inv h"
  by (simp_all add: agent_inv_def SetICE_def SetCreds_def)

lemma agent_inv_LoadPeers: "agent_inv h \<Longrightarrow> agent_inv (LoadPeers ps h)"
  by (induction ps h rule: LoadPeers.induct) simp_all

lemma agent_inv_deliver: "agent_inv h \<Longrightarrow> agent_inv (deliver m h)"
  by (auto simp: agent_inv_def deliver_def Let_def)

lemma agent_inv_stop:
  "agent_inv h \<Longrightarrow> \<forall>j. map_of (hub_sessions h) j \<noteq> Some p \<Longrightarrow>
     agent_inv (h\<lparr>hub_loops := removeAll p (hub_loops h)\<rparr>)"
  by (auto simp: agent_inv_def)

lemma agent_inv_read_step:
  assumes inv: "agent_inv h"
  shows "agent_inv (read_step L J now p h)"
proof -
  obtain r sc where Pair: "Recv L J (hub_heap h ! p) = (r, sc)" by (metis surj_pair)
  let ?h = "h\<lparr>hub_heap := (hub_heap h)[p := sc]\<rparr>" and ?i = "peerID (fst (hub_heap h ! p))"
  have name: "peerID (fst sc) = ?i" using Recv_peer [of L J "hub_heap h ! p"] Pair by simp
  have 1: "agent_inv ?h" by (rule agent_inv_heap [OF inv name])
  show ?thesis
  proof (cases r)
    case (Inr pt)
    then show ?thesis using Pair agent_inv_deliver [OF 1] by (simp add: read_step_def Let_def)
  next
    case (Inl e)
    let ?g = "if map_of (hub_sessions ?h) ?i = Some p
      then ?h\<lparr>hub_sessions := AList.delete ?i (hub_sessions ?h)\<rparr> else ?h"
    have 2: "agent_inv ?g" using 1 agent_inv_delete [OF 1, of ?i] by simp
    have "map_of (hub_sessions ?g) j \<noteq> Some p" for j
      using agent_invD(2) [OF inv, of j p] by (auto split: if_splits)
    then have "agent_inv ((close_at J ''recv-err'' p ?g)\<lparr>hub_loops := removeAll p (hub_loops ?g)\<rparr>)"
      using agent_inv_stop [OF agent_inv_close_at [OF 2, of J "''recv-err''" p], of p] by (simp only: close_at_sel) blast
    then show ?thesis using Pair Inl by (simp add: read_step_def Let_def)
  qed
qed

lemma agent_inv_CloseAll:
  assumes "agent_inv h"
  shows "agent_inv (CloseAll J h)"
proof -
  have "agent_inv (fold (\<lambda>(i, p) h. (close_at J ''shutdown'' p h)\<lparr>hub_sessions := AList.delete i (hub_sessions h)\<rparr>) xs h)"
    if "agent_inv h" for xs h
    using that
  proof (induction xs arbitrary: h)
    case (Cons x xs)
    then show ?case
      using agent_inv_delete [OF agent_inv_close_at [OF Cons.prems]] by (simp add: split_beta)
  qed simp
  then show ?thesis using assms unfolding CloseAll_def by blast
qed

lemma agent_inv_step:
  assumes "agent_step L J h h'" and inv: "agent_inv h"
  shows "agent_inv h'"
  using assms(1)
proof (cases rule: agent_step.cases)
  case (connect_begin peer addr a cr)
  then show ?thesis
    using inv by (auto simp: connect_begin_def Let_def split: if_splits intro: agent_inv_drop_session)
next
  case (connect_end peer now d cr s c)
  then show ?thesis
    using inv handshakeInitiator_pin
    by (auto simp: Dial_def split: option.splits prod.splits sum.splits intro!: agent_inv_add_session)
next
  case (rtc_dial_end peer now cr d s c)
  then show ?thesis
    using inv handshakeInitiator_pin
    by (auto simp: DialConn_def split: prod.splits sum.splits intro!: agent_inv_add_session)
next
  case (rtc_accept_end peer now cr d s c)
  then show ?thesis
    using inv handshakeResponder_pin by (auto simp: AcceptSession_def intro!: agent_inv_add_session)
next
  case (accept_end now cr d s c)
  then show ?thesis
    using inv by (auto simp: accept_finish_def split: option.splits intro!: agent_inv_add_session agent_inv_close_at)
next
  case (send peer body)
  then show ?thesis
    using inv by (auto simp: hub_Send_def split_beta split: option.splits intro!: agent_inv_heap)
next
  case (network p s c c')
  then show ?thesis using agent_inv_heap [OF inv, of "(s, c')" p] by simp
next
  case (inbox_ch m ms)
  then show ?thesis using inv by (simp add: agent_inv_def)
next
  case (inbox clear)
  then show ?thesis using inv by (simp add: agent_inv_def Inbox_def)
qed (use inv in \<open>simp_all add: agent_inv_LoadPeers agent_inv_drop_session agent_inv_read_step agent_inv_CloseAll\<close>)

lemma agent_reachable_inv: "agent_reachable L J h \<Longrightarrow> agent_inv h"
proof (induction rule: agent_reachable.induct)
  case (start cr)
  show ?case by (simp add: agent_inv_def NewAgentHub_def)
qed (rule agent_inv_step)

subsection \<open>The routes are runs of steps\<close>

lemma Connect_reachable:
  assumes "agent_reachable L J h" and "peer \<noteq> ''''" and "Connect L J now dialed peer addr h = (r, h')"
  shows "agent_reachable L J h'"
proof -
  obtain a cr h1 where b: "connect_begin J peer addr h = (a, cr, h1)" by (metis surj_pair)
  have 1: "agent_reachable L J h1"
    using assms(1) agent_step.connect_begin [OF b] by (rule agent_reachable.step)
  consider "h' = h1" | s c where "Dial L J now (dialed a) (pinned cr peer) = (Inr s, Some c)" "h' = add_session peer s c h1"
    using assms(3) b by (auto simp: Connect_def split: if_splits prod.splits sum.splits option.splits)
  then show ?thesis
    using 1 agent_reachable.step [OF 1 agent_step.connect_end [OF assms(2)]] by cases auto
qed

lemma ConnectWebRTC_reachable:
  assumes "agent_reachable L J h" and "peer \<noteq> ''''"
    and "ConnectWebRTC L J now rd ra peer url ini wait h = (r, h')"
  shows "agent_reachable L J h'"
proof -
  let ?h = "drop_session J ''reconnect'' peer h" and ?cfg = "pinned (hub_creds h) peer"
  have 1: "agent_reachable L J ?h" by (rule agent_reachable.step [OF assms(1) rtc_begin])
  consider "h' = ?h" | d s c where "DialConn L J now ?cfg d = (Inr s, c)" "h' = add_session peer s c ?h"
    | d s c where "AcceptSession L J now ?cfg d = (Inr s, c)" "h' = add_session peer s c ?h"
    using assms(3) by (auto simp: ConnectWebRTC_def Let_def split: option.splits prod.splits sum.splits if_splits)
  then show ?thesis
  proof cases
    case 2
    then show ?thesis using agent_reachable.step [OF 1 rtc_dial_end [OF assms(2)]] by simp
  next
    case 3
    then show ?thesis using agent_reachable.step [OF 1 rtc_accept_end [OF assms(2)]] by simp
  qed (use 1 in simp)
qed

lemma WaitInbox_reachable:
  "agent_reachable L J h \<Longrightarrow> agent_reachable L J (snd (WaitInbox L J ticks h))"
proof (induction L J ticks h rule: WaitInbox.induct)
  case (1 L J ticks h)
  show ?case
  proof (cases "hub_inboxCh h")
    case (Cons m ms)
    then show ?thesis
      using agent_reachable.step [OF 1(2) inbox_ch [OF Cons]] by (subst WaitInbox.simps) simp
  next
    case Nil
    show ?thesis
    proof (cases ticks)
      case tNil: Nil
      then show ?thesis using 1(2) Nil by (subst WaitInbox.simps) simp
    next
      case (Cons x rest)
      obtain now p where x: "x = (now, p)" by (cases x)
      have "agent_reachable L J (if p \<in> set (hub_loops h) then read_step L J now p h else h)"
        using 1(2) agent_reachable.step [OF 1(2) read] by simp
      then have "agent_reachable L J (snd (WaitInbox L J rest (if p \<in> set (hub_loops h) then read_step L J now p h else h)))"
        using 1(1) [OF Nil Cons x [symmetric]] by simp
      then show ?thesis using Nil Cons x by (subst WaitInbox.simps) simp
    qed
  qed
qed

lemma AddPeer_LoadPeers: "i \<noteq> '''' \<Longrightarrow> a \<noteq> '''' \<Longrightarrow> AddPeer i a h = LoadPeers [(i, a)] h"
  by simp

lemma local_serve_reachable:
  assumes r: "agent_reachable L J h" and run: "local_serve L J w a tok c h = (resp, h')"
  shows "agent_reachable L J h'"
proof (cases "Token_o a \<noteq> '''' \<and> tok \<noteq> ''Bearer '' @ Token_o a")
  case True
  then show ?thesis using r run by (auto simp: local_serve_def auth_def)
next
  case False
  then have run: "local_route L J w a c h = (resp, h')" using run by (auto simp: local_serve_def auth_def)
  show ?thesis
  proof (cases c)
    case (LPeersPost b)
    then show ?thesis
      using run r agent_reachable.step [OF r load_peers]
      by (auto simp: local_route_def api_handlePeersPost_def AddPeer_LoadPeers simp del: LoadPeers.simps
          split: option.splits prod.splits if_splits)
  next
    case (LConnect b)
    then show ?thesis
      using run r Connect_reachable [OF r]
      by (auto simp: local_route_def api_handleConnect_def split: option.splits prod.splits sum.splits if_splits)
  next
    case (LConnectWebRTC b)
    then show ?thesis
      using run r ConnectWebRTC_reachable [OF r]
      by (auto simp: local_route_def api_handleConnectWebRTC_def Let_def split: option.splits prod.splits sum.splits if_splits)
  next
    case (LSend b)
    have "agent_reachable L J (snd (hub_Send L J i m h))" for i m
      by (rule agent_reachable.step [OF r send])
    then show ?thesis
      using LSend run r
      by (auto simp: local_route_def api_handleSend_def split: option.splits prod.splits sum.splits if_splits)
        (metis snd_conv)+
  next
    case (LInbox wait clear)
    show ?thesis
    proof (cases "wait = ''''")
      case True
      have "agent_reachable L J (snd (Inbox (clear \<noteq> ''0'') h))" by (rule agent_reachable.step [OF r inbox])
      then show ?thesis
        using LInbox run True by (auto simp: local_route_def api_handleInbox_def split: prod.splits)
    next
      case False
      define ts where "ts = takeWhile (\<lambda>(t, p). t < env_now w +
        (case env_ParseDuration w wait of None \<Rightarrow> 5000000000 | Some d \<Rightarrow> d)) (env_ticks w)"
      have "h' = snd (WaitInbox L J ts h)"
        using LInbox run False
        by (auto simp: local_route_def api_handleInbox_def Let_def ts_def split: prod.splits option.splits)
      then show ?thesis using WaitInbox_reachable [OF r, of ts] by simp
    qed
  qed (use r run in \<open>auto simp: local_route_def local_reads\<close>)
qed

lemma read_step_Inr:
  assumes "Recv L J (hub_heap h ! p) = (Inr pt, sc)"
  shows "read_step L J now p h =
    deliver \<lparr>From_b = peerID (fst (hub_heap h ! p)), Body_b = string_of pt, Raw_b = pt, Received_b = now\<rparr>
      (h\<lparr>hub_heap := (hub_heap h)[p := sc]\<rparr>)"
  using assms by (simp add: read_step_def Let_def)

lemma deliver_inbox:
  "hub_inbox (deliver m h) = (if length (hub_inbox h) < 500 then hub_inbox h @ [m] else drop (length (hub_inbox h) - 499) (hub_inbox h) @ [m])"
  "hub_inboxCh h = [] \<Longrightarrow> hub_inboxCh (deliver m h) = [m]"
  by (auto simp: deliver_def Let_def Suc_diff_le)

lemma m_in_delivered: "m \<in> set (hub_inbox (deliver m h))"
  by (simp add: deliver_inbox)

lemma map_sum_not_PeerClosed: "map_sum CryptoError id x \<noteq> Inl (PeerClosed reason)"
  by (cases x) simp_all

lemma Recv_PeerClosed:
  assumes "Recv L J (s, c) = (Inl (PeerClosed reason), (s', c'))"
  shows "closed s'"
proof -
  obtain r c1 where rf: "ReadFrame c = (r, c1)" by fastforce
  have no: "r \<noteq> Inl (PeerClosed x)" for x
    using rf by (auto simp: ReadFrame_def gbind_def io_ReadFull_def Let_def split: if_splits)
  show ?thesis
    using assms rf no
    by (cases r) (auto simp: Recv_def gbind_def lift_conn_def recv_data_def Let_def map_sum_not_PeerClosed
        split: if_splits option.splits prod.splits bool.splits sum.splits)
qed

definition demo_hub :: "Session \<Rightarrow> endpoint \<Rightarrow> AgentHub" where
  "demo_hub s c = (NewAgentHub (Local alice))\<lparr>hub_sessions := [(peerID s, 0)], hub_heap := [(s, c)], hub_loops := [0]\<rparr>"

lemma demo_hub_sel [simp]:
  "hub_sessions (demo_hub s c) = [(peerID s, 0)]" "hub_heap (demo_hub s c) = [(s, c)]" "hub_loops (demo_hub s c) = [0]"
  "hub_inbox (demo_hub s c) = []" "hub_inboxCh (demo_hub s c) = []"
  by (simp_all add: demo_hub_def NewAgentHub_def)

definition idle_env :: local_env where
  "idle_env = \<lparr>env_now = 0, env_dial = \<lambda>_. None, env_rtc_dial = \<lambda>_. None, env_rtc_accept = \<lambda>_ _. None,
     env_ParseDuration = \<lambda>_. None, env_ticks = []\<rparr>"

text \<open>The two ends of a session, and what arrives at one of them.\<close>

abbreviation end_a :: Session where
  "end_a \<equiv> new_session ''alice'' ''bob'' 100 (replicate 32 7) []"

abbreviation end_b :: Session where
  "end_b \<equiv> new_session ''bob'' ''alice'' 100 [] (replicate 32 7)"

subsection \<open>Only \<open>SetCreds\<close> changes the credentials\<close>

lemma creds_kept [simp]:
  "hub_creds (AddPeer d a h) = hub_creds h" "hub_creds (SetICE i h) = hub_creds h" "hub_creds (LoadPeers ps h) = hub_creds h"
  "hub_creds (close_at J r p h) = hub_creds h" "hub_creds (drop_session J r peer h) = hub_creds h"
  "hub_creds (add_session peer s c h) = hub_creds h" "hub_creds (accept_finish J s c h) = hub_creds h"
  "hub_creds (deliver m h) = hub_creds h" "hub_creds (snd (hub_Send L J peer b h)) = hub_creds h" "hub_creds (snd (Inbox cl h)) = hub_creds h"
proof -
  show "hub_creds (LoadPeers ps h) = hub_creds h" by (induction ps h rule: LoadPeers.induct) (simp_all add: AddPeer_def)
qed (simp_all add: AddPeer_def SetICE_def close_at_def drop_session_def add_session_def accept_finish_def deliver_def hub_Send_def
    Inbox_def Let_def split: option.split prod.split)

lemma creds_read_step [simp]: "hub_creds (read_step L J now p h) = hub_creds h"
  by (simp add: read_step_def Let_def split: prod.split sum.split)

lemma creds_WaitInbox [simp]: "hub_creds (snd (WaitInbox L J ticks h)) = hub_creds h"
  by (induction L J ticks h rule: WaitInbox.induct) (subst WaitInbox.simps, auto split: list.split)

lemma creds_Connect: "hub_creds (snd (Connect L J now dialed peer addr h)) = hub_creds h"
  by (auto simp: Connect_def connect_begin_def Let_def split: prod.split sum.split option.split)

lemma creds_ConnectWebRTC: "hub_creds (snd (ConnectWebRTC L J now rd ra peer url ini wait h)) = hub_creds h"
  by (auto simp: ConnectWebRTC_def Let_def split: prod.split sum.split option.split)

lemma creds_keptD:
  "Connect L J now dialed peer addr h = (r, h') \<Longrightarrow> hub_creds h' = hub_creds h"
  "ConnectWebRTC L J now rd ra peer url ini wait h = (r, h') \<Longrightarrow> hub_creds h' = hub_creds h"
  "hub_Send L J peer b h = (r, h') \<Longrightarrow> hub_creds h' = hub_creds h"
  "Inbox cl h = (ms, h') \<Longrightarrow> hub_creds h' = hub_creds h"
  "WaitInbox L J ticks h = (m, h') \<Longrightarrow> hub_creds h' = hub_creds h"
  using creds_Connect creds_ConnectWebRTC creds_kept(9,10) creds_WaitInbox by (metis snd_conv)+

lemma creds_local_serve: "hub_creds (snd (local_serve L J w a tok c h)) = hub_creds h"
proof -
  have "hub_creds (snd (local_route L J w a c h)) = hub_creds h"
    by (cases c) (auto simp: local_route_def local_reads api_handlePeersPost_def api_handleConnect_def api_handleConnectWebRTC_def
        api_handleSend_def api_handleInbox_def Let_def dest: creds_keptD split: option.split prod.split sum.split)
  then show ?thesis by (simp add: local_serve_def auth_def)
qed

lemma creds_CloseAll: "hub_creds (CloseAll J h) = hub_creds h"
proof -
  have "hub_creds (fold (\<lambda>(i, p) h. (close_at J ''shutdown'' p h)\<lparr>hub_sessions := AList.delete i (hub_sessions h)\<rparr>) ss h) = hub_creds h" for ss
    by (induction ss arbitrary: h) (auto simp: close_at_def)
  then show ?thesis by (simp add: CloseAll_def)
qed

text \<open>After \<open>CloseAll\<close> no session is registered.\<close>

lemma CloseAll_empty: "hub_sessions (CloseAll J h) = []"
proof -
  have "hub_sessions (fold (\<lambda>(i, p) h. (close_at J ''shutdown'' p h)\<lparr>hub_sessions := AList.delete i (hub_sessions h)\<rparr>) ss h) =
      fold (\<lambda>(i, p). AList.delete i) ss (hub_sessions h)" for ss
    by (induction ss arbitrary: h) (auto simp: close_at_def)
  moreover have "fold (\<lambda>(i, p). AList.delete i) ss xs = filter (\<lambda>(i, p). i \<notin> fst ` set ss) xs" for ss and xs :: "(string \<times> nat) list"
    by (induction ss arbitrary: xs) (auto simp: AList.delete_eq split_beta fun_eq_iff intro!: arg_cong [of _ _ "\<lambda>P. filter P _"])
  ultimately have "hub_sessions (CloseAll J h) = filter (\<lambda>(i, p). i \<notin> fst ` set (hub_sessions h)) (hub_sessions h)"
    by (simp add: CloseAll_def)
  then show ?thesis by (simp add: filter_empty_conv split_beta)
qed

subsection \<open>New sessions\<close>

lemma drop_session_length [simp]: "length (hub_heap (drop_session J r i h)) = length (hub_heap h)"
  by (simp add: drop_session_def split: option.split)

lemma AddPeer_heap [simp]: "hub_heap (AddPeer i a h) = hub_heap h"
  by (simp add: AddPeer_def)

lemma add_session_sel [simp]:
  "map_of (hub_sessions (add_session i s c h)) i = Some (length (hub_heap h))"
  "hub_heap (add_session i s c h) ! length (hub_heap h) = (s, c)" "length (hub_heap (add_session i s c h)) = Suc (length (hub_heap h))"
  "length (hub_heap h) \<in> set (hub_loops (add_session i s c h))" "hub_inbox (add_session i s c h) = hub_inbox h"
  by (simp_all add: add_session_def Let_def)

lemma accept_finish_sel:
  "map_of (hub_sessions (accept_finish J s c h)) (peerID s) = Some (length (hub_heap h))"
  "hub_heap (accept_finish J s c h) ! length (hub_heap h) = (s, c)"
  "length (hub_heap h) \<in> set (hub_loops (accept_finish J s c h))" "hub_inbox (accept_finish J s c h) = hub_inbox h"
  "length (hub_heap (accept_finish J s c h)) = Suc (length (hub_heap h))"
proof -
  define g where "g = (case map_of (hub_sessions h) (peerID s) of None \<Rightarrow> h | Some p \<Rightarrow> close_at J ''replaced'' p h)"
  have g: "length (hub_heap g) = length (hub_heap h)" "hub_inbox g = hub_inbox h"
    by (simp_all add: g_def close_at_def split: option.split)
  have f: "accept_finish J s c h = add_session (peerID s) s c g" by (simp add: accept_finish_def g_def)
  show "map_of (hub_sessions (accept_finish J s c h)) (peerID s) = Some (length (hub_heap h))"
    "hub_heap (accept_finish J s c h) ! length (hub_heap h) = (s, c)"
    "length (hub_heap h) \<in> set (hub_loops (accept_finish J s c h))" "hub_inbox (accept_finish J s c h) = hub_inbox h"
    "length (hub_heap (accept_finish J s c h)) = Suc (length (hub_heap h))"
    unfolding f g(1) [symmetric] by (simp_all add: g(2))
qed

section \<open>Properties\<close>



text \<open>
  A message goes from one agent to the other: when both hubs hold the two ends of a session,
  sending text to the peer by name succeeds, and once the bytes it wrote arrive, the next
  iteration of the peer's read loop puts exactly that text, under the sender's name, at the end
  of its inbox.
\<close>

theorem agent_message_arrives:
  assumes lib: "aead_correct L" "aead_overhead L" "codec_ok J" "codec_fits J"
    and ends: "\<not> closed a" "\<not> closed b" "length (sendKey a) = 32" "recvKey b = sendKey a"
      "epochID b = epochID a" "peerID b = localID a" "localID b = peerID a"
      "replay_ok (replay b)" "replay_ahead (replay b) (nextSeq a)" "unat (nextSeq a) + 1 < 2 ^ 63"
    and hubA: "map_of (hub_sessions A) (peerID a) = Some p" "p < length (hub_heap A)"
      "hub_heap A ! p = (a, open_end r [] n q)" "2 \<le> n"
    and size: "length body \<le> 32000"
  shows "\<exists>A' wire. hub_Send L J (peerID a) body A = (Inr (), A') \<and> snd (hub_heap A' ! p) = open_end r wire (n - 2) q \<and>
    (\<forall>B j rest t' n' q' now.
      hub_heap B ! j = (b, open_end (wire @ rest) t' n' q') \<and> length (hub_inbox B) < 500 \<longrightarrow>
      hub_inbox (read_step L J now j B) = hub_inbox B @
        [\<lparr>From_b = localID a, Body_b = string_of body, Raw_b = body, Received_b = now\<rparr>])"
proof -
  obtain wire a' b' where w:
    "send_all L J [body] (a, open_end r [] n q) = (Inr (), (a', open_end r ([] @ wire) (n - 2 * length [body]) q))"
    "\<forall>rest t' n' q'. recv_n L J (length [body]) (b, open_end (wire @ rest) t' n' q') =
       (Inr [body], (b', open_end rest t' n' q'))"
    using delivery [OF lib ends(1-7), of "[body]" n r "[]" q] ends(8-10) hubA(4) size by fastforce
  have s: "Send L J body (a, open_end r [] n q) = (Inr (), (a', open_end r wire (n - 2) q))"
    using w(1) by (simp add: gbind_def gret_def split: prod.splits sum.splits)
  have recv: "Recv L J (b, open_end (wire @ rest) t' n' q') = (Inr body, (b', open_end rest t' n' q'))" for rest t' n' q'
    using w(2) [rule_format, of rest t' n' q']
    by (auto simp: gbind_def gret_def split: prod.splits sum.splits)
  have "hub_Send L J (peerID a) body A = (Inr (), A\<lparr>hub_heap := (hub_heap A)[p := (a', open_end r wire (n - 2) q)]\<rparr>)"
    using hubA s by (simp add: hub_Send_def)
  moreover have "hub_inbox (read_step L J now j B) = hub_inbox B @
      [\<lparr>From_b = localID a, Body_b = string_of body, Raw_b = body, Received_b = now\<rparr>]"
    if "hub_heap B ! j = (b, open_end (wire @ rest) t' n' q')" "length (hub_inbox B) < 500" for B j rest t' n' q' now
    using read_step_Inr [of L J B j body _ now] recv that ends(6) by (simp add: deliver_inbox)
  ultimately show ?thesis
    using hubA(2) by (intro exI [of _ "A\<lparr>hub_heap := (hub_heap A)[p := (a', open_end r wire (n - 2) q)]\<rparr>"] exI [of _ wire]) simp
qed

theorem agent_message_arrives_witness:
  "\<exists>A' wire. hub_Send xor_lib field_codec ''bob'' [104, 105] (demo_hub end_a (open_end [] [] 2 [])) = (Inr (), A') \<and>
    hub_inbox (read_step xor_lib field_codec 5 0 (demo_hub end_b (open_end wire [] 0 []))) =
      [\<lparr>From_b = ''alice'', Body_b = string_of [104, 105], Raw_b = [104, 105], Received_b = 5\<rparr>]"
proof -
  have ends: "\<not> closed end_a" "\<not> closed end_b" "length (sendKey end_a) = 32" "recvKey end_b = sendKey end_a"
    "epochID end_b = epochID end_a" "peerID end_b = localID end_a" "localID end_b = peerID end_a"
    "replay_ok (replay end_b)" "replay_ahead (replay end_b) (nextSeq end_a)" "unat (nextSeq end_a) + 1 < 2 ^ 63"
    using replay_ok_New [of 128] replay_ahead_New [of 0 128] by (simp_all add: new_session_def)
  have name: "peerID end_a = ''bob''" "localID end_a = ''alice''" by (simp_all add: new_session_def)
  obtain A' wire where w: "hub_Send xor_lib field_codec (peerID end_a) [104, 105] (demo_hub end_a (open_end [] [] 2 [])) = (Inr (), A')"
    "\<forall>B j rest t' n' q' now.
      hub_heap B ! j = (end_b, open_end (wire @ rest) t' n' q') \<and> length (hub_inbox B) < 500 \<longrightarrow>
      hub_inbox (read_step xor_lib field_codec now j B) = hub_inbox B @
        [\<lparr>From_b = localID end_a, Body_b = string_of [104, 105], Raw_b = [104, 105], Received_b = now\<rparr>]"
    using agent_message_arrives [OF xor_lib_laws(3,5) field_codec_laws ends, of "demo_hub end_a (open_end [] [] 2 [])" 0 "[]" 2 "[]" "[104, 105]"]
    by auto
  show ?thesis
    using w(1) w(2) [rule_format, of "demo_hub end_b (open_end wire [] 0 [])" 0 "[]" "[]" 0 "[]" 5] name by auto
qed

text \<open>
  Waiting for a message and reading the inbox deliver it twice: the message that a waiting
  request returns stays in the inbox, so the next plain inbox request returns it again.
\<close>

theorem waited_message_delivered_again:
  assumes "hub_inboxCh h = []" "p \<in> set (hub_loops h)" "Recv L J (hub_heap h ! p) = (Inr pt, sc)"
  shows "\<exists>m h1. WaitInbox L J ((t, p) # ticks) h = (Some m, h1) \<and> m \<in> set (fst (Inbox clear h1))"
proof -
  obtain m g where g: "read_step L J t p h = deliver m g" "hub_inboxCh g = []"
    using read_step_Inr [OF assms(3), of t] assms(1) by auto
  have "WaitInbox L J ((t, p) # ticks) h = WaitInbox L J ticks (deliver m g)"
    using assms(1,2) g by (subst WaitInbox.simps) simp
  also have "\<dots> = (Some m, (deliver m g)\<lparr>hub_inboxCh := []\<rparr>)"
    using g(2) deliver_inbox(2) by (subst WaitInbox.simps) simp
  finally show ?thesis using m_in_delivered [of m g] by (auto simp: Inbox_def)
qed

theorem waited_message_delivered_again_witness:
  "\<exists>c m h1. WaitInbox xor_lib field_codec [(5, 0)] (demo_hub end_b c) = (Some m, h1) \<and> m \<in> set (fst (Inbox True h1))"
proof -
  obtain wire a' b' where
    "\<forall>rest t' n' q'. recv_n xor_lib field_codec (length [[104, 105 :: byte]]) (end_b, open_end (wire @ rest) t' n' q') =
       (Inr [[104, 105]], (b', open_end rest t' n' q'))"
    using delivery [OF xor_lib_laws(3,5) field_codec_laws, of end_a end_b "[[104, 105]]" 2 "[]" "[]" "[]"]
      replay_ok_New [of 128] replay_ahead_New [of 0 128] by (auto simp: new_session_def)
  then have "recv_n xor_lib field_codec 1 (end_b, open_end (wire @ []) [] 0 []) = (Inr [[104, 105]], (b', open_end [] [] 0 []))"
    by (simp only: list.size One_nat_def add_0_left)
  then obtain pt sc where "Recv xor_lib field_codec (end_b, open_end wire [] 0 []) = (Inr pt, sc)"
    by (auto simp: gbind_def gret_def split: prod.splits sum.splits)
  then show ?thesis
    using waited_message_delivered_again [of "demo_hub end_b (open_end wire [] 0 [])" 0 xor_lib field_codec] by fastforce
qed

text \<open>
  A session that the peer closes keeps its connection open: the read loop ends and calls
  \<open>Close\<close>, which does nothing because the receive has already marked the session closed, so the
  connection is never closed on this side.
\<close>

theorem peer_close_leaks_connection:
  assumes "p < length (hub_heap h)" "up (snd (hub_heap h ! p))"
    and "fst (Recv L J (hub_heap h ! p)) = Inl (PeerClosed reason)"
  shows "up (snd (hub_heap (read_step L J now p h) ! p)) \<and> p \<notin> set (hub_loops (read_step L J now p h)) \<and>
    closed (fst (hub_heap (read_step L J now p h) ! p))"
proof -
  obtain s c where sc: "hub_heap h ! p = (s, c)" by fastforce
  obtain s' c' where r: "Recv L J (s, c) = (Inl (PeerClosed reason), (s', c'))"
    using assms(3) sc by (metis prod.collapse)
  have "closed s'" using Recv_PeerClosed [OF r] .
  moreover have "up c'" using Recv_state(2) [of L J s c s' c'] r assms(2) sc by simp
  ultimately show ?thesis
    using assms(1) sc r by (simp add: read_step_def Let_def close_at_def CloseSession_def)
qed

lemma sample_close_framable: "framable (enc_CloseMsg field_codec \<lparr>c_Type = TypeClose, c_Reason = ''bye''\<rparr>)"
  by (simp add: framable_def field_codec_def MaxPayload_def)

theorem peer_close_leaks_connection_witness:
  "\<exists>c. up c \<and> up (snd (hub_heap (read_step xor_lib field_codec 5 0 (demo_hub end_b c)) ! 0))"
proof -
  define b where "b = enc_CloseMsg field_codec \<lparr>c_Type = TypeClose, c_Reason = ''bye''\<rparr>"
  define c where "c = open_end (frame b) [] 0 []"
  have d: "dec_head field_codec b = Some TypeClose"
    unfolding b_def using field_codec_laws(1) by (simp add: codec_ok_def)
  have u: "up c" by (simp add: c_def)
  have "ReadFrame c = (Inr b, c\<lparr>rx := []\<rparr>)"
    using frames.get_image [OF sample_close_framable, of c "[]"] by (simp add: c_def b_def)
  then have "fst (Recv xor_lib field_codec (end_b, c)) = Inl (PeerClosed (c_Reason (dec_CloseMsg field_codec b)))"
    using d by (simp add: Recv_def gbind_def lift_conn_def new_session_def)
  then have "up (snd (hub_heap (read_step xor_lib field_codec 5 0 (demo_hub end_b c)) ! 0))"
    using peer_close_leaks_connection [of 0 "demo_hub end_b c" xor_lib field_codec _ 5] u by simp
  with u show ?thesis by blast
qed

end
