(* ===== verification/Files.thy ===== *)
theory Files
  imports Prelude
begin

text \<open>
  What the program uses of Go's standard library on files and text: \<open>os.ReadFile\<close>, \<open>os.WriteFile\<close>
  and \<open>os.Remove\<close> on a disk, JSON for one type of value, and the decimal \<open>%d\<close> of \<open>fmt.Sprintf\<close>
  and \<open>fmt.Sscanf\<close>.

  Whether a write succeeds is decided by the environment: the script of a disk lists the outcomes
  of the operations to come, and beyond its end every operation succeeds. A write that stops
  after \<open>n\<close> bytes leaves a truncated file, because \<open>os.WriteFile\<close> truncates before it writes.
\<close>

section \<open>Disk\<close>

datatype disk_outcome = Done | OpenFails | StopsAfter nat

record disk =
  files :: "(string \<times> bytes) list"
  script :: "disk_outcome list"

definition os_WriteFile :: "string \<Rightarrow> bytes \<Rightarrow> disk \<Rightarrow> bool \<times> disk" where
  "os_WriteFile path b d = (case script d of
     [] \<Rightarrow> (True, d\<lparr>files := AList.update path b (files d)\<rparr>)
   | Done # os \<Rightarrow> (True, d\<lparr>files := AList.update path b (files d), script := os\<rparr>)
   | OpenFails # os \<Rightarrow> (False, d\<lparr>script := os\<rparr>)
   | StopsAfter n # os \<Rightarrow> (False, d\<lparr>files := AList.update path (take n b) (files d), script := os\<rparr>))"

definition os_ReadFile :: "string \<Rightarrow> disk \<Rightarrow> bytes option" where
  "os_ReadFile path d = map_of (files d) path"

definition os_Remove :: "string \<Rightarrow> disk \<Rightarrow> disk" where
  "os_Remove path d = (case script d of
     [] \<Rightarrow> d\<lparr>files := AList.delete path (files d)\<rparr>
   | Done # os \<Rightarrow> d\<lparr>files := AList.delete path (files d), script := os\<rparr>
   | _ # os \<Rightarrow> d\<lparr>script := os\<rparr>)"

lemma read_write_same:
  "os_WriteFile p b d = (True, d') \<Longrightarrow> os_ReadFile p d' = Some b"
  by (auto simp: os_WriteFile_def os_ReadFile_def split: list.splits disk_outcome.splits)

lemma read_write_other:
  "os_WriteFile p b d = (ok, d') \<Longrightarrow> q \<noteq> p \<Longrightarrow> os_ReadFile q d' = os_ReadFile q d"
  by (auto simp: os_WriteFile_def os_ReadFile_def split: list.splits disk_outcome.splits)

lemma write_succeeds: "script d = [] \<Longrightarrow> fst (os_WriteFile p b d)"
  by (simp add: os_WriteFile_def)

lemma read_remove: "script d = [] \<Longrightarrow> os_ReadFile q (os_Remove p d) = (if q = p then None else os_ReadFile q d)"
  by (simp add: os_Remove_def os_ReadFile_def)

lemma script_remove: "script d = [] \<Longrightarrow> script (os_Remove p d) = []"
  by (simp add: os_Remove_def)

section \<open>JSON of one type\<close>

text \<open>
  \<open>json.Marshal\<close> and \<open>json.Unmarshal\<close> for a Go struct type; \<open>json_ok V\<close> says that the values
  satisfying \<open>V\<close> (valid UTF-8 strings, map keys that occur once) are read back as written.
\<close>

record 'r json =
  Marshal :: "'r \<Rightarrow> bytes"
  Unmarshal :: "bytes \<Rightarrow> 'r option"

definition json_ok :: "('r \<Rightarrow> bool) \<Rightarrow> 'r json \<Rightarrow> bool" where
  "json_ok V J \<longleftrightarrow> (\<forall>r. V r \<longrightarrow> Unmarshal J (Marshal J r) = Some r)"

section \<open>Decimal numbers\<close>

fun dec_digits :: "nat \<Rightarrow> string" where
  "dec_digits n = (if n < 10 then [char_of (48 + n)] else dec_digits (n div 10) @ [char_of (48 + n mod 10)])"

declare dec_digits.simps [simp del]

definition is_digit :: "char \<Rightarrow> bool" where
  "is_digit c \<longleftrightarrow> 48 \<le> (of_char c :: nat) \<and> (of_char c :: nat) \<le> 57"

definition dec_value :: "string \<Rightarrow> nat" where
  "dec_value s = foldl (\<lambda>a c. 10 * a + (of_char c - 48)) 0 s"

text \<open>
  \<open>fmt.Sscanf\<close> with the format \<open>pre%dpost\<close> into a \<open>uint64\<close>: the literal prefix, optional blanks,
  at least one digit, a value that fits, the literal suffix; what follows the suffix is ignored.
\<close>

definition is_blank :: "char \<Rightarrow> bool" where
  "is_blank c \<longleftrightarrow> of_char c \<in> {9, 11, 12, 13, 32 :: nat}"

definition strip_prefix :: "string \<Rightarrow> string \<Rightarrow> string option" where
  "strip_prefix p s = (if take (length p) s = p then Some (drop (length p) s) else None)"

definition Sscanf_d :: "string \<Rightarrow> string \<Rightarrow> string \<Rightarrow> u64 option" where
  "Sscanf_d pre post s =
     (case strip_prefix pre s of
        None \<Rightarrow> None
      | Some r \<Rightarrow>
        (let r = dropWhile is_blank r; ds = takeWhile is_digit r; rest = dropWhile is_digit r
         in if ds = [] \<or> dec_value ds \<ge> 2 ^ 64 then None
            else case strip_prefix post rest of None \<Rightarrow> None | Some _ \<Rightarrow> Some (word_of_nat (dec_value ds))))"

lemma is_digit_dec_digits: "c \<in> set (dec_digits n) \<Longrightarrow> is_digit c"
proof (induction n arbitrary: c rule: dec_digits.induct)
  case (1 n)
  have d: "is_digit (char_of (48 + m))" if "m < 10" for m :: nat
    using that by (simp add: is_digit_def)
  show ?case
    using 1 d [of n] d [of "n mod 10"]
    by (subst (asm) (2) dec_digits.simps) (auto split: if_splits)
qed

lemma dec_value_snoc: "dec_value (s @ [c]) = 10 * dec_value s + (of_char c - 48)"
  by (simp add: dec_value_def)

lemma dec_value_digits [simp]: "dec_value (dec_digits n) = n"
proof (induction n rule: dec_digits.induct)
  case (1 n)
  have v: "(of_char (char_of (48 + m) :: char) - 48 :: nat) = m" if "m < 10" for m
    using that by simp
  show ?case
  proof (cases "n < 10")
    case True
    then show ?thesis by (subst dec_digits.simps) (simp add: dec_value_def)
  next
    case False
    then have "dec_value (dec_digits n) = 10 * (n div 10) + n mod 10"
      using 1 v [of "n mod 10"] by (subst dec_digits.simps) (simp add: dec_value_snoc)
    then show ?thesis by simp
  qed
qed

lemma dec_digits_nonempty [simp]: "dec_digits n \<noteq> []"
  by (subst dec_digits.simps) simp

lemma dec_digits_inject [simp]: "dec_digits m = dec_digits n \<longleftrightarrow> m = n"
  by (metis dec_value_digits)

lemma strip_prefix_append [simp]: "strip_prefix p (p @ s) = Some s"
  by (simp add: strip_prefix_def)

lemma dec_digits_split:
  assumes "rest = [] \<or> \<not> is_digit (hd rest)"
  shows "takeWhile is_digit (dec_digits n @ rest) = dec_digits n"
    and "dropWhile is_digit (dec_digits n @ rest) = rest"
    and "dropWhile is_blank (dec_digits n @ rest) = dec_digits n @ rest"
proof -
  have "takeWhile is_digit (dec_digits n @ rest) = dec_digits n @ takeWhile is_digit rest"
    "dropWhile is_digit (dec_digits n @ rest) = dropWhile is_digit rest"
    by (simp_all add: is_digit_dec_digits)
  with assms show "takeWhile is_digit (dec_digits n @ rest) = dec_digits n"
    and "dropWhile is_digit (dec_digits n @ rest) = rest"
    by (cases rest; auto)+
  obtain c cs where "dec_digits n = c # cs" by (cases "dec_digits n") auto
  moreover from this have "is_digit c" using is_digit_dec_digits [of c n] by simp
  ultimately show "dropWhile is_blank (dec_digits n @ rest) = dec_digits n @ rest"
    by (auto simp: is_blank_def is_digit_def)
qed

text \<open>\<open>Sscanf\<close> reads back what \<open>Sprintf\<close> printed.\<close>

lemma Sscanf_Sprintf:
  assumes "post = [] \<or> \<not> is_digit (hd post)"
  shows "Sscanf_d pre post (pre @ dec_digits (unat e) @ post) = Some e"
proof -
  have "strip_prefix post post = Some []" using strip_prefix_append [of post "[]"] by simp
  then show ?thesis
    using unat_u64_less [of e] by (simp add: Sscanf_d_def dec_digits_split [OF assms] Let_def)
qed

end
