(* ===== verification/Auth.thy ===== *)
theory Auth
  imports Encoding
begin

text \<open>
  Signed key requests, \<^verbatim>\<open>internal/device/auth.go\<close>. The Ed25519 operations are the fields of an
  \<open>ed25519_lib\<close>; \<open>ed25519_correct\<close> is the documented law: a signature made with a key generated
  from a seed has 64 bytes and verifies under the public half of that key.
\<close>

section \<open>Definitions\<close>

record ed25519_lib =
  ed25519_Sign :: "bytes \<Rightarrow> bytes \<Rightarrow> bytes"
  ed25519_Verify :: "bytes \<Rightarrow> bytes \<Rightarrow> bytes \<Rightarrow> bool"
  ed25519_NewKeyFromSeed :: "bytes \<Rightarrow> bytes"
  ed25519_Public :: "bytes \<Rightarrow> bytes"

definition ed25519_correct :: "ed25519_lib \<Rightarrow> bool" where
  "ed25519_correct E \<longleftrightarrow> (\<forall>seed m. length seed = 32 \<longrightarrow>
     (let sk = ed25519_NewKeyFromSeed E seed in
      length sk = 64 \<and> length (ed25519_Public E sk) = 32 \<and> length (ed25519_Sign E sk m) = 64 \<and>
      ed25519_Verify E (ed25519_Public E sk) m (ed25519_Sign E sk m)))"

definition IssueSignPayload :: "string \<Rightarrow> bytes \<Rightarrow> i64 \<Rightarrow> string \<Rightarrow> bytes" where
  "IssueSignPayload deviceID nonce clientTime profile =
     bytes_of ''COE-v1-issue'' @ [0] @ bytes_of deviceID @ [0] @ nonce @
     PutUint64 (u64_of_i64 clientTime) @ bytes_of profile"

definition SignIssue :: "ed25519_lib \<Rightarrow> bytes \<Rightarrow> string \<Rightarrow> bytes \<Rightarrow> i64 \<Rightarrow> string \<Rightarrow> bytes" where
  "SignIssue E signSK deviceID nonce clientTime profile =
     ed25519_Sign E signSK (IssueSignPayload deviceID nonce clientTime profile)"

definition VerifyIssue ::
    "ed25519_lib \<Rightarrow> bytes \<Rightarrow> string \<Rightarrow> bytes \<Rightarrow> i64 \<Rightarrow> bytes \<Rightarrow> bytes \<Rightarrow> bool" where
  "VerifyIssue E signPK deviceID nonce clientTime profile sig =
     (if length signPK \<noteq> 32 \<or> length sig \<noteq> 64 then False
      else ed25519_Verify E signPK (IssueSignPayload deviceID nonce clientTime (string_of profile)) sig)"

text \<open>The error carries the length that was given.\<close>

definition SignSKFromBytes :: "ed25519_lib \<Rightarrow> bytes \<Rightarrow> nat + bytes" where
  "SignSKFromBytes E b =
     (if length b = 32 then Inr (ed25519_NewKeyFromSeed E b)
      else if length b = 64 then Inr b
      else Inl (length b))"

text \<open>A concrete instance for witnesses: the signature repeats the key and a checksum of the message.\<close>

definition toy_tag :: "bytes \<Rightarrow> bytes" where
  "toy_tag m = I2OSP (word_of_nat (length m)) 8 @ replicate 24 0"

definition toy_ed25519 :: ed25519_lib where
  "toy_ed25519 = \<lparr>
     ed25519_Sign = (\<lambda>sk m. drop 32 sk @ toy_tag m),
     ed25519_Verify = (\<lambda>pk m sig. sig = pk @ toy_tag m),
     ed25519_NewKeyFromSeed = (\<lambda>seed. seed @ seed),
     ed25519_Public = (\<lambda>sk. drop 32 sk)\<rparr>"

section \<open>Lemmas\<close>

lemma toy_ed25519_correct: "ed25519_correct toy_ed25519"
  by (simp add: ed25519_correct_def toy_ed25519_def toy_tag_def)

lemma zero_notin_bytes_of: "CHR 0x00 \<notin> set s \<Longrightarrow> (0 :: byte) \<notin> set (bytes_of s)"
proof
  assume "CHR 0x00 \<notin> set s" and "(0 :: byte) \<in> set (bytes_of s)"
  then obtain c where c: "c \<in> set s" "(word_of_nat (of_char c) :: byte) = 0"
    by (auto simp: bytes_of_def)
  then have "bytes_of [c] = bytes_of [CHR 0x00]" by (simp add: bytes_of_def)
  then have "c = CHR 0x00" by simp
  with c \<open>CHR 0x00 \<notin> set s\<close> show False by simp
qed

section \<open>Properties\<close>

text \<open>
  The signed bytes determine the request: for device names without a zero byte and nonces of
  one length, two requests with the same payload agree in device, nonce, time and profile, so a
  signature cannot be moved to another request.
\<close>

theorem IssueSignPayload_inject:
  assumes "CHR 0x00 \<notin> set d" "CHR 0x00 \<notin> set d'" "length n = length n'" "is_i64 t" "is_i64 t'"
    and "IssueSignPayload d n t p = IssueSignPayload d' n' t' p'"
  shows "d = d' \<and> n = n' \<and> t = t' \<and> p = p'"
proof -
  have "bytes_of d @ 0 # n @ PutUint64 (u64_of_i64 t) @ bytes_of p =
      bytes_of d' @ 0 # n' @ PutUint64 (u64_of_i64 t') @ bytes_of p'"
    using assms(6) by (simp add: IssueSignPayload_def)
  then have "d = d'" and "n @ PutUint64 (u64_of_i64 t) @ bytes_of p = n' @ PutUint64 (u64_of_i64 t') @ bytes_of p'"
    using append_separator_inject [OF zero_notin_bytes_of zero_notin_bytes_of] assms(1,2) by auto
  then have "d = d'" "n = n'" "PutUint64 (u64_of_i64 t) = PutUint64 (u64_of_i64 t')" "p = p'"
    using assms(3) by simp_all
  then show ?thesis
    using u64_of_i64_inject [OF assms(4,5)] by (simp add: PutUint64_def)
qed

theorem IssueSignPayload_inject_witness:
  "IssueSignPayload ''dev'' [1, 2] 5 ''strong'' \<noteq> IssueSignPayload ''dev'' [1, 2] 6 ''strong''"
  using IssueSignPayload_inject [of "''dev''" "''dev''" "[1, 2]" "[1, 2]" 5 6 "''strong''" "''strong''"]
  by (auto simp: is_i64_def)

text \<open>
  Without a fixed nonce length the borders inside the payload are lost: a request whose nonce
  swallows the time, and whose time and profile are read from what follows, has the same payload,
  so a signature for one verifies for the other.
\<close>

theorem IssueSignPayload_ambiguous:
  "VerifyIssue E pk d (n @ PutUint64 (u64_of_i64 t)) t' (bytes_of p) sig =
   VerifyIssue E pk d n t (PutUint64 (u64_of_i64 t') @ bytes_of p) sig"
  by (simp add: VerifyIssue_def IssueSignPayload_def)

text \<open>
  A request signed with the key made from a 32-byte seed is accepted under the public half of
  that key.
\<close>

theorem VerifyIssue_SignIssue:
  assumes "ed25519_correct E" and "length seed = 32" and "SignSKFromBytes E seed = Inr sk"
  shows "VerifyIssue E (ed25519_Public E sk) d n t (bytes_of p) (SignIssue E sk d n t p)"
  using assms by (auto simp: ed25519_correct_def SignSKFromBytes_def VerifyIssue_def SignIssue_def Let_def)

theorem VerifyIssue_SignIssue_witness:
  "VerifyIssue toy_ed25519 (ed25519_Public toy_ed25519 (replicate 64 3)) ''dev'' [9] 7 (bytes_of ''strong'')
     (SignIssue toy_ed25519 (replicate 64 3) ''dev'' [9] 7 ''strong'')"
  using VerifyIssue_SignIssue [OF toy_ed25519_correct, of "replicate 32 3" "replicate 64 3" "''dev''" "[9]" 7 "''strong''"]
  by (simp add: SignSKFromBytes_def toy_ed25519_def flip: replicate_add)

end
