(* ===== verification/KeyStore.thy ===== *)
theory KeyStore
  imports Files Auth FieldCodec
begin

text \<open>
  What a device keeps on disk, \<^verbatim>\<open>internal/device/store.go\<close>, with the wrapper of
  \<^verbatim>\<open>internal/device/protect_other.go\<close>: the general keys of the last epochs in a directory, and the
  identity file. The files of the store's directory are keyed by their base name; the result of
  \<open>os.MkdirAll\<close> is an argument.
\<close>

section \<open>Definitions\<close>

datatype store_error =
  EmptyPlaintext | FileWrite | FileMissing | BadJSON | EmptyKeyRecord | MkdirFailed

definition Protect :: "bytes \<Rightarrow> store_error + bytes" where
  "Protect plaintext =
     (if length plaintext = 0 then Inl EmptyPlaintext else Inr (bytes_of ''RAW1'' @ plaintext))"

definition Unprotect :: "bytes \<Rightarrow> bytes" where
  "Unprotect blob =
     (if length blob \<ge> 4 \<and> string_of (take 4 blob) = ''RAW1'' then drop 4 blob else blob)"

record Meta =
  EpochID_m :: u64
  KeySerial_m :: u64
  NotBefore_m :: i64
  NotAfter_m :: i64
  GraceSec_m :: i64
  Profile_m :: string
  DeviceID_m :: string

record store_record =
  EncKey :: bytes
  Key_r :: bytes
  Meta_r :: Meta

definition NewFileStore :: "bool \<Rightarrow> store_error + unit" where
  "NewFileStore mkdir_ok = (if mkdir_ok then Inr () else Inl MkdirFailed)"

definition store_path :: "u64 \<Rightarrow> string" where
  "store_path epoch = ''general-'' @ dec_digits (unat epoch) @ ''.json''"

definition PutGeneral ::
    "store_record json \<Rightarrow> u64 \<Rightarrow> bytes \<Rightarrow> Meta \<Rightarrow> (disk, store_error, unit) go" where
  "PutGeneral J epoch key meta = (\<lambda>d.
     let meta = meta\<lparr>EpochID_m := epoch\<rparr> in
     case Protect key of
       Inl e \<Rightarrow> (Inl e, d)
     | Inr enc \<Rightarrow>
       (case os_WriteFile (store_path epoch) (Marshal J \<lparr>EncKey = enc, Key_r = [], Meta_r = meta\<rparr>) d of
          (ok, d') \<Rightarrow> (if ok then Inr () else Inl FileWrite, d')))"

definition GetGeneral :: "store_record json \<Rightarrow> u64 \<Rightarrow> disk \<Rightarrow> store_error + bytes \<times> Meta" where
  "GetGeneral J epoch d =
     (case os_ReadFile (store_path epoch) d of
        None \<Rightarrow> Inl FileMissing
      | Some b \<Rightarrow>
        (case Unmarshal J b of
           None \<Rightarrow> Inl BadJSON
         | Some rec \<Rightarrow>
           if length (EncKey rec) > 0 then Inr (Unprotect (EncKey rec), Meta_r rec)
           else if length (Key_r rec) > 0 then Inr (Key_r rec, Meta_r rec)
           else Inl EmptyKeyRecord))"

definition wipe_entry :: "u64 \<Rightarrow> string \<Rightarrow> disk \<Rightarrow> disk" where
  "wipe_entry before name d =
     (case Sscanf_d ''general-'' ''.json'' name of
        None \<Rightarrow> d
      | Some ep \<Rightarrow> if ep < before then os_Remove name d else d)"

text \<open>The directory is listed once; \<open>listed\<close> is \<open>None\<close> when \<open>os.ReadDir\<close> fails.\<close>

definition WipeBefore :: "u64 \<Rightarrow> string list option \<Rightarrow> disk \<Rightarrow> (store_error + unit) \<times> disk" where
  "WipeBefore before listed d =
     (case listed of None \<Rightarrow> (Inl FileMissing, d) | Some names \<Rightarrow> (Inr (), fold (wipe_entry before) names d))"

definition os_ReadDir :: "disk \<Rightarrow> string list" where
  "os_ReadDir d = map fst (files d)"

subsection \<open>Identity\<close>

record Identity =
  DeviceID_i :: string
  EnrollmentCounter_i :: u32
  PrivateKey_i :: bytes
  PublicKey_i :: bytes
  SignPrivate_i :: bytes
  SignPublic_i :: bytes
  EncPrivateKey_i :: bytes
  EncSignKey_i :: bytes
  LegacyPrivateKey_i :: bytes
  LegacySignKey_i :: bytes
  OrgID_i :: string
  Profile_i :: string

record diskIdentity =
  DeviceID_d :: string
  EnrollmentCounter_d :: u32
  PublicKey_d :: bytes
  SignPublic_d :: bytes
  EncPrivateKey_d :: bytes
  EncSignKey_d :: bytes
  PrivateKey_d :: bytes
  SignPrivate_d :: bytes
  OrgID_d :: string
  Profile_d :: string

text \<open>\<open>Protect\<close> of a key that may be absent: an empty key gives an empty blob.\<close>

definition protect_if_present :: "bytes \<Rightarrow> store_error + bytes" where
  "protect_if_present k = (if length k > 0 then Protect k else Inr [])"

definition SaveIdentity ::
    "diskIdentity json \<Rightarrow> bool \<Rightarrow> string \<Rightarrow> Identity \<Rightarrow> (disk, store_error, unit) go" where
  "SaveIdentity J mkdir_ok path i = (\<lambda>d.
     if \<not> mkdir_ok then (Inl MkdirFailed, d)
     else case protect_if_present (PrivateKey_i i) of
       Inl e \<Rightarrow> (Inl e, d)
     | Inr encP \<Rightarrow>
       (case protect_if_present (SignPrivate_i i) of
          Inl e \<Rightarrow> (Inl e, d)
        | Inr encS \<Rightarrow>
          (case os_WriteFile path (Marshal J
               \<lparr>DeviceID_d = DeviceID_i i, EnrollmentCounter_d = EnrollmentCounter_i i,
                PublicKey_d = PublicKey_i i, SignPublic_d = SignPublic_i i, EncPrivateKey_d = encP,
                EncSignKey_d = encS, PrivateKey_d = [], SignPrivate_d = [], OrgID_d = OrgID_i i,
                Profile_d = Profile_i i\<rparr>) d of
             (ok, d') \<Rightarrow> (if ok then Inr () else Inl FileWrite, d'))))"

definition identity_of_disk :: "diskIdentity \<Rightarrow> Identity" where
  "identity_of_disk d =
     \<lparr>DeviceID_i = DeviceID_d d, EnrollmentCounter_i = EnrollmentCounter_d d,
      PrivateKey_i = (if length (EncPrivateKey_d d) > 0 then Unprotect (EncPrivateKey_d d)
                      else PrivateKey_d d),
      PublicKey_i = PublicKey_d d,
      SignPrivate_i = (if length (EncSignKey_d d) > 0 then Unprotect (EncSignKey_d d)
                       else SignPrivate_d d),
      SignPublic_i = SignPublic_d d, EncPrivateKey_i = [], EncSignKey_i = [],
      LegacyPrivateKey_i = [], LegacySignKey_i = [], OrgID_i = OrgID_d d, Profile_i = Profile_d d\<rparr>"

definition LoadIdentity ::
    "diskIdentity json \<Rightarrow> bool \<Rightarrow> string \<Rightarrow> (disk, store_error, Identity) go" where
  "LoadIdentity J mkdir_ok path = (\<lambda>fs.
     case os_ReadFile path fs of
       None \<Rightarrow> (Inl FileMissing, fs)
     | Some b \<Rightarrow>
       (case Unmarshal J b of
          None \<Rightarrow> (Inl BadJSON, fs)
        | Some d \<Rightarrow>
          (let i = identity_of_disk d in
           if (length (PrivateKey_d d) > 0 \<or> length (SignPrivate_d d) > 0) \<and>
              (length (EncPrivateKey_d d) = 0 \<or> length (EncSignKey_d d) = 0)
           then (Inr i, snd (SaveIdentity J mkdir_ok path i fs))
           else (Inr i, fs))))"

definition SignPrivateKey :: "ed25519_lib \<Rightarrow> Identity \<Rightarrow> nat + bytes" where
  "SignPrivateKey E i = SignSKFromBytes E (SignPrivate_i i)"

section \<open>Lemmas\<close>

lemma Unprotect_Protect: "Protect k = Inr b \<Longrightarrow> Unprotect b = k \<and> b \<noteq> []"
  by (auto simp: Protect_def Unprotect_def split: if_splits)

lemma store_path_inject [simp]: "store_path e = store_path f \<longleftrightarrow> e = f"
  by (auto simp: store_path_def word_unat_eq_iff)

lemma Sscanf_store_path: "Sscanf_d ''general-'' ''.json'' (store_path e) = Some e"
  unfolding store_path_def by (rule Sscanf_Sprintf) (simp add: is_digit_def)

lemma wipe_entry_store_path:
  "wipe_entry n (store_path e) d = (if e < n then os_Remove (store_path e) d else d)"
  by (simp add: wipe_entry_def Sscanf_store_path)

lemma wipe_entry_script: "script d = [] \<Longrightarrow> script (wipe_entry n x d) = []"
  by (auto simp: wipe_entry_def script_remove split: option.split)

lemma read_wipe_entry:
  assumes "script d = []"
  shows "os_ReadFile (store_path e) (wipe_entry n x d) =
    (if x = store_path e \<and> e < n then None else os_ReadFile (store_path e) d)"
  using assms
  by (cases "x = store_path e")
    (auto simp: wipe_entry_def Sscanf_store_path read_remove split: option.split)

lemma read_wipe_fold:
  "script d = [] \<Longrightarrow> os_ReadFile (store_path e) (fold (wipe_entry n) xs d) =
    (if store_path e \<in> set xs \<and> e < n then None else os_ReadFile (store_path e) d)"
  by (induction xs arbitrary: d) (auto simp: wipe_entry_script read_wipe_entry)

lemma protect_if_present_Inr:
  "protect_if_present k = Inr b \<Longrightarrow> (if length b > 0 then Unprotect b else []) = k"
  by (auto simp: protect_if_present_def Protect_def Unprotect_def split: if_splits)

lemma protect_if_present_ok: "\<exists>b. protect_if_present k = Inr b"
  by (simp add: protect_if_present_def Protect_def)

text \<open>What is on disk after a successful save.\<close>

lemma SaveIdentity_InrD:
  assumes "SaveIdentity J m path i fs = (Inr (), fs')"
  obtains d where "os_ReadFile path fs' = Some (Marshal J d)" and "PrivateKey_d d = []"
    and "SignPrivate_d d = []" and "DeviceID_d d = DeviceID_i i" and "OrgID_d d = OrgID_i i"
    and "Profile_d d = Profile_i i"
    and "identity_of_disk d = i\<lparr>EncPrivateKey_i := [], EncSignKey_i := [], LegacyPrivateKey_i := [],
      LegacySignKey_i := []\<rparr>"
proof -
  obtain p s where p: "protect_if_present (PrivateKey_i i) = Inr p"
    and s: "protect_if_present (SignPrivate_i i) = Inr s"
    using protect_if_present_ok by metis
  let ?d = "\<lparr>DeviceID_d = DeviceID_i i, EnrollmentCounter_d = EnrollmentCounter_i i,
     PublicKey_d = PublicKey_i i, SignPublic_d = SignPublic_i i, EncPrivateKey_d = p,
     EncSignKey_d = s, PrivateKey_d = [], SignPrivate_d = [], OrgID_d = OrgID_i i,
     Profile_d = Profile_i i\<rparr>"
  have "os_WriteFile path (Marshal J ?d) fs = (True, fs')"
    using assms by (auto simp: SaveIdentity_def p s split: if_splits prod.splits)
  moreover have "identity_of_disk ?d = i\<lparr>EncPrivateKey_i := [], EncSignKey_i := [],
      LegacyPrivateKey_i := [], LegacySignKey_i := []\<rparr>"
    using protect_if_present_Inr [OF p] protect_if_present_Inr [OF s]
    by (cases i) (auto simp: identity_of_disk_def split: if_splits)
  ultimately show ?thesis
    by (intro that [of ?d]) (simp_all add: read_write_same)
qed

definition ascii_identity :: "diskIdentity \<Rightarrow> bool" where
  "ascii_identity d \<longleftrightarrow> ascii (DeviceID_d d) \<and> ascii (OrgID_d d) \<and> ascii (Profile_d d)"

definition wf_meta :: "Meta \<Rightarrow> bool" where
  "wf_meta m \<longleftrightarrow> ascii (Profile_m m) \<and> ascii (DeviceID_m m) \<and>
     is_i64 (NotBefore_m m) \<and> is_i64 (NotAfter_m m) \<and> is_i64 (GraceSec_m m)"

definition wf_record :: "store_record \<Rightarrow> bool" where
  "wf_record r \<longleftrightarrow> wf_meta (Meta_r r)"

lemma PutGeneral_read:
  assumes "json_ok wf_record J" "wf_meta meta"
    and "PutGeneral J e key meta d = (r, d')"
  shows "(r = Inr () \<longrightarrow> GetGeneral J e d' = Inr (key, meta\<lparr>EpochID_m := e\<rparr>)) \<and>
    (\<forall>f. f \<noteq> e \<longrightarrow> GetGeneral J f d' = GetGeneral J f d)"
proof (cases "Protect key")
  case (Inl err)
  then show ?thesis using assms(3) by (auto simp: PutGeneral_def)
next
  case (Inr enc)
  let ?rec = "\<lparr>EncKey = enc, Key_r = [], Meta_r = meta\<lparr>EpochID_m := e\<rparr>\<rparr>"
  obtain ok where w: "os_WriteFile (store_path e) (Marshal J ?rec) d = (ok, d')"
    and r: "r = (if ok then Inr () else Inl FileWrite)"
    using assms(3) Inr by (auto simp: PutGeneral_def split: prod.splits)
  have "Unmarshal J (Marshal J ?rec) = Some ?rec"
    using assms(1,2) by (simp add: json_ok_def wf_record_def wf_meta_def)
  moreover have "os_ReadFile (store_path f) d' = os_ReadFile (store_path f) d" if "f \<noteq> e" for f
    using read_write_other [OF w] that by simp
  ultimately show ?thesis
    using r w read_write_same [of "store_path e" _ d d'] Unprotect_Protect [OF Inr]
    by (auto simp: GetGeneral_def)
qed

lemma WipeBefore_read:
  assumes "script d = []" and "WipeBefore n (Some (os_ReadDir d)) d = (r, d')"
  shows "r = Inr () \<and> GetGeneral J e d' = (if e < n then Inl FileMissing else GetGeneral J e d)"
proof -
  have "os_ReadFile (store_path e) d = None" if "store_path e \<notin> set (os_ReadDir d)"
    using that by (auto simp: os_ReadDir_def os_ReadFile_def map_of_eq_None_iff)
  then show ?thesis
    using assms by (auto simp: WipeBefore_def GetGeneral_def read_wipe_fold)
qed

section \<open>Concrete codecs\<close>

definition record_json :: "store_record json" where
  "record_json = \<lparr>
     Marshal = (\<lambda>r. let m = Meta_r r in put_fields [EncKey r, Key_r r, num (EpochID_m m), num (KeySerial_m m),
        inum (NotBefore_m m), inum (NotAfter_m m), inum (GraceSec_m m), bytes_of (Profile_m m),
        bytes_of (DeviceID_m m)]),
     Unmarshal = (\<lambda>b. case get_fields b of
        [e, k, ep, se, nb, na, g, p, d] \<Rightarrow> Some \<lparr>EncKey = e, Key_r = k, Meta_r =
          \<lparr>EpochID_m = un_num ep, KeySerial_m = un_num se, NotBefore_m = un_inum nb,
           NotAfter_m = un_inum na, GraceSec_m = un_inum g, Profile_m = string_of p,
           DeviceID_m = string_of d\<rparr>\<rparr>
      | _ \<Rightarrow> None)\<rparr>"

lemma record_json_ok: "json_ok wf_record record_json"
  by (simp add: json_ok_def wf_record_def wf_meta_def record_json_def Let_def del: put_fields.simps)

definition identity_json :: "diskIdentity json" where
  "identity_json = \<lparr>
     Marshal = (\<lambda>d. put_fields [bytes_of (DeviceID_d d), num (ucast (EnrollmentCounter_d d)), PublicKey_d d,
        SignPublic_d d, EncPrivateKey_d d, EncSignKey_d d, PrivateKey_d d, SignPrivate_d d,
        bytes_of (OrgID_d d), bytes_of (Profile_d d)]),
     Unmarshal = (\<lambda>b. case get_fields b of
        [i, c, pk, spk, ep, es, k, s, g, p] \<Rightarrow> Some \<lparr>DeviceID_d = string_of i,
          EnrollmentCounter_d = ucast (un_num c), PublicKey_d = pk, SignPublic_d = spk,
          EncPrivateKey_d = ep, EncSignKey_d = es, PrivateKey_d = k, SignPrivate_d = s,
          OrgID_d = string_of g, Profile_d = string_of p\<rparr>
      | _ \<Rightarrow> None)\<rparr>"

lemma identity_json_ok: "json_ok ascii_identity identity_json"
  by (simp add: json_ok_def identity_json_def ucast_u32_u64 del: put_fields.simps)

section \<open>Properties\<close>

text \<open>
  A general key that was stored without error is read back with its metadata, whose epoch is
  the one it was stored under; the keys of all other epochs are unaffected, also when the write
  fails half way.
\<close>

theorem general_key_roundtrip:
  assumes "json_ok wf_record J" "wf_meta meta"
    and "PutGeneral J e key meta d = (r, d')"
  shows "(r = Inr () \<longrightarrow> GetGeneral J e d' = Inr (key, meta\<lparr>EpochID_m := e\<rparr>)) \<and>
    (\<forall>f. f \<noteq> e \<longrightarrow> GetGeneral J f d' = GetGeneral J f d)"
  using PutGeneral_read [OF assms] .

theorem general_key_roundtrip_witness:
  "let m = \<lparr>EpochID_m = 0, KeySerial_m = 4, NotBefore_m = 1, NotAfter_m = 2, GraceSec_m = 300,
         Profile_m = ''strong'', DeviceID_m = ''dev''\<rparr>;
       d' = snd (PutGeneral record_json 20000 [1, 2] m \<lparr>files = [], script = []\<rparr>)
   in GetGeneral record_json 20000 d' = Inr ([1, 2], m\<lparr>EpochID_m := 20000\<rparr>)"
proof -
  let ?m = "\<lparr>EpochID_m = 0, KeySerial_m = 4, NotBefore_m = 1, NotAfter_m = 2, GraceSec_m = 300,
         Profile_m = ''strong'', DeviceID_m = ''dev''\<rparr>"
  have "wf_meta ?m" by (simp add: wf_meta_def ascii_def is_i64_def)
  moreover obtain d' where "PutGeneral record_json 20000 [1, 2] ?m \<lparr>files = [], script = []\<rparr> = (Inr (), d')"
    by (simp add: PutGeneral_def Protect_def os_WriteFile_def)
  ultimately show ?thesis
    using general_key_roundtrip [OF record_json_ok, of ?m 20000 "[1, 2]" "\<lparr>files = [], script = []\<rparr>" "Inr ()" d']
    by (simp add: Let_def)
qed

text \<open>
  \<open>WipeBefore n\<close> on the listing of the directory removes exactly the keys of the epochs below
  \<open>n\<close>: afterwards they are missing, and every other key is read as before.
\<close>

theorem WipeBefore_exact:
  assumes "script d = []" and "WipeBefore n (Some (os_ReadDir d)) d = (r, d')"
  shows "r = Inr () \<and> GetGeneral J e d' = (if e < n then Inl FileMissing else GetGeneral J e d)"
  using WipeBefore_read [OF assms] .

theorem WipeBefore_exact_witness:
  "let d = \<lparr>files = [(store_path 7, [1]), (store_path 9, [2])], script = []\<rparr>;
       d' = snd (WipeBefore 8 (Some (os_ReadDir d)) d)
   in GetGeneral record_json 7 d' = Inl FileMissing \<and> GetGeneral record_json 9 d' = GetGeneral record_json 9 d"
proof -
  let ?d = "\<lparr>files = [(store_path 7, [1]), (store_path 9, [2])], script = []\<rparr>"
  obtain r d' where w: "WipeBefore 8 (Some (os_ReadDir ?d)) ?d = (r, d')" by fastforce
  show ?thesis
    using WipeBefore_exact [OF _ w, of record_json 7] WipeBefore_exact [OF _ w, of record_json 9] w
    by (simp add: Let_def)
qed

text \<open>
  An identity that was saved without error is loaded with the same names, counter and keys,
  private ones included, the loading leaves the file alone, and the file has no plaintext key.
\<close>

theorem identity_roundtrip:
  assumes "json_ok ascii_identity J" "ascii (DeviceID_i i)" "ascii (OrgID_i i)" "ascii (Profile_i i)"
    and "SaveIdentity J m path i d = (Inr (), d')"
  shows "LoadIdentity J m' path d' = (Inr (i\<lparr>EncPrivateKey_i := [], EncSignKey_i := [],
      LegacyPrivateKey_i := [], LegacySignKey_i := []\<rparr>), d') \<and>
    (\<exists>x. Unmarshal J (the (os_ReadFile path d')) = Some x \<and> PrivateKey_d x = [] \<and> SignPrivate_d x = [])"
proof -
  obtain x where x: "os_ReadFile path d' = Some (Marshal J x)" "PrivateKey_d x = []" "SignPrivate_d x = []"
    "DeviceID_d x = DeviceID_i i" "OrgID_d x = OrgID_i i" "Profile_d x = Profile_i i"
    "identity_of_disk x = i\<lparr>EncPrivateKey_i := [], EncSignKey_i := [], LegacyPrivateKey_i := [], LegacySignKey_i := []\<rparr>"
    by (rule SaveIdentity_InrD [OF assms(5)])
  have "Unmarshal J (Marshal J x) = Some x"
    using assms(1-4) x by (simp add: json_ok_def ascii_identity_def)
  with x show ?thesis by (simp add: LoadIdentity_def Let_def)
qed

definition sample_identity :: Identity where
  "sample_identity = \<lparr>DeviceID_i = ''dev'', EnrollmentCounter_i = 3, PrivateKey_i = [1, 2], PublicKey_i = [3],
     SignPrivate_i = [4], SignPublic_i = [5], EncPrivateKey_i = [], EncSignKey_i = [],
     LegacyPrivateKey_i = [], LegacySignKey_i = [], OrgID_i = ''org'', Profile_i = ''strong''\<rparr>"

theorem identity_roundtrip_witness:
  "let d' = snd (SaveIdentity identity_json True ''id.json'' sample_identity \<lparr>files = [], script = []\<rparr>)
   in fst (LoadIdentity identity_json True ''id.json'' d') = Inr sample_identity"
proof -
  obtain d' where w: "SaveIdentity identity_json True ''id.json'' sample_identity \<lparr>files = [], script = []\<rparr> = (Inr (), d')"
    by (simp add: SaveIdentity_def os_WriteFile_def sample_identity_def protect_if_present_def Protect_def)
  have a: "ascii (DeviceID_i sample_identity)" "ascii (OrgID_i sample_identity)" "ascii (Profile_i sample_identity)"
    by (simp_all add: sample_identity_def ascii_def)
  show ?thesis
    using identity_roundtrip [OF identity_json_ok a w, of True] w
    by (simp add: Let_def) (simp add: sample_identity_def)
qed

text \<open>
  Loading a legacy identity, whose private keys are in plaintext, rewrites the file when the
  disk takes the write: the keys loaded are the plaintext ones, afterwards the file holds none of
  them in plaintext, and loading it again gives the same identity.
\<close>

theorem legacy_identity_migrated:
  assumes "json_ok ascii_identity J" "ascii_identity x" "os_ReadFile path d = Some (Marshal J x)"
    and "EncPrivateKey_d x = []" "EncSignKey_d x = []" "PrivateKey_d x \<noteq> []"
    and "script d = []"
  shows "\<exists>i d' y. LoadIdentity J True path d = (Inr i, d') \<and>
    PrivateKey_i i = PrivateKey_d x \<and> SignPrivate_i i = SignPrivate_d x \<and>
    Unmarshal J (the (os_ReadFile path d')) = Some y \<and> PrivateKey_d y = [] \<and> SignPrivate_d y = [] \<and>
    LoadIdentity J True path d' = (Inr i, d')"
proof -
  let ?i = "identity_of_disk x"
  have ux: "Unmarshal J (Marshal J x) = Some x" using assms(1,2) by (simp add: json_ok_def)
  obtain b c where b: "protect_if_present (PrivateKey_i ?i) = Inr b"
    and c: "protect_if_present (SignPrivate_i ?i) = Inr c" using protect_if_present_ok by metis
  obtain d' where sv: "SaveIdentity J True path ?i d = (Inr (), d')"
    using assms(7) by (simp add: SaveIdentity_def b c os_WriteFile_def)
  obtain y where y: "os_ReadFile path d' = Some (Marshal J y)" "PrivateKey_d y = []" "SignPrivate_d y = []"
    "DeviceID_d y = DeviceID_i ?i" "OrgID_d y = OrgID_i ?i" "Profile_d y = Profile_i ?i"
    "identity_of_disk y = ?i\<lparr>EncPrivateKey_i := [], EncSignKey_i := [], LegacyPrivateKey_i := [], LegacySignKey_i := []\<rparr>"
    by (rule SaveIdentity_InrD [OF sv])
  have uy: "Unmarshal J (Marshal J y) = Some y"
    using assms(1,2) y by (simp add: json_ok_def ascii_identity_def identity_of_disk_def)
  have "LoadIdentity J True path d = (Inr ?i, d')"
    using assms(3-6) ux sv by (simp add: LoadIdentity_def Let_def)
  moreover have "LoadIdentity J True path d' = (Inr ?i, d')"
    using y uy by (simp add: LoadIdentity_def Let_def identity_of_disk_def)
  moreover have "PrivateKey_i ?i = PrivateKey_d x" "SignPrivate_i ?i = SignPrivate_d x"
    using assms(4,5) by (simp_all add: identity_of_disk_def)
  ultimately show ?thesis using y uy by (intro exI [of _ ?i] exI [of _ d'] exI [of _ y]) simp
qed

theorem legacy_identity_migrated_witness:
  "let x = \<lparr>DeviceID_d = ''dev'', EnrollmentCounter_d = 1, PublicKey_d = [3], SignPublic_d = [],
         EncPrivateKey_d = [], EncSignKey_d = [], PrivateKey_d = [1, 2], SignPrivate_d = [],
         OrgID_d = '''', Profile_d = ''strong''\<rparr>;
       d = \<lparr>files = [(''id.json'', Marshal identity_json x)], script = []\<rparr>
   in \<exists>i d' y. LoadIdentity identity_json True ''id.json'' d = (Inr i, d') \<and> PrivateKey_i i = [1, 2] \<and>
     Unmarshal identity_json (the (os_ReadFile ''id.json'' d')) = Some y \<and> PrivateKey_d y = []"
proof -
  let ?x = "\<lparr>DeviceID_d = ''dev'', EnrollmentCounter_d = 1, PublicKey_d = [3], SignPublic_d = [],
         EncPrivateKey_d = [], EncSignKey_d = [], PrivateKey_d = [1, 2], SignPrivate_d = [],
         OrgID_d = '''', Profile_d = ''strong''\<rparr>"
  let ?d = "\<lparr>files = [(''id.json'', Marshal identity_json ?x)], script = []\<rparr>"
  have "ascii_identity ?x" by (simp add: ascii_identity_def ascii_def)
  then show ?thesis
    unfolding Let_def
    using legacy_identity_migrated [OF identity_json_ok, of ?x "''id.json''" ?d]
    by (simp add: os_ReadFile_def) blast
qed

end
