(* ===== verification/KAStore.thy ===== *)
theory KAStore
  imports KATypes
begin

text \<open>
  What the key authority needs of a \<open>Store\<close>: an abstract registry, for every method of the
  interface the relation between its result and the registry before and after, and the contract
  that an implementation satisfies these relations. The consequences that hold for every
  implementation are proved once, inside the locale: serial numbers are never shared, a voucher
  is not redeemed more often than it allows, a revoked device is not issued to.

  Saving can fail. A failed method returns \<open>Persist\<close> (\<open>Internal\<close> for a redemption) and leaves the
  registry as it was or as the method meant it to be: the file-based store changes its memory
  before it saves.
\<close>

section \<open>Abstract registry\<close>

record ka =
  devs :: "string \<rightharpoonup> DeviceRecord"
  vchs :: "string \<rightharpoonup> Voucher"
  ser :: u64

definition ka_empty :: ka where
  "ka_empty = \<lparr>devs = Map.empty, vchs = Map.empty, ser = 0\<rparr>"

definition put_dev :: "string \<Rightarrow> DeviceRecord \<Rightarrow> ka \<Rightarrow> ka" where
  "put_dev d rec k = k\<lparr>devs := (devs k)(d \<mapsto> rec)\<rparr>"

definition put_vch :: "string \<Rightarrow> Voucher \<Rightarrow> ka \<Rightarrow> ka" where
  "put_vch i v k = k\<lparr>vchs := (vchs k)(i \<mapsto> v)\<rparr>"

lemma put_dev_sel [simp]:
  "devs (put_dev d rec k) = (devs k)(d \<mapsto> rec)" "vchs (put_dev d rec k) = vchs k" "ser (put_dev d rec k) = ser k"
  by (simp_all add: put_dev_def)

lemma put_vch_sel [simp]:
  "devs (put_vch i v k) = devs k" "vchs (put_vch i v k) = (vchs k)(i \<mapsto> v)" "ser (put_vch i v k) = ser k"
  by (simp_all add: put_vch_def)

text \<open>The outcome of a method that would return \<open>x\<close> and lead to \<open>k'\<close>, when saving may fail.\<close>

definition saved :: "'a \<Rightarrow> ka \<Rightarrow> ka set \<Rightarrow> ka_error + 'a \<Rightarrow> ka \<Rightarrow> bool" where
  "saved x new partial r k' \<longleftrightarrow> r = Inr x \<and> k' = new \<or> r = Inl Persist \<and> (k' = new \<or> k' \<in> partial)"

definition enroll_spec :: "EnrollRequest \<Rightarrow> ka \<Rightarrow> ka_error + DeviceRecord \<Rightarrow> ka \<Rightarrow> bool" where
  "enroll_spec req k r k' \<longleftrightarrow>
     (case enroll_check req of
        Some e \<Rightarrow> r = Inl e \<and> k' = k
      | None \<Rightarrow>
        (let rec = enrolled_record req (devs k (DeviceID_e req))
         in saved rec (put_dev (DeviceID_e req) rec k) {k} r k'))"

definition revoke_spec :: "string \<Rightarrow> ka \<Rightarrow> ka_error + unit \<Rightarrow> ka \<Rightarrow> bool" where
  "revoke_spec d k r k' \<longleftrightarrow>
     (case devs k d of
        None \<Rightarrow> r \<in> {Inl NotEnrolled, Inl Persist} \<and> k' = k
      | Some rec \<Rightarrow> saved () (put_dev d (rec\<lparr>Revoked := True\<rparr>) k) {k} r k')"

definition mark_spec :: "string \<Rightarrow> u64 \<Rightarrow> ka \<Rightarrow> ka_error + u64 \<Rightarrow> ka \<Rightarrow> bool" where
  "mark_spec d e k r k' \<longleftrightarrow>
     (case devs k d of
        None \<Rightarrow> r = Inl NotEnrolled \<and> k' = k
      | Some rec \<Rightarrow>
        if Revoked rec then r = Inl IsRevoked \<and> k' = k
        else if already_issued e rec then r = Inr (LastSerial rec) \<and> k' = k
        else saved (ser k + 1) (put_dev d (issued_record e (ser k + 1) rec) (k\<lparr>ser := ser k + 1\<rparr>))
               {k, k\<lparr>ser := ser k + 1\<rparr>} r k')"

definition redeem_spec ::
    "(string \<Rightarrow> string) \<Rightarrow> time \<Rightarrow> string \<Rightarrow> ka \<Rightarrow> voucher_error + Voucher \<Rightarrow> ka \<Rightarrow> bool" where
  "redeem_spec hash now code k r k' \<longleftrightarrow>
     (r = Inl InvalidVoucher \<and> k' = k \<and> (\<forall>i v. vchs k i = Some v \<longrightarrow> CodeHash_v v \<noteq> hash code)) \<or>
     (\<exists>i v. vchs k i = Some v \<and> CodeHash_v v = hash code \<and>
        (case voucher_check now v of
           Some e \<Rightarrow> r = Inl e \<and> k' = k
         | None \<Rightarrow> r = Inr (voucher_used v) \<and> k' = put_vch i (voucher_used v) k \<or>
                   r = Inl Internal \<and> k' = k))"

definition add_spec :: "Voucher \<Rightarrow> ka \<Rightarrow> ka_error + unit \<Rightarrow> ka \<Rightarrow> bool" where
  "add_spec v k r k' \<longleftrightarrow>
     (if ID_v v = '''' then r = Inl IDRequired \<and> k' = k
      else saved () (put_vch (ID_v v) v k) {k} r k')"

definition revoke_voucher_spec :: "string \<Rightarrow> ka \<Rightarrow> ka_error + unit \<Rightarrow> ka \<Rightarrow> bool" where
  "revoke_voucher_spec i k r k' \<longleftrightarrow>
     (case vchs k i of
        None \<Rightarrow> r \<in> {Inl NotFound, Inl Persist} \<and> k' = k
      | Some v \<Rightarrow> saved () (put_vch i (v\<lparr>Revoked_v := True\<rparr>) k) {k} r k')"

lemma redeem_spec_refused:
  assumes "vchs k i = Some v" "CodeHash_v v = hash code" "voucher_check now v = Some e"
  shows "redeem_spec hash now code k (Inl e) k"
  unfolding redeem_spec_def by (intro disjI2 exI [of _ i] exI [of _ v]) (simp add: assms)

lemma redeem_spec_accepted:
  assumes "vchs k i = Some v" "CodeHash_v v = hash code" "voucher_check now v = None"
    and "r = Inr (voucher_used v) \<and> k' = put_vch i (voucher_used v) k \<or> r = Inl Internal \<and> k' = k"
  shows "redeem_spec hash now code k r k'"
  unfolding redeem_spec_def by (intro disjI2 exI [of _ i] exI [of _ v]) (use assms in simp)

section \<open>Steps of the abstract registry\<close>

text \<open>One method call with its result; a run is a sequence of them.\<close>

datatype ka_call =
    Enroll EnrollRequest "ka_error + DeviceRecord"
  | Revoke string "ka_error + unit"
  | MarkIssued string u64 "ka_error + u64"
  | RedeemVoucher time string "voucher_error + Voucher"
  | AddVoucher Voucher "ka_error + unit"
  | RevokeVoucher string "ka_error + unit"

inductive ka_step :: "(string \<Rightarrow> string) \<Rightarrow> ka \<Rightarrow> ka_call \<Rightarrow> ka \<Rightarrow> bool" for hash where
  "enroll_spec req k r k' \<Longrightarrow> ka_step hash k (Enroll req r) k'"
| "revoke_spec d k r k' \<Longrightarrow> ka_step hash k (Revoke d r) k'"
| "mark_spec d e k r k' \<Longrightarrow> ka_step hash k (MarkIssued d e r) k'"
| "redeem_spec hash now code k r k' \<Longrightarrow> ka_step hash k (RedeemVoucher now code r) k'"
| "add_spec v k r k' \<Longrightarrow> ka_step hash k (AddVoucher v r) k'"
| "revoke_voucher_spec i k r k' \<Longrightarrow> ka_step hash k (RevokeVoucher i r) k'"

inductive_simps ka_step_simps:
  "ka_step hash k (Enroll req r) k'" "ka_step hash k (Revoke d r) k'"
  "ka_step hash k (MarkIssued d e r) k'" "ka_step hash k (RedeemVoucher now code r) k'"
  "ka_step hash k (AddVoucher v r) k'" "ka_step hash k (RevokeVoucher i r) k'"

inductive ka_run :: "(string \<Rightarrow> string) \<Rightarrow> ka \<Rightarrow> ka_call list \<Rightarrow> ka \<Rightarrow> bool" for hash where
  ka_run_Nil: "ka_run hash k [] k"
| ka_run_snoc: "ka_run hash k cs k1 \<Longrightarrow> ka_step hash k1 c k2 \<Longrightarrow> ka_run hash k (cs @ [c]) k2"

inductive_cases ka_run_snocE: "ka_run hash k (cs @ [c]) k2"

lemma ka_run_Cons:
  assumes "ka_step hash k c k1" and "ka_run hash k1 cs k2"
  shows "ka_run hash k (c # cs) k2"
  using assms(2,1)
proof (induction rule: ka_run.induct)
  case (ka_run_Nil k)
  then show ?case using ka_run_snoc [OF ka_run.ka_run_Nil] by fastforce
next
  case (ka_run_snoc k1 cs k2 c' k3)
  then show ?case using ka_run.ka_run_snoc [of hash k "c # cs" k2 c' k3] by simp
qed

text \<open>How a step changes a device record, a voucher and the serial counter.\<close>

lemma step_ser:
  assumes "ka_step hash k c k'"
  shows "ser k' = ser k \<or> (\<exists>d e r. c = MarkIssued d e r \<and> ser k' = ser k + 1)"
  using assms
  by cases
    (auto simp: enroll_spec_def revoke_spec_def mark_spec_def redeem_spec_def add_spec_def saved_def
      revoke_voucher_spec_def Let_def split: option.splits if_splits)

lemmas ka_specs = enroll_spec_def revoke_spec_def mark_spec_def redeem_spec_def add_spec_def
  revoke_voucher_spec_def saved_def

section \<open>Serial numbers\<close>

text \<open>The grants recorded in the registry, and those that calls have returned.\<close>

definition assigned :: "ka \<Rightarrow> (string \<times> u64 \<times> u64) set" where
  "assigned k = {(d, IssuedEpoch rec, LastSerial rec) | d rec. devs k d = Some rec \<and> LastSerial rec \<noteq> 0}"

definition issued :: "ka_call list \<Rightarrow> (string \<times> u64 \<times> u64) set" where
  "issued cs = {(d, e, n). MarkIssued d e (Inr n) \<in> set cs}"

definition serial_inv :: "(string \<times> u64 \<times> u64) set \<Rightarrow> ka \<Rightarrow> bool" where
  "serial_inv H k \<longleftrightarrow> assigned k \<subseteq> H \<and> (\<forall>(d, e, n) \<in> H. 0 < n \<and> n \<le> ser k) \<and>
     (\<forall>(d, e, n) \<in> H. \<forall>(d', e', n') \<in> H. n = n' \<longrightarrow> d = d' \<and> e = e')"

lemma step_assigned:
  assumes "ka_step hash k c k'"
  shows "assigned k' \<union> issued [c] \<subseteq> assigned k \<and> ser k \<le> ser k' \<or>
    (\<exists>d e. ser k' = ser k + 1 \<and> assigned k' \<union> issued [c] \<subseteq> insert (d, e, ser k + 1) (assigned k))"
  using assms
proof cases
  case (1 req r)
  then show ?thesis
    by (auto simp: enroll_spec_def saved_def Let_def issued_def assigned_def enrolled_record_def
        enroll_new_def enroll_existing_def split: option.splits if_splits)
next
  case (2 d r)
  then show ?thesis
    by (auto simp: revoke_spec_def saved_def issued_def assigned_def split: option.splits if_splits)
next
  case (3 d e r)
  let ?n = "ser k + 1"
  have "assigned k' \<union> issued [c] \<subseteq> assigned k \<and> k' = k \<or>
      assigned k' \<union> issued [c] \<subseteq> insert (d, e, ?n) (assigned k) \<and> ser k' = ?n"
  proof (cases "\<exists>rec. devs k d = Some rec \<and> \<not> Revoked rec \<and> \<not> already_issued e rec")
    case False
    with 3 show ?thesis
      by (auto simp: mark_spec_def issued_def assigned_def already_issued_def split: option.splits if_splits)
  next
    case True
    then obtain rec where rec: "devs k d = Some rec" "\<not> Revoked rec" "\<not> already_issued e rec" by blast
    let ?new = "put_dev d (issued_record e ?n rec) (k\<lparr>ser := ?n\<rparr>)"
    have "assigned ?new \<subseteq> insert (d, e, ?n) (assigned k)"
      by (auto simp: assigned_def issued_record_def split: if_splits)
    moreover have "assigned (k\<lparr>ser := ?n\<rparr>) = assigned k" by (simp add: assigned_def)
    ultimately show ?thesis
      using 3 rec by (auto simp: mark_spec_def saved_def issued_def)
  qed
  then show ?thesis by auto
next
  case (4 now code r)
  then show ?thesis
    by (auto simp: redeem_spec_def issued_def assigned_def split: option.splits)
next
  case (5 v r)
  then show ?thesis
    by (auto simp: add_spec_def saved_def issued_def assigned_def split: if_splits)
next
  case (6 i r)
  then show ?thesis
    by (auto simp: revoke_voucher_spec_def saved_def issued_def assigned_def split: option.splits)
qed


lemma serial_invI:
  assumes "assigned k \<subseteq> H" "\<And>d e n. (d, e, n) \<in> H \<Longrightarrow> 0 < n \<and> n \<le> ser k"
    "\<And>d e d' e' n. (d, e, n) \<in> H \<Longrightarrow> (d', e', n) \<in> H \<Longrightarrow> d = d' \<and> e = e'"
  shows "serial_inv H k"
  unfolding serial_inv_def using assms by blast

lemma serial_invD:
  assumes "serial_inv H k"
  shows "assigned k \<subseteq> H" "(d, e, n) \<in> H \<Longrightarrow> 0 < n" "(d, e, n) \<in> H \<Longrightarrow> n \<le> ser k"
    "(d, e, n) \<in> H \<Longrightarrow> (d', e', n) \<in> H \<Longrightarrow> d = d' \<and> e = e'"
  using assms unfolding serial_inv_def by blast+

lemma serial_inv_same:
  assumes "serial_inv H k" "assigned k' \<subseteq> H" "ser k \<le> ser k'"
  shows "serial_inv H k'"
  by (rule serial_invI)
    (use assms serial_invD [OF assms(1)] in \<open>blast intro: order_trans\<close>)+

lemma serial_inv_new:
  assumes inv: "serial_inv H k" and k': "assigned k' \<subseteq> insert (d, e, ser k + 1) H" "ser k' = ser k + 1"
    and up: "unat (ser k + 1) = unat (ser k) + 1"
  shows "serial_inv (insert (d, e, ser k + 1) H) k'"
proof (rule serial_invI)
  have lt: "n < ser k + 1" if "(d', e', n) \<in> H" for d' e' n
    using serial_invD(3) [OF inv that] up by (simp add: word_less_nat_alt word_le_nat_alt)
  show "assigned k' \<subseteq> insert (d, e, ser k + 1) H" by (rule k'(1))
  show "0 < n \<and> n \<le> ser k'" if "(d', e', n) \<in> insert (d, e, ser k + 1) H" for d' e' n
    using that serial_invD(2) [OF inv, of d' e' n] lt [of d' e' n] up
    by (auto simp: k'(2) word_less_nat_alt word_le_nat_alt)
  show "d1 = d2 \<and> e1 = e2"
    if "(d1, e1, n) \<in> insert (d, e, ser k + 1) H" "(d2, e2, n) \<in> insert (d, e, ser k + 1) H" for d1 e1 d2 e2 n
    using that lt [of d1 e1 n] lt [of d2 e2 n] serial_invD(4) [OF inv, of d1 e1 n d2 e2] by auto
qed

lemma serial_inv_step:
  assumes "serial_inv H k" and "ka_step hash k c k'" and "unat (ser k) + 1 < 2 ^ 64"
  shows "\<exists>H'. H \<union> issued [c] \<subseteq> H' \<and> serial_inv H' k'" and "unat (ser k') \<le> unat (ser k) + 1"
proof -
  have up: "unat (ser k + 1) = unat (ser k) + 1"
    using assms(3) by (simp add: unat_word_ariths)
  note sub = serial_invD(1) [OF assms(1)]
  consider (same) "assigned k' \<union> issued [c] \<subseteq> assigned k" "ser k \<le> ser k'"
    | (new) d e where "ser k' = ser k + 1" "assigned k' \<union> issued [c] \<subseteq> insert (d, e, ser k + 1) (assigned k)"
    using step_assigned [OF assms(2)] by blast
  then show "\<exists>H'. H \<union> issued [c] \<subseteq> H' \<and> serial_inv H' k'"
  proof cases
    case same
    then have "H \<union> issued [c] \<subseteq> H" "assigned k' \<subseteq> H" using sub by auto
    with serial_inv_same [OF assms(1) _ same(2)] show ?thesis by (intro exI [of _ H] conjI)
  next
    case new
    then have "H \<union> issued [c] \<subseteq> insert (d, e, ser k + 1) H" "assigned k' \<subseteq> insert (d, e, ser k + 1) H"
      using sub by auto
    with serial_inv_new [OF assms(1) _ new(1) up, of d e] show ?thesis
      by (intro exI [of _ "insert (d, e, ser k + 1) H"] conjI)
  qed
  show "unat (ser k') \<le> unat (ser k) + 1"
    using step_ser [OF assms(2)]
  proof
    assume "ser k' = ser k"
    then show ?thesis by simp
  next
    assume "\<exists>d e r. c = MarkIssued d e r \<and> ser k' = ser k + 1"
    then show ?thesis using up by (elim exE conjE) (simp only: order_refl)
  qed
qed

lemma issued_snoc: "issued (cs @ [c]) = issued cs \<union> issued [c]"
  by (auto simp: issued_def)

lemma serial_inv_run:
  assumes "ka_run hash k cs k'" and "k = ka_empty" and "length cs < 2 ^ 64"
  shows "(\<exists>H. issued cs \<subseteq> H \<and> serial_inv H k') \<and> unat (ser k') \<le> length cs"
  using assms
proof (induction rule: ka_run.induct)
  case (ka_run_Nil k)
  then show ?case by (auto simp: serial_inv_def issued_def assigned_def ka_empty_def)
next
  case (ka_run_snoc k cs k1 c k2)
  then obtain H where H: "issued cs \<subseteq> H" "serial_inv H k1" "unat (ser k1) \<le> length cs" by auto
  have "unat (ser k1) + 1 < 2 ^ 64" using H(3) ka_run_snoc.prems(2) by simp
  from serial_inv_step [OF H(2) ka_run_snoc.hyps(2) this]
  obtain H' where "H \<union> issued [c] \<subseteq> H'" "serial_inv H' k2" "unat (ser k2) \<le> unat (ser k1) + 1" by blast
  with H show ?case unfolding issued_snoc by (intro conjI exI [of _ H']) auto
qed

section \<open>Vouchers\<close>

definition redeemed :: "string \<Rightarrow> ka_call list \<Rightarrow> nat" where
  "redeemed i cs = length (filter (\<lambda>c. case c of RedeemVoucher _ _ (Inr v) \<Rightarrow> ID_v v = i | _ \<Rightarrow> False) cs)"

definition adds :: "string \<Rightarrow> ka_call \<Rightarrow> bool" where
  "adds i c \<longleftrightarrow> (\<exists>v r. c = AddVoucher v r \<and> ID_v v = i)"

definition keyed :: "ka \<Rightarrow> bool" where
  "keyed k \<longleftrightarrow> (\<forall>i v. vchs k i = Some v \<longrightarrow> ID_v v = i)"

lemma voucher_used_sel [simp]:
  "ID_v (voucher_used v) = ID_v v" "MaxUses_v (voucher_used v) = MaxUses_v v"
  "CodeHash_v (voucher_used v) = CodeHash_v v" "Revoked_v (voucher_used v) = Revoked_v v"
  by (simp_all add: voucher_used_def)

lemma keyed_step: "ka_step hash k c k' \<Longrightarrow> keyed k \<Longrightarrow> keyed k'"
  by (erule ka_step.cases)
    (auto simp: keyed_def ka_specs Let_def split: option.splits if_splits)

text \<open>A voucher with a limit, seen by one step that does not replace it.\<close>

lemma voucher_step:
  assumes "ka_step hash k c k'" "keyed k" "vchs k i = Some v" "\<not> adds i c"
    and "0 < MaxUses_v v" "is_i64 (MaxUses_v v)" "0 \<le> Uses_v v" "Uses_v v \<le> MaxUses_v v"
  shows "\<exists>v'. vchs k' i = Some v' \<and> MaxUses_v v' = MaxUses_v v \<and> Uses_v v' = Uses_v v + int (redeemed i [c]) \<and>
    Uses_v v' \<le> MaxUses_v v"
  using assms(1)
proof cases
  case (4 now code r)
  show ?thesis
  proof (cases r)
    case (Inl e)
    then have "k' = k" using 4 by (auto simp: redeem_spec_def split: option.splits)
    with assms Inl 4 show ?thesis by (simp add: redeemed_def)
  next
    case (Inr u)
    then obtain j w where j: "vchs k j = Some w" "voucher_check now w = None" "u = voucher_used w"
      "k' = put_vch j (voucher_used w) k"
      using 4 by (auto simp: redeem_spec_def split: option.splits)
    have idw: "ID_v w = j" using assms(2) j(1) by (simp add: keyed_def)
    show ?thesis
    proof (cases "j = i")
      case True
      then have "w = v" using j(1) assms(3) by simp
      then have less: "Uses_v v < MaxUses_v v"
        using j(2) assms(5) by (auto simp: voucher_check_def split: if_splits)
      then have "wrap64 (Uses_v v + 1) = Uses_v v + 1"
        using assms(6,7) by (intro wrap64_id) (simp add: is_i64_def)
      with True \<open>w = v\<close> less j idw Inr 4 show ?thesis
        by (simp add: redeemed_def voucher_used_def)
    next
      case False
      with j idw assms Inr 4 show ?thesis by (simp add: redeemed_def)
    qed
  qed
qed (use assms in \<open>auto simp: ka_specs redeemed_def adds_def Let_def split: option.splits if_splits\<close>)

lemma redeemed_snoc: "redeemed i (cs @ [c]) = redeemed i cs + redeemed i [c]"
  by (simp add: redeemed_def)

lemma voucher_run:
  assumes "ka_run hash k cs k'" "keyed k" "vchs k i = Some v" "\<forall>c \<in> set cs. \<not> adds i c"
    and "0 < MaxUses_v v" "is_i64 (MaxUses_v v)" "0 \<le> Uses_v v" "Uses_v v \<le> MaxUses_v v"
  shows "keyed k' \<and> (\<exists>v'. vchs k' i = Some v' \<and> MaxUses_v v' = MaxUses_v v \<and>
    Uses_v v' = Uses_v v + int (redeemed i cs) \<and> Uses_v v' \<le> MaxUses_v v)"
  using assms
proof (induction rule: ka_run.induct)
  case (ka_run_Nil k)
  then show ?case by (simp add: redeemed_def)
next
  case (ka_run_snoc k cs k1 c k2)
  then obtain v1 where v1: "keyed k1" "vchs k1 i = Some v1" "MaxUses_v v1 = MaxUses_v v"
    "Uses_v v1 = Uses_v v + int (redeemed i cs)" "Uses_v v1 \<le> MaxUses_v v" by auto
  have "\<not> adds i c" using ka_run_snoc.prems by simp
  from voucher_step [OF ka_run_snoc.hyps(2) v1(1,2) this] v1 ka_run_snoc.prems
    keyed_step [OF ka_run_snoc.hyps(2) v1(1)]
  show ?case by (auto simp: redeemed_snoc)
qed

section \<open>Revocation\<close>

definition enrolls :: "string \<Rightarrow> ka_call \<Rightarrow> bool" where
  "enrolls d c \<longleftrightarrow> (\<exists>req r. c = Enroll req r \<and> DeviceID_e req = d)"

lemma revoked_step:
  assumes "ka_step hash k c k'" "devs k d = Some rec" "Revoked rec" "\<not> enrolls d c"
  shows "(\<exists>rec'. devs k' d = Some rec' \<and> Revoked rec') \<and> (\<forall>e r. c = MarkIssued d e r \<longrightarrow> r = Inl IsRevoked)"
  using assms
  by (auto elim!: ka_step.cases simp: ka_specs enrolls_def issued_record_def Let_def
      split: option.splits if_splits)

lemma revoked_run:
  assumes "ka_run hash k cs k'" "devs k d = Some rec" "Revoked rec" "\<forall>c \<in> set cs. \<not> enrolls d c"
  shows "(\<exists>rec'. devs k' d = Some rec' \<and> Revoked rec') \<and>
    (\<forall>e r. MarkIssued d e r \<in> set cs \<longrightarrow> r = Inl IsRevoked)"
  using assms
proof (induction rule: ka_run.induct)
  case (ka_run_snoc k cs k1 c k2)
  then obtain rec1 where "devs k1 d = Some rec1" "Revoked rec1" by auto
  with revoked_step [OF ka_run_snoc.hyps(2), of d rec1] ka_run_snoc show ?case by auto
qed auto

section \<open>Calls on an implementation\<close>

datatype ka_op =
    DoEnroll EnrollRequest
  | DoRevoke string
  | DoMarkIssued string u64
  | DoRedeemVoucher time string
  | DoAddVoucher Voucher
  | DoRevokeVoucher string

fun do_op :: "'s Store \<Rightarrow> ka_op \<Rightarrow> 's \<Rightarrow> ka_call \<times> 's" where
  "do_op S (DoEnroll req) s = map_prod (Enroll req) id (st_Enroll S req s)"
| "do_op S (DoRevoke d) s = map_prod (Revoke d) id (st_Revoke S d s)"
| "do_op S (DoMarkIssued d e) s = map_prod (MarkIssued d e) id (st_MarkIssued S d e s)"
| "do_op S (DoRedeemVoucher now code) s = map_prod (RedeemVoucher now code) id (st_RedeemVoucher S now code s)"
| "do_op S (DoAddVoucher v) s = map_prod (AddVoucher v) id (st_AddVoucher S v s)"
| "do_op S (DoRevokeVoucher i) s = map_prod (RevokeVoucher i) id (st_RevokeVoucher S i s)"

fun do_ops :: "'s Store \<Rightarrow> ka_op list \<Rightarrow> 's \<Rightarrow> ka_call list \<times> 's" where
  "do_ops S [] s = ([], s)"
| "do_ops S (x # xs) s = (let (c, s1) = do_op S x s; (cs, s2) = do_ops S xs s1 in (c # cs, s2))"

fun op_of :: "ka_call \<Rightarrow> ka_op" where
  "op_of (Enroll req r) = DoEnroll req"
| "op_of (Revoke d r) = DoRevoke d"
| "op_of (MarkIssued d e r) = DoMarkIssued d e"
| "op_of (RedeemVoucher now code r) = DoRedeemVoucher now code"
| "op_of (AddVoucher v r) = DoAddVoucher v"
| "op_of (RevokeVoucher i r) = DoRevokeVoucher i"

lemma op_of_do_op: "op_of (fst (do_op S x s)) = x"
  by (cases x) simp_all

lemma do_ops_calls: "do_ops S ops s = (cs, s') \<Longrightarrow> map op_of cs = ops"
  by (induction ops arbitrary: s cs) (auto simp: split_beta op_of_do_op prod_eq_iff)

lemma do_ops_adds:
  assumes "do_ops S ops s = (cs, s')" and "\<forall>v. DoAddVoucher v \<in> set ops \<longrightarrow> ID_v v \<noteq> i"
  shows "\<forall>c \<in> set cs. \<not> adds i c"
  using do_ops_calls [OF assms(1)] assms(2) by (force simp: adds_def)

lemma do_ops_enrolls:
  assumes "do_ops S ops s = (cs, s')" and "\<forall>req. DoEnroll req \<in> set ops \<longrightarrow> DeviceID_e req \<noteq> d"
  shows "\<forall>c \<in> set cs. \<not> enrolls d c"
  using do_ops_calls [OF assms(1)] assms(2) by (force simp: enrolls_def)

lemma length_do_ops: "do_ops S ops s = (cs, s') \<Longrightarrow> length cs = length ops"
  using do_ops_calls by (metis length_map)

section \<open>The contract\<close>

locale ka_store =
  fixes S :: "'s Store"
    and abs :: "'s \<Rightarrow> ka"
    and invar :: "'s \<Rightarrow> bool"
    and hash :: "string \<Rightarrow> string"
  assumes get: "invar s \<Longrightarrow> st_Get S d s = devs (abs s) d"
    and list_devices: "invar s \<Longrightarrow> set (st_ListDevices S s) = ran (devs (abs s))"
    and list_vouchers: "invar s \<Longrightarrow> set (st_ListVouchers S s) = voucher_info ` ran (vchs (abs s))"
    and enroll: "invar s \<Longrightarrow> st_Enroll S req s = (r1, s') \<Longrightarrow> invar s' \<and> enroll_spec req (abs s) r1 (abs s')"
    and revoke: "invar s \<Longrightarrow> st_Revoke S d s = (r2, s') \<Longrightarrow> invar s' \<and> revoke_spec d (abs s) r2 (abs s')"
    and mark: "invar s \<Longrightarrow> st_MarkIssued S d e s = (r3, s') \<Longrightarrow> invar s' \<and> mark_spec d e (abs s) r3 (abs s')"
    and redeem: "invar s \<Longrightarrow> st_RedeemVoucher S now code s = (r4, s') \<Longrightarrow>
      invar s' \<and> redeem_spec hash now code (abs s) r4 (abs s')"
    and add: "invar s \<Longrightarrow> st_AddVoucher S v s = (r5, s') \<Longrightarrow> invar s' \<and> add_spec v (abs s) r5 (abs s')"
    and revoke_voucher: "invar s \<Longrightarrow> st_RevokeVoucher S i s = (r6, s') \<Longrightarrow>
      invar s' \<and> revoke_voucher_spec i (abs s) r6 (abs s')"
    and invar_keyed: "invar s \<Longrightarrow> keyed (abs s)"
begin

lemma op_step:
  assumes "invar s" and "do_op S x s = (c, s')"
  shows "invar s' \<and> ka_step hash (abs s) c (abs s')"
proof (cases x)
  case (DoEnroll req)
  with assms show ?thesis
    by (cases "st_Enroll S req s") (auto simp: ka_step_simps dest: enroll)
next
  case (DoRevoke d)
  with assms show ?thesis
    by (cases "st_Revoke S d s") (auto simp: ka_step_simps dest: revoke)
next
  case (DoMarkIssued d e)
  with assms show ?thesis
    by (cases "st_MarkIssued S d e s") (auto simp: ka_step_simps dest: mark)
next
  case (DoRedeemVoucher now code)
  with assms show ?thesis
    by (cases "st_RedeemVoucher S now code s") (auto simp: ka_step_simps dest: redeem)
next
  case (DoAddVoucher v)
  with assms show ?thesis
    by (cases "st_AddVoucher S v s") (auto simp: ka_step_simps dest: add)
next
  case (DoRevokeVoucher i)
  with assms show ?thesis
    by (cases "st_RevokeVoucher S i s") (auto simp: ka_step_simps dest: revoke_voucher)
qed

lemma ops_run:
  assumes "invar s" and "do_ops S ops s = (cs, s')"
  shows "invar s' \<and> ka_run hash (abs s) cs (abs s')"
  using assms
proof (induction ops arbitrary: s cs)
  case Nil
  then show ?case by (auto intro: ka_run_Nil)
next
  case (Cons x xs)
  obtain c s1 cs' where 1: "do_op S x s = (c, s1)" and 2: "do_ops S xs s1 = (cs', s')" and 3: "cs = c # cs'"
    using Cons.prems(2) by (auto simp: split_beta) (metis prod.collapse)
  show ?case
    using op_step [OF Cons.prems(1) 1] Cons.IH [OF _ 2] ka_run_Cons 3 by blast
qed

lemma serials_unique:
  assumes "invar s" "abs s = ka_empty" "do_ops S ops s = (cs, s')" "length ops < 2 ^ 64"
    and "MarkIssued d e (Inr n) \<in> set cs" "MarkIssued d' e' (Inr n) \<in> set cs"
  shows "d = d' \<and> e = e' \<and> 0 < n"
proof -
  have "ka_run hash ka_empty cs (abs s')" using ops_run [OF assms(1,3)] assms(2) by simp
  then obtain H where H: "issued cs \<subseteq> H" "serial_inv H (abs s')"
    using serial_inv_run [of hash ka_empty cs "abs s'"] length_do_ops [OF assms(3)] assms(4) by auto
  have m: "(d, e, n) \<in> H" "(d', e', n) \<in> H" using assms(5,6) H(1) by (auto simp: issued_def)
  then show ?thesis using serial_invD(2,4) [OF H(2)] by blast
qed

lemma redemptions_bounded:
  assumes "invar s" "do_ops S ops s = (cs, s')" "vchs (abs s) i = Some v"
    and "\<forall>w. DoAddVoucher w \<in> set ops \<longrightarrow> ID_v w \<noteq> i"
    and "0 < MaxUses_v v" "is_i64 (MaxUses_v v)" "0 \<le> Uses_v v" "Uses_v v \<le> MaxUses_v v"
  shows "int (redeemed i cs) \<le> MaxUses_v v - Uses_v v"
proof -
  have "ka_run hash (abs s) cs (abs s')" using ops_run [OF assms(1,2)] by simp
  from voucher_run [OF this invar_keyed [OF assms(1)] assms(3) do_ops_adds [OF assms(2,4)] assms(5-8)]
  show ?thesis by auto
qed

lemma revoked_not_issued:
  assumes "invar s" "do_ops S ops s = (cs, s')" "devs (abs s) d = Some rec" "Revoked rec"
    and "\<forall>req. DoEnroll req \<in> set ops \<longrightarrow> DeviceID_e req \<noteq> d"
  shows "\<forall>e r. MarkIssued d e r \<in> set cs \<longrightarrow> r = Inl IsRevoked"
    and "\<exists>rec'. st_Get S d s' = Some rec' \<and> Revoked rec'"
proof -
  have run: "invar s'" "ka_run hash (abs s) cs (abs s')" using ops_run [OF assms(1,2)] by simp_all
  show "\<forall>e r. MarkIssued d e r \<in> set cs \<longrightarrow> r = Inl IsRevoked"
    and "\<exists>rec'. st_Get S d s' = Some rec' \<and> Revoked rec'"
    using revoked_run [OF run(2) assms(3,4) do_ops_enrolls [OF assms(2,5)]] get [OF run(1)] by simp_all
qed

lemma mark_idempotent:
  assumes "invar s" "st_MarkIssued S d e s = (Inr n, s1)" "ser (abs s) + 1 \<noteq> 0"
    and "st_MarkIssued S d e s1 = (r, s2)"
  shows "r = Inr n \<and> abs s2 = abs s1"
proof -
  have 1: "invar s1" "mark_spec d e (abs s) (Inr n) (abs s1)" using mark [OF assms(1,2)] by simp_all
  have 2: "mark_spec d e (abs s1) r (abs s2)" using mark [OF 1(1) assms(4)] by simp
  have "\<exists>rec. devs (abs s1) d = Some rec \<and> \<not> Revoked rec \<and> already_issued e rec \<and> LastSerial rec = n"
    using 1(2) assms(3)
    by (auto simp: mark_spec_def saved_def already_issued_def issued_record_def split: option.splits if_splits)
  with 2 show ?thesis by (auto simp: mark_spec_def)
qed

end

end
