(* ===== verification/Registry.thy ===== *)
theory Registry
  imports KAStore Files FieldCodec
begin

text \<open>
  The file-based store, \<^verbatim>\<open>internal/kaapi/registry.go\<close> and the \<open>Registry\<close> methods of
  \<^verbatim>\<open>internal/kaapi/voucher.go\<close>: maps in memory, written as a whole to one JSON file after every
  change. The maps hold pointers, so a change of a record is a change of the map entry; the order
  of an association list stands for the iteration order of the Go map.
\<close>

section \<open>Definitions\<close>

record reg_data =
  Devices :: "(string \<times> DeviceRecord) list"
  Vouchers :: "(string \<times> Voucher) list"
  Serial :: u64

record Registry =
  reg_path :: string
  reg :: reg_data
  reg_disk :: disk

datatype load_error = SaveFailed | BadRegistryFile

definition saveLocked :: "reg_data json \<Rightarrow> Registry \<Rightarrow> bool \<times> Registry" where
  "saveLocked J r =
     (case os_WriteFile (reg_path r) (Marshal J (reg r)) (reg_disk r) of
        (ok, d) \<Rightarrow> (ok, r\<lparr>reg_disk := d\<rparr>))"

definition reg_Save :: "reg_data json \<Rightarrow> Registry \<Rightarrow> bool \<times> Registry" where
  "reg_Save J r = saveLocked J r"

definition LoadRegistry :: "reg_data json \<Rightarrow> string \<Rightarrow> (disk, load_error, Registry) go" where
  "LoadRegistry J path = (\<lambda>d.
     let empty = \<lparr>reg_path = path, reg = \<lparr>Devices = [], Vouchers = [], Serial = 0\<rparr>, reg_disk = d\<rparr>
     in case os_ReadFile path d of
          None \<Rightarrow> (case reg_Save J empty of
                     (ok, r) \<Rightarrow> (if ok then Inr r else Inl SaveFailed, reg_disk r))
        | Some b \<Rightarrow> (case Unmarshal J b of
                       None \<Rightarrow> (Inl BadRegistryFile, d)
                     | Some x \<Rightarrow> (Inr (empty\<lparr>reg := x\<rparr>), d)))"

text \<open>The common end of the methods: save, and return the value or the error.\<close>

definition save_and_return :: "reg_data json \<Rightarrow> 'a \<Rightarrow> (Registry, ka_error, 'a) go" where
  "save_and_return J x = (\<lambda>r. case saveLocked J r of
     (ok, r') \<Rightarrow> (if ok then Inr x else Inl Persist, r'))"

definition set_device :: "string \<Rightarrow> DeviceRecord \<Rightarrow> Registry \<Rightarrow> Registry" where
  "set_device d rec r = r\<lparr>reg := (reg r)\<lparr>Devices := AList.update d rec (Devices (reg r))\<rparr>\<rparr>"

definition set_voucher :: "string \<Rightarrow> Voucher \<Rightarrow> Registry \<Rightarrow> Registry" where
  "set_voucher i v r = r\<lparr>reg := (reg r)\<lparr>Vouchers := AList.update i v (Vouchers (reg r))\<rparr>\<rparr>"

definition reg_Enroll :: "reg_data json \<Rightarrow> EnrollRequest \<Rightarrow> (Registry, ka_error, DeviceRecord) go" where
  "reg_Enroll J req = (\<lambda>r.
     case enroll_check req of
       Some e \<Rightarrow> (Inl e, r)
     | None \<Rightarrow>
       (let rec = (case map_of (Devices (reg r)) (DeviceID_e req) of
                     Some existing \<Rightarrow> enroll_existing req existing
                   | None \<Rightarrow> enroll_new req)
        in save_and_return J rec (set_device (DeviceID_e req) rec r)))"

definition reg_Get :: "string \<Rightarrow> Registry \<Rightarrow> DeviceRecord option" where
  "reg_Get deviceID r = map_of (Devices (reg r)) deviceID"

definition reg_ListDevices :: "Registry \<Rightarrow> DeviceRecord list" where
  "reg_ListDevices r = map snd (Devices (reg r))"

definition reg_Revoke :: "reg_data json \<Rightarrow> string \<Rightarrow> (Registry, ka_error, unit) go" where
  "reg_Revoke J deviceID = (\<lambda>r.
     case map_of (Devices (reg r)) deviceID of
       None \<Rightarrow> (Inl NotEnrolled, r)
     | Some rec \<Rightarrow> save_and_return J () (set_device deviceID (rec\<lparr>Revoked := True\<rparr>) r))"

definition reg_MarkIssued :: "reg_data json \<Rightarrow> string \<Rightarrow> u64 \<Rightarrow> (Registry, ka_error, u64) go" where
  "reg_MarkIssued J deviceID epochID = (\<lambda>r.
     case map_of (Devices (reg r)) deviceID of
       None \<Rightarrow> (Inl NotEnrolled, r)
     | Some rec \<Rightarrow>
       if Revoked rec then (Inl IsRevoked, r)
       else if already_issued epochID rec then (Inr (LastSerial rec), r)
       else
         let serial = Serial (reg r) + 1;
             r1 = r\<lparr>reg := (reg r)\<lparr>Serial := serial\<rparr>\<rparr>
         in save_and_return J serial (set_device deviceID (issued_record epochID serial rec) r1))"

definition reg_RedeemVoucher ::
    "(bytes \<Rightarrow> bytes) \<Rightarrow> reg_data json \<Rightarrow> time \<Rightarrow> string \<Rightarrow> (Registry, voucher_error, Voucher) go" where
  "reg_RedeemVoucher sha256 J now code = (\<lambda>r.
     case find (\<lambda>(i, v). CodeHash_v v = HashVoucherCode sha256 code) (Vouchers (reg r)) of
       None \<Rightarrow> (Inl InvalidVoucher, r)
     | Some (i, found) \<Rightarrow>
       (case voucher_check now found of
          Some e \<Rightarrow> (Inl e, r)
        | None \<Rightarrow>
          (case saveLocked J (set_voucher i (voucher_used found) r) of
             (True, r') \<Rightarrow> (Inr (voucher_used found), r')
           | (False, r') \<Rightarrow> (Inl Internal, set_voucher i found r'))))"

definition reg_AddVoucher :: "reg_data json \<Rightarrow> Voucher \<Rightarrow> (Registry, ka_error, unit) go" where
  "reg_AddVoucher J v = (\<lambda>r.
     if ID_v v = '''' then (Inl IDRequired, r)
     else save_and_return J () (set_voucher (ID_v v) v r))"

definition reg_ListVouchers :: "Registry \<Rightarrow> VoucherInfo list" where
  "reg_ListVouchers r = map (\<lambda>(i, v). voucher_info v) (Vouchers (reg r))"

definition reg_RevokeVoucher :: "reg_data json \<Rightarrow> string \<Rightarrow> (Registry, ka_error, unit) go" where
  "reg_RevokeVoucher J i = (\<lambda>r.
     case map_of (Vouchers (reg r)) i of
       None \<Rightarrow> (Inl NotFound, r)
     | Some v \<Rightarrow> save_and_return J () (set_voucher i (v\<lparr>Revoked_v := True\<rparr>) r))"

definition registry_Store :: "(bytes \<Rightarrow> bytes) \<Rightarrow> reg_data json \<Rightarrow> Registry Store" where
  "registry_Store sha256 J = \<lparr>
     st_Enroll = reg_Enroll J, st_Get = reg_Get, st_ListDevices = reg_ListDevices,
     st_Revoke = reg_Revoke J, st_MarkIssued = reg_MarkIssued J,
     st_RedeemVoucher = reg_RedeemVoucher sha256 J, st_AddVoucher = reg_AddVoucher J,
     st_ListVouchers = reg_ListVouchers, st_RevokeVoucher = reg_RevokeVoucher J\<rparr>"

section \<open>The registry keeps the contract\<close>

definition data_abs :: "reg_data \<Rightarrow> ka" where
  "data_abs x = \<lparr>devs = map_of (Devices x), vchs = map_of (Vouchers x), ser = Serial x\<rparr>"

definition data_wf :: "reg_data \<Rightarrow> bool" where
  "data_wf x \<longleftrightarrow> distinct (map fst (Devices x)) \<and> distinct (map fst (Vouchers x)) \<and> keyed (data_abs x)"

definition reg_abs :: "Registry \<Rightarrow> ka" where
  "reg_abs r = data_abs (reg r)"

definition reg_invar :: "Registry \<Rightarrow> bool" where
  "reg_invar r \<longleftrightarrow> data_wf (reg r)"

lemma data_abs_sel [simp]:
  "devs (data_abs x) = map_of (Devices x)" "vchs (data_abs x) = map_of (Vouchers x)" "ser (data_abs x) = Serial x"
  by (simp_all add: data_abs_def)

lemma set_device_sel [simp]:
  "reg_abs (set_device d rec r) = put_dev d rec (reg_abs r)"
  "reg_invar r \<Longrightarrow> reg_invar (set_device d rec r)"
  by (simp_all add: set_device_def reg_abs_def data_abs_def put_dev_def reg_invar_def data_wf_def keyed_def)

lemma set_voucher_sel [simp]:
  "reg_abs (set_voucher i v r) = put_vch i v (reg_abs r)"
  "reg_invar r \<Longrightarrow> ID_v v = i \<Longrightarrow> reg_invar (set_voucher i v r)"
  by (simp_all add: set_voucher_def reg_abs_def data_abs_def put_vch_def reg_invar_def data_wf_def keyed_def)

lemma set_serial_sel [simp]:
  "reg_abs (r\<lparr>reg := (reg r)\<lparr>Serial := n\<rparr>\<rparr>) = (reg_abs r)\<lparr>ser := n\<rparr>"
  "reg_invar r \<Longrightarrow> reg_invar (r\<lparr>reg := (reg r)\<lparr>Serial := n\<rparr>\<rparr>)"
  by (simp_all add: reg_abs_def data_abs_def reg_invar_def data_wf_def keyed_def)

lemma saveLocked_reg:
  "saveLocked J r = (ok, r') \<Longrightarrow> reg r' = reg r \<and> reg_path r' = reg_path r \<and>
     reg_abs r' = reg_abs r \<and> reg_invar r' = reg_invar r"
  by (auto simp: saveLocked_def reg_abs_def reg_invar_def split: prod.splits)

lemma save_and_return_saved:
  assumes "save_and_return J x r1 = (res, r')" and "reg_invar r1"
  shows "reg_invar r' \<and> saved x (reg_abs r1) P res (reg_abs r')"
proof -
  obtain ok where sv: "saveLocked J r1 = (ok, r')" and res: "res = (if ok then Inr x else Inl Persist)"
    using assms(1) by (auto simp: save_and_return_def split: prod.splits)
  show ?thesis using saveLocked_reg [OF sv] assms(2) by (simp add: res saved_def)
qed

lemma find_SomeD: "find P xs = Some x \<Longrightarrow> x \<in> set xs \<and> P x"
  by (induction xs) (auto split: if_splits)

lemma find_NoneD: "find P xs = None \<Longrightarrow> x \<in> set xs \<Longrightarrow> \<not> P x"
  by (induction xs) (auto split: if_splits)

lemma reg_Enroll_spec:
  assumes "reg_invar r" and "reg_Enroll J req r = (res, r')"
  shows "reg_invar r' \<and> enroll_spec req (reg_abs r) res (reg_abs r')"
proof (cases "enroll_check req")
  case (Some e)
  with assms show ?thesis by (simp add: reg_Enroll_def enroll_spec_def)
next
  case None
  let ?rec = "enrolled_record req (devs (reg_abs r) (DeviceID_e req))"
  have "save_and_return J ?rec (set_device (DeviceID_e req) ?rec r) = (res, r')"
    using assms(2) None by (simp add: reg_Enroll_def enrolled_record_def reg_abs_def Let_def split: option.splits)
  from save_and_return_saved [OF this, of "{reg_abs r}"] assms(1) None show ?thesis
    by (simp add: enroll_spec_def Let_def)
qed

lemma reg_Revoke_spec:
  assumes "reg_invar r" and "reg_Revoke J d r = (res, r')"
  shows "reg_invar r' \<and> revoke_spec d (reg_abs r) res (reg_abs r')"
proof (cases "map_of (Devices (reg r)) d")
  case None
  with assms show ?thesis by (auto simp: reg_Revoke_def revoke_spec_def reg_abs_def)
next
  case (Some rec)
  then have "save_and_return J () (set_device d (rec\<lparr>Revoked := True\<rparr>) r) = (res, r')"
    using assms(2) by (simp add: reg_Revoke_def)
  from save_and_return_saved [OF this, of "{reg_abs r}"] assms(1) Some show ?thesis
    by (simp add: revoke_spec_def) (simp add: reg_abs_def)
qed

lemma reg_MarkIssued_spec:
  assumes "reg_invar r" and "reg_MarkIssued J d e r = (res, r')"
  shows "reg_invar r' \<and> mark_spec d e (reg_abs r) res (reg_abs r')"
proof (cases "\<exists>rec. map_of (Devices (reg r)) d = Some rec \<and> \<not> Revoked rec \<and> \<not> already_issued e rec")
  case False
  with assms show ?thesis
    by (auto simp: reg_MarkIssued_def mark_spec_def reg_abs_def split: option.splits if_splits)
next
  case True
  then obtain rec where rec: "map_of (Devices (reg r)) d = Some rec" "\<not> Revoked rec" "\<not> already_issued e rec"
    by blast
  let ?n = "Serial (reg r) + 1"
  have ser: "ser (reg_abs r) = Serial (reg r)" and dev: "devs (reg_abs r) d = Some rec"
    using rec(1) by (simp_all add: reg_abs_def)
  have "save_and_return J ?n (set_device d (issued_record e ?n rec) (r\<lparr>reg := (reg r)\<lparr>Serial := ?n\<rparr>\<rparr>)) = (res, r')"
    using assms(2) rec by (simp add: reg_MarkIssued_def Let_def)
  from save_and_return_saved [OF this, of "{reg_abs r, (reg_abs r)\<lparr>ser := ?n\<rparr>}"] assms(1) rec(2,3) show ?thesis
    by (simp add: mark_spec_def ser dev)
qed

lemma put_vch_same: "vchs k i = Some v \<Longrightarrow> put_vch i v (put_vch i w k) = k"
  by (cases k) (auto simp: put_vch_def)

lemma reg_RedeemVoucher_spec:
  assumes "reg_invar r" and "reg_RedeemVoucher sha J now code r = (res, r')"
  shows "reg_invar r' \<and> redeem_spec (HashVoucherCode sha) now code (reg_abs r) res (reg_abs r')"
proof (cases "find (\<lambda>(i, v). CodeHash_v v = HashVoucherCode sha code) (Vouchers (reg r))")
  case None
  have "CodeHash_v v \<noteq> HashVoucherCode sha code" if "map_of (Vouchers (reg r)) i = Some v" for i v
    using find_NoneD [OF None, of "(i, v)"] map_of_SomeD [OF that] by simp
  with None assms show ?thesis
    by (simp add: reg_RedeemVoucher_def redeem_spec_def) (simp add: reg_abs_def)
next
  case (Some iv)
  obtain i v where iv: "iv = (i, v)" by fastforce
  have "(i, v) \<in> set (Vouchers (reg r))" and h: "CodeHash_v v = HashVoucherCode sha code"
    using find_SomeD [OF Some] iv by auto
  then have v: "vchs (reg_abs r) i = Some v" "ID_v v = i"
    using assms(1) by (auto simp: reg_abs_def reg_invar_def data_wf_def keyed_def)
  show ?thesis
  proof (cases "voucher_check now v")
    case (Some e)
    then have "res = Inl e" "r' = r"
      using \<open>find _ _ = Some iv\<close> iv assms(2) by (simp_all add: reg_RedeemVoucher_def)
    then show ?thesis using assms(1) redeem_spec_refused [where hash = "HashVoucherCode sha", OF v(1) h Some] by simp
  next
    case None
    obtain ok r1 where sv: "saveLocked J (set_voucher i (voucher_used v) r) = (ok, r1)" by fastforce
    have r1: "reg_abs r1 = put_vch i (voucher_used v) (reg_abs r)" "reg_invar r1"
      using saveLocked_reg [OF sv] assms(1) v(2) by simp_all
    have res: "(res, r') = (if ok then (Inr (voucher_used v), r1) else (Inl Internal, set_voucher i v r1))"
      using assms(2) Some iv None sv by (cases ok) (simp_all add: reg_RedeemVoucher_def)
    have "reg_invar r'" using res r1 v by (cases ok) simp_all
    moreover have "res = Inr (voucher_used v) \<and> reg_abs r' = put_vch i (voucher_used v) (reg_abs r) \<or>
        res = Inl Internal \<and> reg_abs r' = reg_abs r"
      using res r1 v put_vch_same [OF v(1)] by (cases ok) simp_all
    ultimately show ?thesis using redeem_spec_accepted [where hash = "HashVoucherCode sha", OF v(1) h None] by simp
  qed
qed

lemma reg_AddVoucher_spec:
  assumes "reg_invar r" and "reg_AddVoucher J v r = (res, r')"
  shows "reg_invar r' \<and> add_spec v (reg_abs r) res (reg_abs r')"
proof (cases "ID_v v = ''''")
  case True
  with assms show ?thesis by (simp add: reg_AddVoucher_def add_spec_def)
next
  case False
  then have "save_and_return J () (set_voucher (ID_v v) v r) = (res, r')"
    using assms(2) by (simp add: reg_AddVoucher_def)
  from save_and_return_saved [OF this, of "{reg_abs r}"] assms(1) False show ?thesis
    by (simp add: add_spec_def)
qed

lemma reg_RevokeVoucher_spec:
  assumes "reg_invar r" and "reg_RevokeVoucher J i r = (res, r')"
  shows "reg_invar r' \<and> revoke_voucher_spec i (reg_abs r) res (reg_abs r')"
proof (cases "map_of (Vouchers (reg r)) i")
  case None
  with assms show ?thesis by (auto simp: reg_RevokeVoucher_def revoke_voucher_spec_def reg_abs_def)
next
  case (Some v)
  then have a: "vchs (reg_abs r) i = Some v" by (simp add: reg_abs_def)
  then have "ID_v v = i" using assms(1) by (simp add: reg_invar_def data_wf_def keyed_def reg_abs_def)
  moreover have "save_and_return J () (set_voucher i (v\<lparr>Revoked_v := True\<rparr>) r) = (res, r')"
    using Some assms(2) by (simp add: reg_RevokeVoucher_def)
  ultimately show ?thesis
    using save_and_return_saved [of J "()" "set_voucher i (v\<lparr>Revoked_v := True\<rparr>) r" res r' "{reg_abs r}"] assms(1) a
    by (simp add: revoke_voucher_spec_def)
qed

interpretation rst: ka_store "registry_Store sha J" reg_abs reg_invar "HashVoucherCode sha" for sha J
proof
  fix r :: Registry
  assume inv: "reg_invar r"
  show "st_Get (registry_Store sha J) d r = devs (reg_abs r) d" for d
    by (simp add: registry_Store_def reg_Get_def reg_abs_def)
  show "set (st_ListDevices (registry_Store sha J) r) = ran (devs (reg_abs r))"
    using inv by (simp add: registry_Store_def reg_ListDevices_def reg_abs_def reg_invar_def data_wf_def ran_distinct)
  show "set (st_ListVouchers (registry_Store sha J) r) = voucher_info ` ran (vchs (reg_abs r))"
    using inv by (auto simp: registry_Store_def reg_ListVouchers_def reg_abs_def reg_invar_def data_wf_def
        ran_distinct image_image split_beta)
  show "keyed (reg_abs r)" using inv by (simp add: reg_invar_def data_wf_def reg_abs_def)
qed (auto simp: registry_Store_def dest: reg_Enroll_spec reg_Revoke_spec reg_MarkIssued_spec
      reg_RedeemVoucher_spec reg_AddVoucher_spec reg_RevokeVoucher_spec)

section \<open>The file and the memory\<close>

text \<open>
  What the registry needs of JSON: well-formed contents with ASCII strings are read back with the
  same entries, in whatever order.
\<close>

definition ascii_device :: "DeviceRecord \<Rightarrow> bool" where
  "ascii_device r \<longleftrightarrow> ascii (DeviceID r) \<and> ascii (OrgID r) \<and> ascii (Label r) \<and> ascii (Profile r)"

definition wf_voucher :: "Voucher \<Rightarrow> bool" where
  "wf_voucher v \<longleftrightarrow> ascii (ID_v v) \<and> ascii (CodeHash_v v) \<and> ascii (Label_v v) \<and> ascii (OrgID_v v) \<and>
     ascii (Profile_v v) \<and> is_i64 (MaxUses_v v) \<and> is_i64 (Uses_v v) \<and> is_i64 (ExpiresAt_v v) \<and>
     is_i64 (CreatedAt_v v)"

definition plain_data :: "reg_data \<Rightarrow> bool" where
  "plain_data x \<longleftrightarrow> (\<forall>(d, r) \<in> set (Devices x). ascii d \<and> ascii_device r) \<and>
     (\<forall>(i, v) \<in> set (Vouchers x). ascii i \<and> wf_voucher v)"

definition reg_json_ok :: "reg_data json \<Rightarrow> bool" where
  "reg_json_ok J \<longleftrightarrow> (\<forall>x. plain_data x \<longrightarrow> data_wf x \<longrightarrow>
     (\<exists>y. Unmarshal J (Marshal J x) = Some y \<and> data_abs y = data_abs x))"

definition on_file :: "reg_data json \<Rightarrow> Registry \<Rightarrow> bool" where
  "on_file J r \<longleftrightarrow> script (reg_disk r) = [] \<and>
     (\<exists>b. os_ReadFile (reg_path r) (reg_disk r) = Some b \<and>
        (b = Marshal J (reg r) \<or> Unmarshal J b = Some (reg r)))"

definition flushed :: "reg_data json \<Rightarrow> Registry \<Rightarrow> Registry" where
  "flushed J r = r\<lparr>reg_disk := (reg_disk r)\<lparr>files :=
     AList.update (reg_path r) (Marshal J (reg r)) (files (reg_disk r))\<rparr>\<rparr>"

lemma saveLocked_flushed: "script (reg_disk r) = [] \<Longrightarrow> saveLocked J r = (True, flushed J r)"
  by (simp add: saveLocked_def os_WriteFile_def flushed_def)

lemma save_and_return_flushed: "script (reg_disk r) = [] \<Longrightarrow> save_and_return J x r = (Inr x, flushed J r)"
  by (simp add: save_and_return_def saveLocked_flushed)

lemma on_file_flushed: "script (reg_disk r) = [] \<Longrightarrow> on_file J (flushed J r)"
  by (simp add: on_file_def flushed_def os_ReadFile_def)

lemma reg_frame [simp]:
  "reg_disk (set_device d rec r) = reg_disk r" "reg_path (set_device d rec r) = reg_path r"
  "reg_disk (set_voucher i v r) = reg_disk r" "reg_path (set_voucher i v r) = reg_path r"
  "reg_path (flushed J r) = reg_path r"
  by (simp_all add: set_device_def set_voucher_def flushed_def)

lemma reg_op_on_file:
  assumes "on_file J r" and "do_op (registry_Store sha J) x r = (c, r')"
  shows "on_file J r' \<and> reg_path r' = reg_path r"
proof -
  have sc: "script (reg_disk r) = []" using assms(1) by (simp add: on_file_def)
  note f = saveLocked_flushed save_and_return_flushed on_file_flushed
  show ?thesis
    using assms sc
    by (cases x)
      (auto simp: registry_Store_def reg_Enroll_def reg_Revoke_def reg_MarkIssued_def reg_RedeemVoucher_def
        reg_AddVoucher_def reg_RevokeVoucher_def Let_def f split: option.splits if_splits)
qed

lemma reg_ops_on_file:
  "on_file J r \<Longrightarrow> do_ops (registry_Store sha J) ops r = (cs, r') \<Longrightarrow> on_file J r' \<and> reg_path r' = reg_path r"
proof (induction ops arbitrary: r cs)
  case (Cons x xs)
  obtain c r1 where 1: "do_op (registry_Store sha J) x r = (c, r1)" by fastforce
  with Cons.prems(2) obtain cs' where 2: "do_ops (registry_Store sha J) xs r1 = (cs', r')"
    by (auto simp: split_beta) (metis prod.collapse)
  show ?case using reg_op_on_file [OF Cons.prems(1) 1] Cons.IH [OF _ 2] by simp
qed simp

lemma LoadRegistry_on_file:
  assumes "LoadRegistry J path d = (Inr r, d')" and "script d = []"
  shows "on_file J r \<and> reg_path r = path \<and> reg_disk r = d'"
  using assms
  by (auto simp: LoadRegistry_def reg_Save_def Let_def saveLocked_flushed on_file_def flushed_def os_ReadFile_def
      split: option.splits)

section \<open>A concrete codec\<close>

definition device_fields :: "DeviceRecord \<Rightarrow> bytes list" where
  "device_fields r = [bytes_of (DeviceID r), IdentityPK r, SignPK r, bytes_of (OrgID r), bytes_of (Label r),
     num (ucast (EnrollmentCounter r)), bytes_of (Profile r), (if Revoked r then [1] else []),
     num (LastEpochID r), num (LastSerial r), num (IssuedEpoch r)]"

definition fields_device :: "bytes list \<Rightarrow> DeviceRecord" where
  "fields_device fs = \<lparr>DeviceID = string_of (fs ! 0), IdentityPK = fs ! 1, SignPK = fs ! 2,
     OrgID = string_of (fs ! 3), Label = string_of (fs ! 4), EnrollmentCounter = ucast (un_num (fs ! 5)),
     Profile = string_of (fs ! 6), Revoked = (fs ! 7 = [1]), LastEpochID = un_num (fs ! 8),
     LastSerial = un_num (fs ! 9), IssuedEpoch = un_num (fs ! 10)\<rparr>"

definition voucher_fields :: "Voucher \<Rightarrow> bytes list" where
  "voucher_fields v = [bytes_of (ID_v v), bytes_of (CodeHash_v v), bytes_of (Label_v v), bytes_of (OrgID_v v),
     bytes_of (Profile_v v), inum (MaxUses_v v), inum (Uses_v v), inum (ExpiresAt_v v), inum (CreatedAt_v v),
     (if Revoked_v v then [1] else [])]"

definition fields_voucher :: "bytes list \<Rightarrow> Voucher" where
  "fields_voucher fs = \<lparr>ID_v = string_of (fs ! 0), CodeHash_v = string_of (fs ! 1), Label_v = string_of (fs ! 2),
     OrgID_v = string_of (fs ! 3), Profile_v = string_of (fs ! 4), MaxUses_v = un_inum (fs ! 5),
     Uses_v = un_inum (fs ! 6), ExpiresAt_v = un_inum (fs ! 7), CreatedAt_v = un_inum (fs ! 8),
     Revoked_v = (fs ! 9 = [1])\<rparr>"

lemma device_fields_inverse: "fields_device (device_fields r) = r"
  by (cases r) (simp add: device_fields_def fields_device_def ucast_u32_u64)

lemma voucher_fields_inverse: "wf_voucher v \<Longrightarrow> fields_voucher (voucher_fields v) = v"
  by (cases v) (simp add: voucher_fields_def fields_voucher_def wf_voucher_def)

definition reg_codec :: "reg_data json" where
  "reg_codec = \<lparr>
     Marshal = (\<lambda>x. put_fields [num (Serial x),
        put_fields (map (\<lambda>(d, r). put_fields (bytes_of d # device_fields r)) (Devices x)),
        put_fields (map (\<lambda>(i, v). put_fields (bytes_of i # voucher_fields v)) (Vouchers x))]),
     Unmarshal = (\<lambda>b. case get_fields b of
        [n, ds, vs] \<Rightarrow> Some \<lparr>
          Devices = map (\<lambda>f. let g = get_fields f in (string_of (hd g), fields_device (tl g))) (get_fields ds),
          Vouchers = map (\<lambda>f. let g = get_fields f in (string_of (hd g), fields_voucher (tl g))) (get_fields vs),
          Serial = un_num n\<rparr>
      | _ \<Rightarrow> None)\<rparr>"

lemma reg_codec_exact:
  assumes "plain_data x"
  shows "Unmarshal reg_codec (Marshal reg_codec x) = Some x"
proof -
  have "map (\<lambda>f. let g = get_fields f in (string_of (hd g), fields_voucher (tl g)))
      (map (\<lambda>(i, v). put_fields (bytes_of i # voucher_fields v)) (Vouchers x)) = Vouchers x"
    using assms by (auto simp: plain_data_def voucher_fields_inverse simp del: put_fields.simps intro!: map_idI)
  moreover have "map (\<lambda>f. let g = get_fields f in (string_of (hd g), fields_device (tl g)))
      (map (\<lambda>(d, r). put_fields (bytes_of d # device_fields r)) (Devices x)) = Devices x"
    by (auto simp: device_fields_inverse simp del: put_fields.simps intro!: map_idI)
  ultimately show ?thesis
    by (simp add: reg_codec_def del: put_fields.simps map_map)
qed

lemma reg_codec_ok: "reg_json_ok reg_codec"
  by (auto simp: reg_json_ok_def reg_codec_exact)

end
