(* ===== verification/SQLStore.thy ===== *)
theory SQLStore
  imports KAStore Files
begin

text \<open>
  The SQL store, \<^verbatim>\<open>internal/kaapi/sql_store.go\<close>. The database is a value: the rows of the two
  tables, the text of the serial counter in the \<open>meta\<close> table, and the outcomes of the writing
  statements to come. A statement that violates a primary key or a unique column, or that binds
  a \<open>uint64\<close> with the high bit set, fails and changes nothing. Queries succeed.
\<close>

section \<open>Definitions\<close>

record sql_db =
  t_devices :: "DeviceRecord list"
  t_vouchers :: "Voucher list"
  t_meta :: string
  stmts :: "bool list"

text \<open>A database in which the tables have just been created.\<close>

definition empty_db :: "bool list \<Rightarrow> sql_db" where
  "empty_db outcomes = \<lparr>t_devices = [], t_vouchers = [], t_meta = ''0'', stmts = outcomes\<rparr>"

subsection \<open>Opening a database\<close>

text \<open>
  What is stored before the store is open: each table may be missing, and the table \<open>meta\<close> may lack
  the row of the counter. The script of \<open>migrate\<close> is a sequence of statements that stops at the first
  failure. The column types of the two dialects are those of the rows' fields.
\<close>

record sql_file =
  f_meta :: "string option option"
  f_devices :: "DeviceRecord list option"
  f_vouchers :: "Voucher list option"
  f_stmts :: "bool list"

definition exec_script :: "(sql_file \<Rightarrow> sql_file) \<Rightarrow> (sql_file, ka_error, unit) go" where
  "exec_script stmt = (\<lambda>f. case next_outcome (f_stmts f) of (ok, rest) \<Rightarrow>
     if ok then (Inr (), stmt (f\<lparr>f_stmts := rest\<rparr>)) else (Inl Persist, f\<lparr>f_stmts := rest\<rparr>))"

definition if_not_exists :: "'t \<Rightarrow> 't option \<Rightarrow> 't option" where
  "if_not_exists new t = (case t of None \<Rightarrow> Some new | Some x \<Rightarrow> Some x)"

text \<open>\<open>INSERT OR IGNORE\<close>, and \<open>ON CONFLICT (k) DO NOTHING\<close> in PostgreSQL.\<close>

definition insert_serial :: "sql_file \<Rightarrow> sql_file" where
  "insert_serial f = f\<lparr>f_meta := map_option (if_not_exists ''0'') (f_meta f)\<rparr>"

definition migrate :: "(sql_file, ka_error, unit) go" where
  "migrate =
     gbind (exec_script (\<lambda>f. f\<lparr>f_meta := if_not_exists None (f_meta f)\<rparr>)) (\<lambda>_.
     gbind (exec_script (\<lambda>f. f\<lparr>f_devices := if_not_exists [] (f_devices f)\<rparr>)) (\<lambda>_.
     gbind (exec_script (\<lambda>f. f\<lparr>f_vouchers := if_not_exists [] (f_vouchers f)\<rparr>)) (\<lambda>_.
     exec_script insert_serial)))"

definition sql_handle :: "sql_file \<Rightarrow> sql_db" where
  "sql_handle f = \<lparr>t_devices = the (f_devices f), t_vouchers = the (f_vouchers f), t_meta = the (the (f_meta f)),
     stmts = f_stmts f\<rparr>"

definition OpenSQLStore :: "bool \<Rightarrow> (sql_file, ka_error, sql_db) go" where
  "OpenSQLStore open_ok = (\<lambda>f.
     if \<not> open_ok then (Inl Persist, f)
     else case migrate f of (Inl e, f') \<Rightarrow> (Inl e, f') | (Inr _, f') \<Rightarrow> (Inr (sql_handle f'), f'))"

definition migratePG :: "(sql_file, ka_error, unit) go" where
  "migratePG =
     gbind (exec_script (\<lambda>f. f\<lparr>f_meta := if_not_exists None (f_meta f)\<rparr>)) (\<lambda>_.
     gbind (exec_script (\<lambda>f. f\<lparr>f_devices := if_not_exists [] (f_devices f)\<rparr>)) (\<lambda>_.
     gbind (exec_script (\<lambda>f. f\<lparr>f_vouchers := if_not_exists [] (f_vouchers f)\<rparr>)) (\<lambda>_.
     exec_script insert_serial)))"

definition OpenPostgresStore :: "bool \<Rightarrow> (sql_file, ka_error, sql_db) go" where
  "OpenPostgresStore open_ok = (\<lambda>f.
     if \<not> open_ok then (Inl Persist, f)
     else case migratePG f of (Inl e, f') \<Rightarrow> (Inl e, f') | (Inr _, f') \<Rightarrow> (Inr (sql_handle f'), f'))"

text \<open>What a store leaves behind when the process ends.\<close>

definition sql_left :: "sql_db \<Rightarrow> sql_file" where
  "sql_left db = \<lparr>f_meta = Some (Some (t_meta db)), f_devices = Some (t_devices db), f_vouchers = Some (t_vouchers db),
     f_stmts = stmts db\<rparr>"

subsection \<open>Statements\<close>

definition db_Exec :: "(sql_db \<Rightarrow> sql_db option) \<Rightarrow> sql_db \<Rightarrow> bool \<times> sql_db" where
  "db_Exec stmt db =
     (case next_outcome (stmts db) of (ok, rest) \<Rightarrow>
        let db1 = db\<lparr>stmts := rest\<rparr> in
        if \<not> ok then (False, db1)
        else case stmt db1 of None \<Rightarrow> (False, db1) | Some db2 \<Rightarrow> (True, db2))"

text \<open>\<open>UPDATE ... WHERE key = k\<close> on a list of rows.\<close>

definition update_rows :: "('r \<Rightarrow> 'k) \<Rightarrow> 'k \<Rightarrow> ('r \<Rightarrow> 'r) \<Rightarrow> 'r list \<Rightarrow> 'r list" where
  "update_rows key k f rows = map (\<lambda>row. if key row = k then f row else row) rows"

definition bindable :: "u64 \<Rightarrow> bool" where
  "bindable w \<longleftrightarrow> uint w < 2 ^ 63"

definition stored_serial :: "sql_db \<Rightarrow> u64" where
  "stored_serial db = (case Sscanf_d '''' '''' (t_meta db) of Some n \<Rightarrow> n | None \<Rightarrow> 0)"

definition nextSerialLocked :: "(sql_db, ka_error, u64) go" where
  "nextSerialLocked = (\<lambda>db.
     let n = stored_serial db + 1 in
     case db_Exec (\<lambda>db. Some (db\<lparr>t_meta := dec_digits (unat n)\<rparr>)) db of
       (ok, db') \<Rightarrow> (if ok then Inr n else Inl Persist, db'))"

definition getLocked :: "string \<Rightarrow> sql_db \<Rightarrow> DeviceRecord option" where
  "getLocked deviceID db = find (\<lambda>row. DeviceID row = deviceID) (t_devices db)"

definition sql_Enroll :: "EnrollRequest \<Rightarrow> (sql_db, ka_error, DeviceRecord) go" where
  "sql_Enroll req = (\<lambda>db.
     case enroll_check req of
       Some e \<Rightarrow> (Inl e, db)
     | None \<Rightarrow>
       (case getLocked (DeviceID_e req) db of
          Some old \<Rightarrow>
            (let x = enroll_existing req old in
             case db_Exec (\<lambda>db. Some (db\<lparr>t_devices := update_rows DeviceID (DeviceID x)
                     (\<lambda>row. row\<lparr>IdentityPK := IdentityPK x, SignPK := SignPK x, OrgID := OrgID x,
                        Label := Label x, EnrollmentCounter := EnrollmentCounter x,
                        Profile := Profile x, Revoked := False\<rparr>) (t_devices db)\<rparr>)) db of
               (ok, db') \<Rightarrow> (if ok then Inr x else Inl Persist, db'))
        | None \<Rightarrow>
            (let x = enroll_new req in
             case db_Exec (\<lambda>db. if \<exists>row \<in> set (t_devices db). DeviceID row = DeviceID x then None
                     else Some (db\<lparr>t_devices := t_devices db @ [x]\<rparr>)) db of
               (ok, db') \<Rightarrow> (if ok then Inr x else Inl Persist, db'))))"

definition sql_Get :: "string \<Rightarrow> sql_db \<Rightarrow> DeviceRecord option" where
  "sql_Get deviceID db = getLocked deviceID db"

definition sql_ListDevices :: "sql_db \<Rightarrow> DeviceRecord list" where
  "sql_ListDevices db = sort_key DeviceID (t_devices db)"

definition sql_Revoke :: "string \<Rightarrow> (sql_db, ka_error, unit) go" where
  "sql_Revoke deviceID = (\<lambda>db.
     let n = length (filter (\<lambda>row. DeviceID row = deviceID) (t_devices db)) in
     case db_Exec (\<lambda>db. Some (db\<lparr>t_devices := update_rows DeviceID deviceID
             (\<lambda>row. row\<lparr>Revoked := True\<rparr>) (t_devices db)\<rparr>)) db of
       (ok, db') \<Rightarrow> (if \<not> ok then Inl Persist else if n = 0 then Inl NotEnrolled else Inr (), db'))"

definition sql_MarkIssued :: "string \<Rightarrow> u64 \<Rightarrow> (sql_db, ka_error, u64) go" where
  "sql_MarkIssued deviceID epochID = (\<lambda>db.
     case getLocked deviceID db of
       None \<Rightarrow> (Inl NotEnrolled, db)
     | Some rec \<Rightarrow>
       if Revoked rec then (Inl IsRevoked, db)
       else if already_issued epochID rec then (Inr (LastSerial rec), db)
       else gbind nextSerialLocked (\<lambda>serial db.
         case db_Exec (\<lambda>db. if \<not> bindable epochID \<or> \<not> bindable serial then None
                 else Some (db\<lparr>t_devices := update_rows DeviceID deviceID
                   (issued_record epochID serial) (t_devices db)\<rparr>)) db of
           (ok, db') \<Rightarrow> (if ok then Inr serial else Inl Persist, db')) db)"

definition sql_RedeemVoucher ::
    "(bytes \<Rightarrow> bytes) \<Rightarrow> time \<Rightarrow> string \<Rightarrow> (sql_db, voucher_error, Voucher) go" where
  "sql_RedeemVoucher sha256 now code = (\<lambda>db.
     case find (\<lambda>v. CodeHash_v v = HashVoucherCode sha256 code) (t_vouchers db) of
       None \<Rightarrow> (Inl InvalidVoucher, db)
     | Some v \<Rightarrow>
       (case voucher_check now v of
          Some e \<Rightarrow> (Inl e, db)
        | None \<Rightarrow>
          (let v' = voucher_used v in
           case db_Exec (\<lambda>db. Some (db\<lparr>t_vouchers := update_rows ID_v (ID_v v')
                   (\<lambda>row. row\<lparr>Uses_v := Uses_v v'\<rparr>) (t_vouchers db)\<rparr>)) db of
             (ok, db') \<Rightarrow> (if ok then Inr v' else Inl Internal, db'))))"

definition sql_AddVoucher :: "Voucher \<Rightarrow> (sql_db, ka_error, unit) go" where
  "sql_AddVoucher v = (\<lambda>db.
     if ID_v v = '''' then (Inl IDRequired, db)
     else case db_Exec (\<lambda>db.
             if \<exists>row \<in> set (t_vouchers db). ID_v row = ID_v v \<or> CodeHash_v row = CodeHash_v v then None
             else Some (db\<lparr>t_vouchers := t_vouchers db @ [v]\<rparr>)) db of
       (ok, db') \<Rightarrow> (if ok then Inr () else Inl Persist, db'))"

definition sql_ListVouchers :: "sql_db \<Rightarrow> VoucherInfo list" where
  "sql_ListVouchers db = map voucher_info (sort_key (\<lambda>v. - CreatedAt_v v) (t_vouchers db))"

definition sql_RevokeVoucher :: "string \<Rightarrow> (sql_db, ka_error, unit) go" where
  "sql_RevokeVoucher i = (\<lambda>db.
     let n = length (filter (\<lambda>row. ID_v row = i) (t_vouchers db)) in
     case db_Exec (\<lambda>db. Some (db\<lparr>t_vouchers := update_rows ID_v i
             (\<lambda>row. row\<lparr>Revoked_v := True\<rparr>) (t_vouchers db)\<rparr>)) db of
       (ok, db') \<Rightarrow> (if \<not> ok then Inl Persist else if n = 0 then Inl NotFound else Inr (), db'))"

definition sql_Store :: "(bytes \<Rightarrow> bytes) \<Rightarrow> sql_db Store" where
  "sql_Store sha256 = \<lparr>
     st_Enroll = sql_Enroll, st_Get = sql_Get, st_ListDevices = sql_ListDevices,
     st_Revoke = sql_Revoke, st_MarkIssued = sql_MarkIssued,
     st_RedeemVoucher = sql_RedeemVoucher sha256, st_AddVoucher = sql_AddVoucher,
     st_ListVouchers = sql_ListVouchers, st_RevokeVoucher = sql_RevokeVoucher\<rparr>"

section \<open>Opening a store\<close>

lemma exec_script_InrD: "exec_script stmt f = (Inr (), f') \<Longrightarrow> f' = stmt (f\<lparr>f_stmts := snd (next_outcome (f_stmts f))\<rparr>)"
  by (auto simp: exec_script_def split: prod.splits if_splits)

lemma migrate_InrD:
  assumes "migrate f = (Inr (), f')"
  shows "f_devices f' = if_not_exists [] (f_devices f) \<and> f_vouchers f' = if_not_exists [] (f_vouchers f) \<and>
    f_meta f' = Some (if_not_exists ''0'' (case f_meta f of None \<Rightarrow> None | Some t \<Rightarrow> t))"
proof -
  obtain f1 f2 f3 where "exec_script (\<lambda>f. f\<lparr>f_meta := if_not_exists None (f_meta f)\<rparr>) f = (Inr (), f1)"
    "exec_script (\<lambda>f. f\<lparr>f_devices := if_not_exists [] (f_devices f)\<rparr>) f1 = (Inr (), f2)"
    "exec_script (\<lambda>f. f\<lparr>f_vouchers := if_not_exists [] (f_vouchers f)\<rparr>) f2 = (Inr (), f3)"
    "exec_script insert_serial f3 = (Inr (), f')"
    using assms unfolding migrate_def by (elim gbind_InrE) auto
  from this [THEN exec_script_InrD] show ?thesis
    by (auto simp: insert_serial_def if_not_exists_def split: option.splits)
qed

text \<open>A new database file, and one that a store has left behind.\<close>

lemma OpenSQLStore_new:
  "OpenSQLStore True \<lparr>f_meta = None, f_devices = None, f_vouchers = None, f_stmts = []\<rparr> =
     (Inr (empty_db []), sql_left (empty_db []))"
  by (simp add: OpenSQLStore_def migrate_def exec_script_def gbind_def if_not_exists_def insert_serial_def
      sql_handle_def sql_left_def empty_db_def)

lemma migrate_left: "stmts db = [] \<Longrightarrow> migrate (sql_left db) = (Inr (), sql_left db)"
  by (simp add: migrate_def exec_script_def gbind_def if_not_exists_def insert_serial_def sql_left_def)

lemma OpenSQLStore_left: "stmts db = [] \<Longrightarrow> OpenSQLStore True (sql_left db) = (Inr db, sql_left db)"
  by (simp add: OpenSQLStore_def migrate_left) (simp add: sql_handle_def sql_left_def)

text \<open>Opening never loses a row, whichever of its statements fail.\<close>

lemma OpenSQLStore_keeps:
  assumes "OpenSQLStore ok f = (Inr db, f')"
  shows "(\<forall>rows. f_devices f = Some rows \<longrightarrow> t_devices db = rows) \<and> (\<forall>rows. f_vouchers f = Some rows \<longrightarrow> t_vouchers db = rows) \<and>
    (\<forall>v. f_meta f = Some (Some v) \<longrightarrow> t_meta db = v)"
proof -
  obtain g where "migrate f = (Inr (), g)" "db = sql_handle g"
    using assms by (auto simp: OpenSQLStore_def split: if_splits prod.splits sum.splits)
  then show ?thesis using migrate_InrD [of f g] by (auto simp: sql_handle_def if_not_exists_def)
qed

section \<open>Tables as maps\<close>

definition lookup :: "('r \<Rightarrow> 'k) \<Rightarrow> 'r list \<Rightarrow> 'k \<Rightarrow> 'r option" where
  "lookup key rows k = find (\<lambda>row. key row = k) rows"

lemma lookup_Nil [simp]: "lookup key [] = Map.empty"
  by (simp add: lookup_def fun_eq_iff)

lemma lookup_key: "lookup key rows k = Some row \<Longrightarrow> key row = k \<and> row \<in> set rows"
  unfolding lookup_def by (induction rows) (auto split: if_splits)

lemma lookup_None: "lookup key rows k = None \<longleftrightarrow> (\<forall>row \<in> set rows. key row \<noteq> k)"
  unfolding lookup_def by (induction rows) auto

lemma lookup_None_image: "lookup key rows k = None \<longleftrightarrow> k \<notin> key ` set rows"
  unfolding lookup_def by (induction rows) auto

lemma lookup_member: "distinct (map key rows) \<Longrightarrow> row \<in> set rows \<Longrightarrow> lookup key rows (key row) = Some row"
  unfolding lookup_def by (induction rows) force+

lemma lookup_append:
  assumes "lookup key rows (key row) = None"
  shows "lookup key (rows @ [row]) = (lookup key rows)(key row \<mapsto> row)"
proof
  fix k
  show "lookup key (rows @ [row]) k = ((lookup key rows)(key row \<mapsto> row)) k"
    using assms unfolding lookup_def by (induction rows) (auto split: if_splits)
qed

lemma lookup_update_rows:
  assumes "\<And>row. key (f row) = key row"
  shows "lookup key (update_rows key k f rows) =
    (case lookup key rows k of None \<Rightarrow> lookup key rows | Some row \<Rightarrow> (lookup key rows)(k \<mapsto> f row))"
proof
  fix j
  show "lookup key (update_rows key k f rows) j =
    (case lookup key rows k of None \<Rightarrow> lookup key rows | Some row \<Rightarrow> (lookup key rows)(k \<mapsto> f row)) j"
    unfolding lookup_def update_rows_def
    by (induction rows) (auto simp: assms split: option.splits if_splits)
qed

lemma keys_update_rows:
  assumes "\<And>row. key' (f row) = key' row"
  shows "map key' (update_rows key k f rows) = map key' rows"
  by (auto simp: update_rows_def assms)

lemma ran_lookup: "distinct (map key rows) \<Longrightarrow> ran (lookup key rows) = set rows"
  using lookup_member [of key rows] by (auto simp: ran_def dest: lookup_key)

lemma count_rows: "length (filter (\<lambda>row. key row = k) rows) = 0 \<longleftrightarrow> lookup key rows k = None"
  by (auto simp: lookup_None filter_empty_conv)

section \<open>The database keeps the contract\<close>

definition sql_abs :: "sql_db \<Rightarrow> ka" where
  "sql_abs db = \<lparr>devs = lookup DeviceID (t_devices db), vchs = lookup ID_v (t_vouchers db),
     ser = stored_serial db\<rparr>"

definition sql_invar :: "sql_db \<Rightarrow> bool" where
  "sql_invar db \<longleftrightarrow> distinct (map DeviceID (t_devices db)) \<and> distinct (map ID_v (t_vouchers db)) \<and>
     distinct (map CodeHash_v (t_vouchers db))"

lemma sql_abs_sel [simp]:
  "devs (sql_abs db) = lookup DeviceID (t_devices db)" "vchs (sql_abs db) = lookup ID_v (t_vouchers db)"
  "ser (sql_abs db) = stored_serial db"
  by (simp_all add: sql_abs_def)

lemma sql_irrelevant [simp]:
  "sql_abs (db\<lparr>stmts := x\<rparr>) = sql_abs db" "sql_invar (db\<lparr>stmts := x\<rparr>) = sql_invar db"
  by (simp_all add: sql_abs_def sql_invar_def stored_serial_def)

lemma db_Exec_cases:
  assumes "db_Exec stmt db = (ok, db')"
  obtains (executed) x where "ok" "stmt (db\<lparr>stmts := x\<rparr>) = Some db'"
    | (failed) x where "\<not> ok" "db' = db\<lparr>stmts := x\<rparr>"
  using assms by (auto simp: db_Exec_def Let_def split: prod.splits if_splits option.splits)

text \<open>Effect of the three kinds of updates on the abstract registry.\<close>

lemma abs_update_device:
  assumes "\<And>row. DeviceID (f row) = DeviceID row" "lookup DeviceID (t_devices db) d = Some old"
  shows "sql_abs (db\<lparr>stmts := y, t_devices := update_rows DeviceID d f (t_devices db)\<rparr>) = put_dev d (f old) (sql_abs db)"
  using assms by (simp add: sql_abs_def put_dev_def lookup_update_rows stored_serial_def)

lemma abs_update_voucher:
  assumes "\<And>row. ID_v (f row) = ID_v row" "lookup ID_v (t_vouchers db) i = Some old"
  shows "sql_abs (db\<lparr>stmts := y, t_vouchers := update_rows ID_v i f (t_vouchers db)\<rparr>) = put_vch i (f old) (sql_abs db)"
  using assms by (simp add: sql_abs_def put_vch_def lookup_update_rows stored_serial_def)

lemma abs_update_none:
  assumes "\<And>row. DeviceID (f row) = DeviceID row" "lookup DeviceID (t_devices db) d = None"
  shows "sql_abs (db\<lparr>stmts := y, t_devices := update_rows DeviceID d f (t_devices db)\<rparr>) = sql_abs db"
  using assms by (simp add: sql_abs_def lookup_update_rows stored_serial_def)

lemma abs_update_voucher_none:
  assumes "\<And>row. ID_v (f row) = ID_v row" "lookup ID_v (t_vouchers db) i = None"
  shows "sql_abs (db\<lparr>stmts := y, t_vouchers := update_rows ID_v i f (t_vouchers db)\<rparr>) = sql_abs db"
  using assms by (simp add: sql_abs_def lookup_update_rows stored_serial_def)

lemma invar_update_device:
  assumes "sql_invar db" "\<And>row. DeviceID (f row) = DeviceID row"
  shows "sql_invar (db\<lparr>stmts := y, t_devices := update_rows DeviceID d f (t_devices db)\<rparr>)"
  using assms by (simp add: sql_invar_def keys_update_rows)

lemma invar_update_voucher:
  assumes "sql_invar db" "\<And>row. ID_v (f row) = ID_v row" "\<And>row. CodeHash_v (f row) = CodeHash_v row"
  shows "sql_invar (db\<lparr>stmts := y, t_vouchers := update_rows ID_v i f (t_vouchers db)\<rparr>)"
  using assms by (simp add: sql_invar_def keys_update_rows)

lemma abs_meta:
  "sql_abs (db\<lparr>t_meta := dec_digits (unat n)\<rparr>) = (sql_abs db)\<lparr>ser := n\<rparr>"
  using Sscanf_Sprintf [of "[]" "[]" n] by (simp add: sql_abs_def stored_serial_def)

lemma enroll_existing_row:
  "(let x = enroll_existing req old in old\<lparr>IdentityPK := IdentityPK x, SignPK := SignPK x, OrgID := OrgID x,
      Label := Label x, EnrollmentCounter := EnrollmentCounter x, Profile := Profile x, Revoked := False\<rparr>) =
   enroll_existing req old"
  by (cases old) (simp add: enroll_existing_def Let_def)

lemma sql_Enroll_spec:
  assumes inv: "sql_invar db" and run: "sql_Enroll req db = (r, db')"
  shows "sql_invar db' \<and> enroll_spec req (sql_abs db) r (sql_abs db')"
proof (cases "enroll_check req")
  case (Some e)
  with assms show ?thesis by (simp add: sql_Enroll_def enroll_spec_def)
next
  case ok: None
  show ?thesis
  proof (cases "getLocked (DeviceID_e req) db")
    case (Some old)
    let ?x = "enroll_existing req old"
    let ?f = "\<lambda>row. row\<lparr>IdentityPK := IdentityPK ?x, SignPK := SignPK ?x, OrgID := OrgID ?x,
        Label := Label ?x, EnrollmentCounter := EnrollmentCounter ?x, Profile := Profile ?x, Revoked := False\<rparr>"
    have old: "lookup DeviceID (t_devices db) (DeviceID_e req) = Some old"
      using Some by (simp add: getLocked_def lookup_def)
    then have x: "DeviceID ?x = DeviceID_e req" "?f old = ?x"
      using lookup_key [OF old] enroll_existing_row [of req old] by (simp_all add: enroll_existing_def Let_def)
    obtain b where e: "db_Exec (\<lambda>db. Some (db\<lparr>t_devices := update_rows DeviceID (DeviceID_e req) ?f (t_devices db)\<rparr>)) db = (b, db')"
      and r: "r = (if b then Inr ?x else Inl Persist)"
      using run ok Some x by (auto simp: sql_Enroll_def Let_def split: prod.splits)
    have rec: "enrolled_record req (devs (sql_abs db) (DeviceID_e req)) = ?x"
      using old by (simp add: enrolled_record_def)
    from e show ?thesis
    proof (cases rule: db_Exec_cases)
      case (executed y)
      then show ?thesis
        using abs_update_device [of ?f db "DeviceID_e req" old y] old x inv
          invar_update_device [of db ?f "DeviceID_e req" y] rec
        by (auto simp: enroll_spec_def ok r saved_def Let_def)
    next
      case (failed y)
      then show ?thesis using inv by (simp add: enroll_spec_def ok r saved_def Let_def)
    qed
  next
    case None
    let ?x = "enroll_new req"
    have none: "lookup DeviceID (t_devices db) (DeviceID ?x) = None" and x: "DeviceID ?x = DeviceID_e req"
      using None by (simp_all add: getLocked_def lookup_def enroll_new_def)
    have free: "\<not> (\<exists>row \<in> set (t_devices db). DeviceID row = DeviceID ?x)"
      using none by (simp add: lookup_None)
    obtain b where e: "db_Exec (\<lambda>db. if \<exists>row \<in> set (t_devices db). DeviceID row = DeviceID ?x then None
                     else Some (db\<lparr>t_devices := t_devices db @ [?x]\<rparr>)) db = (b, db')"
      and r: "r = (if b then Inr ?x else Inl Persist)"
      using run ok None by (auto simp: sql_Enroll_def Let_def split: prod.splits)
    have rec: "enrolled_record req (devs (sql_abs db) (DeviceID_e req)) = ?x"
      using none x by (simp add: enrolled_record_def)
    from e show ?thesis
    proof (cases rule: db_Exec_cases)
      case (executed y)
      then have "db' = db\<lparr>stmts := y, t_devices := t_devices db @ [?x]\<rparr>" using free by simp
      then show ?thesis
        using inv free none x rec executed(1)
        by (auto simp: enroll_spec_def ok r saved_def Let_def sql_invar_def sql_abs_def put_dev_def
            lookup_append stored_serial_def)
    next
      case (failed y)
      then show ?thesis using inv by (simp add: enroll_spec_def ok r saved_def Let_def)
    qed
  qed
qed

lemma exec_saved:
  assumes "sql_invar db" "db_Exec stmt db = (b, db')"
    and "\<And>y d. stmt (db\<lparr>stmts := y\<rparr>) = Some d \<Longrightarrow> sql_abs d = new \<and> sql_invar d"
  shows "sql_invar db' \<and> saved x new {sql_abs db} (if b then Inr x else Inl Persist) (sql_abs db')"
  using assms(2)
proof (cases rule: db_Exec_cases)
  case (executed y)
  with assms(3) [of y db'] show ?thesis by (simp add: saved_def)
next
  case (failed y)
  with assms(1) show ?thesis by (simp add: saved_def)
qed

lemma sql_Revoke_spec:
  assumes inv: "sql_invar db" and run: "sql_Revoke d db = (r, db')"
  shows "sql_invar db' \<and> revoke_spec d (sql_abs db) r (sql_abs db')"
proof -
  let ?stmt = "\<lambda>db. Some (db\<lparr>t_devices := update_rows DeviceID d (\<lambda>row. row\<lparr>Revoked := True\<rparr>) (t_devices db)\<rparr>)"
  obtain b where e: "db_Exec ?stmt db = (b, db')"
    and r: "r = (if \<not> b then Inl Persist else if lookup DeviceID (t_devices db) d = None then Inl NotEnrolled else Inr ())"
    using run unfolding sql_Revoke_def Let_def count_rows by (auto split: prod.splits)
  show ?thesis
  proof (cases "lookup DeviceID (t_devices db) d")
    case None
    have "sql_invar db' \<and> saved () (sql_abs db) {sql_abs db} (if b then Inr () else Inl Persist) (sql_abs db')"
      by (rule exec_saved [OF inv e]) (use None inv in \<open>auto simp: abs_update_none intro!: invar_update_device\<close>)
    with None show ?thesis by (auto simp: revoke_spec_def r saved_def split: if_splits)
  next
    case (Some rec)
    have "sql_invar db' \<and> saved () (put_dev d (rec\<lparr>Revoked := True\<rparr>) (sql_abs db)) {sql_abs db}
        (if b then Inr () else Inl Persist) (sql_abs db')"
      by (rule exec_saved [OF inv e]) (use Some inv in \<open>auto simp: abs_update_device intro!: invar_update_device\<close>)
    with Some show ?thesis by (auto simp: revoke_spec_def r split: if_splits)
  qed
qed

lemma sql_MarkIssued_spec:
  assumes inv: "sql_invar db" and run: "sql_MarkIssued d e db = (r, db')"
  shows "sql_invar db' \<and> mark_spec d e (sql_abs db) r (sql_abs db')"
proof (cases "\<exists>rec. getLocked d db = Some rec \<and> \<not> Revoked rec \<and> \<not> already_issued e rec")
  case False
  with assms show ?thesis
    by (auto simp: sql_MarkIssued_def mark_spec_def getLocked_def lookup_def split: option.splits if_splits)
next
  case True
  then obtain rec where rec: "lookup DeviceID (t_devices db) d = Some rec" "\<not> Revoked rec" "\<not> already_issued e rec"
    and g: "getLocked d db = Some rec"
    by (auto simp: getLocked_def lookup_def)
  let ?n = "stored_serial db + 1"
  let ?bump = "(sql_abs db)\<lparr>ser := ?n\<rparr>"
  obtain b1 db1 where e1: "db_Exec (\<lambda>db. Some (db\<lparr>t_meta := dec_digits (unat ?n)\<rparr>)) db = (b1, db1)" by fastforce
  have 1: "sql_invar db1 \<and> saved () ?bump {sql_abs db} (if b1 then Inr () else Inl Persist) (sql_abs db1)"
    by (rule exec_saved [OF inv e1]) (use inv in \<open>auto simp: abs_meta stored_serial_def sql_invar_def\<close>)
  have t: "t_devices db1 = t_devices db"
    using e1 by (cases rule: db_Exec_cases) auto
  show ?thesis
  proof (cases b1)
    case False
    then have "r = Inl Persist" "db' = db1"
      using run g rec e1 by (simp_all add: sql_MarkIssued_def gbind_def nextSerialLocked_def Let_def)
    with 1 False rec show ?thesis by (auto simp: mark_spec_def saved_def)
  next
    case b1: True
    let ?stmt = "\<lambda>db. if \<not> bindable e \<or> \<not> bindable ?n then None
       else Some (db\<lparr>t_devices := update_rows DeviceID d (issued_record e ?n) (t_devices db)\<rparr>)"
    obtain b2 where e2: "db_Exec ?stmt db1 = (b2, db')" and r: "r = (if b2 then Inr ?n else Inl Persist)"
      using run g rec e1 b1 by (auto simp: sql_MarkIssued_def gbind_def nextSerialLocked_def Let_def split: prod.splits)
    have abs1: "sql_abs db1 = ?bump" and inv1: "sql_invar db1" using 1 b1 by (auto simp: saved_def)
    have "sql_invar db' \<and> saved ?n (put_dev d (issued_record e ?n rec) ?bump) {sql_abs db1}
        (if b2 then Inr ?n else Inl Persist) (sql_abs db')"
    proof (rule exec_saved [OF inv1 e2])
      fix y x
      assume "?stmt (db1\<lparr>stmts := y\<rparr>) = Some x"
      then have x: "x = db1\<lparr>stmts := y, t_devices := update_rows DeviceID d (issued_record e ?n) (t_devices db1)\<rparr>"
        by (simp split: if_splits)
      show "sql_abs x = put_dev d (issued_record e ?n rec) ?bump \<and> sql_invar x"
        unfolding x
        using abs_update_device [of "issued_record e ?n" db1 d rec y] rec(1) inv1 t abs1
          invar_update_device [of db1 "issued_record e ?n" d y]
        by (simp add: issued_record_def)
    qed
    with rec r abs1 show ?thesis by (auto simp: mark_spec_def saved_def)
  qed
qed

lemma sql_AddVoucher_spec:
  assumes inv: "sql_invar db" and run: "sql_AddVoucher v db = (r, db')"
  shows "sql_invar db' \<and> add_spec v (sql_abs db) r (sql_abs db')"
proof (cases "ID_v v = ''''")
  case True
  with assms show ?thesis by (simp add: sql_AddVoucher_def add_spec_def)
next
  case False
  let ?stmt = "\<lambda>db. if \<exists>row \<in> set (t_vouchers db). ID_v row = ID_v v \<or> CodeHash_v row = CodeHash_v v then None
     else Some (db\<lparr>t_vouchers := t_vouchers db @ [v]\<rparr>)"
  obtain b where e: "db_Exec ?stmt db = (b, db')" and r: "r = (if b then Inr () else Inl Persist)"
    using run False by (auto simp: sql_AddVoucher_def split: prod.splits)
  have "sql_invar db' \<and> saved () (put_vch (ID_v v) v (sql_abs db)) {sql_abs db}
      (if b then Inr () else Inl Persist) (sql_abs db')"
  proof (rule exec_saved [OF inv e])
    fix y d
    assume "?stmt (db\<lparr>stmts := y\<rparr>) = Some d"
    then have "ID_v v \<notin> ID_v ` set (t_vouchers db)" "CodeHash_v v \<notin> CodeHash_v ` set (t_vouchers db)"
      and d: "d = db\<lparr>stmts := y, t_vouchers := t_vouchers db @ [v]\<rparr>"
      by (auto split: if_splits)
    moreover from this have "lookup ID_v (t_vouchers db) (ID_v v) = None"
      by (simp add: lookup_None_image)
    ultimately show "sql_abs d = put_vch (ID_v v) v (sql_abs db) \<and> sql_invar d"
      using inv by (simp add: sql_abs_def put_vch_def lookup_append sql_invar_def stored_serial_def)
  qed
  with False r show ?thesis by (simp add: add_spec_def)
qed

lemma sql_RevokeVoucher_spec:
  assumes inv: "sql_invar db" and run: "sql_RevokeVoucher i db = (r, db')"
  shows "sql_invar db' \<and> revoke_voucher_spec i (sql_abs db) r (sql_abs db')"
proof -
  let ?stmt = "\<lambda>db. Some (db\<lparr>t_vouchers := update_rows ID_v i (\<lambda>row. row\<lparr>Revoked_v := True\<rparr>) (t_vouchers db)\<rparr>)"
  obtain b where e: "db_Exec ?stmt db = (b, db')"
    and r: "r = (if \<not> b then Inl Persist else if lookup ID_v (t_vouchers db) i = None then Inl NotFound else Inr ())"
    using run unfolding sql_RevokeVoucher_def Let_def count_rows by (auto split: prod.splits)
  show ?thesis
  proof (cases "lookup ID_v (t_vouchers db) i")
    case None
    have "sql_invar db' \<and> saved () (sql_abs db) {sql_abs db} (if b then Inr () else Inl Persist) (sql_abs db')"
      by (rule exec_saved [OF inv e])
        (use None inv in \<open>auto simp: abs_update_voucher_none intro!: invar_update_voucher\<close>)
    with None show ?thesis by (auto simp: revoke_voucher_spec_def r saved_def split: if_splits)
  next
    case (Some v)
    have "sql_invar db' \<and> saved () (put_vch i (v\<lparr>Revoked_v := True\<rparr>) (sql_abs db)) {sql_abs db}
        (if b then Inr () else Inl Persist) (sql_abs db')"
      by (rule exec_saved [OF inv e]) (use Some inv in \<open>auto simp: abs_update_voucher intro!: invar_update_voucher\<close>)
    with Some show ?thesis by (auto simp: revoke_voucher_spec_def r split: if_splits)
  qed
qed

lemma sql_RedeemVoucher_spec:
  assumes inv: "sql_invar db" and run: "sql_RedeemVoucher sha now code db = (r, db')"
  shows "sql_invar db' \<and> redeem_spec (HashVoucherCode sha) now code (sql_abs db) r (sql_abs db')"
proof (cases "lookup CodeHash_v (t_vouchers db) (HashVoucherCode sha code)")
  case None
  then have none: "\<forall>v \<in> set (t_vouchers db). CodeHash_v v \<noteq> HashVoucherCode sha code" by (simp add: lookup_None)
  with None assms show ?thesis
    by (auto simp: sql_RedeemVoucher_def lookup_def [symmetric] redeem_spec_def dest: lookup_key)
next
  case (Some v)
  then have h: "CodeHash_v v = HashVoucherCode sha code" and m: "v \<in> set (t_vouchers db)"
    using lookup_key [OF Some] by simp_all
  have v: "vchs (sql_abs db) (ID_v v) = Some v"
    using lookup_member [OF _ m, of ID_v] inv by (simp add: sql_invar_def)
  note spec = redeem_spec_refused [where hash = "HashVoucherCode sha", OF v h]
    redeem_spec_accepted [where hash = "HashVoucherCode sha", OF v h]
  show ?thesis
  proof (cases "voucher_check now v")
    case (Some e)
    then have "r = Inl e" "db' = db"
      using \<open>lookup CodeHash_v _ _ = Some v\<close> run by (simp_all add: sql_RedeemVoucher_def lookup_def)
    with inv spec(1) [OF Some] show ?thesis by simp
  next
    case None
    let ?f = "\<lambda>row. row\<lparr>Uses_v := Uses_v (voucher_used v)\<rparr>"
    let ?stmt = "\<lambda>db. Some (db\<lparr>t_vouchers := update_rows ID_v (ID_v v) ?f (t_vouchers db)\<rparr>)"
    obtain b where e: "db_Exec ?stmt db = (b, db')" and r: "r = (if b then Inr (voucher_used v) else Inl Internal)"
      using run None Some by (auto simp: sql_RedeemVoucher_def lookup_def Let_def split: prod.splits)
    have f: "?f v = voucher_used v" by (simp add: voucher_used_def)
    from e show ?thesis
    proof (cases rule: db_Exec_cases)
      case (executed y)
      then have "sql_abs db' = put_vch (ID_v v) (voucher_used v) (sql_abs db)" "sql_invar db'"
        using abs_update_voucher [of ?f db "ID_v v" v y] v f inv
          invar_update_voucher [of db ?f "ID_v v" y] by auto
      with spec(2) [OF None] r executed(1) show ?thesis by simp
    next
      case (failed y)
      with spec(2) [OF None] r inv show ?thesis by simp
    qed
  qed
qed

interpretation sst: ka_store "sql_Store sha" sql_abs sql_invar "HashVoucherCode sha" for sha
proof
  fix db
  assume inv: "sql_invar db"
  show "st_Get (sql_Store sha) d db = devs (sql_abs db) d" for d
    by (simp add: sql_Store_def sql_Get_def getLocked_def lookup_def)
  show "set (st_ListDevices (sql_Store sha) db) = ran (devs (sql_abs db))"
    using inv by (simp add: sql_Store_def sql_ListDevices_def ran_lookup sql_invar_def)
  show "set (st_ListVouchers (sql_Store sha) db) = voucher_info ` ran (vchs (sql_abs db))"
    using inv by (simp add: sql_Store_def sql_ListVouchers_def ran_lookup sql_invar_def)
  show "keyed (sql_abs db)" by (auto simp: keyed_def dest: lookup_key)
qed (auto simp: sql_Store_def dest: sql_Enroll_spec sql_Revoke_spec sql_MarkIssued_spec
      sql_RedeemVoucher_spec sql_AddVoucher_spec sql_RevokeVoucher_spec)

end
