(* ===== verification/Stores.thy ===== *)
theory Stores
  imports Registry SQLStore
begin

text \<open>
  Properties of the two implementations of the \<open>Store\<close> interface. Each rests on the contract of
  theory KAStore through the interpretations \<open>rst\<close> (registry file) and \<open>sst\<close> (SQL).
\<close>

section \<open>Starting states\<close>

definition fresh_registry :: "string \<Rightarrow> disk \<Rightarrow> Registry" where
  "fresh_registry path d = \<lparr>reg_path = path, reg = \<lparr>Devices = [], Vouchers = [], Serial = 0\<rparr>, reg_disk = d\<rparr>"

lemma fresh_registry_state: "reg_invar (fresh_registry path d)" "reg_abs (fresh_registry path d) = ka_empty"
  by (simp_all add: fresh_registry_def reg_invar_def data_wf_def reg_abs_def data_abs_def ka_empty_def keyed_def)

lemma stored_serial_zero: "Sscanf_d '''' '''' ''0'' = Some 0"
proof -
  have "dec_digits 0 = ''0''" by code_simp
  then show ?thesis using Sscanf_Sprintf [of "[]" "[]" 0] by simp
qed

lemma empty_db_state: "sql_invar (empty_db outcomes)" "sql_abs (empty_db outcomes) = ka_empty"
  by (simp_all add: empty_db_def sql_invar_def sql_abs_def ka_empty_def stored_serial_def stored_serial_zero)

definition serials_injective :: "ka_call list \<Rightarrow> bool" where
  "serials_injective cs \<longleftrightarrow> (\<forall>d e n d' e'. MarkIssued d e (Inr n) \<in> set cs \<longrightarrow>
     MarkIssued d' e' (Inr n) \<in> set cs \<longrightarrow> d = d' \<and> e = e')"

text \<open>A sample request, its device record and a sample voucher, for the witnesses.\<close>

definition sample_req :: EnrollRequest where
  "sample_req = \<lparr>DeviceID_e = ''dev'', IdentityPK_e = replicate 32 1, SignPK_e = [], OrgID_e = ''org'',
     Label_e = '''', EnrollmentCounter_e = 0, Profile_e = '''', VoucherCode_e = ''''\<rparr>"

definition sample_device :: DeviceRecord where
  "sample_device = \<lparr>DeviceID = ''dev'', IdentityPK = [], SignPK = [], OrgID = '''', Label = '''',
     EnrollmentCounter = 4, Profile = ''strong'', Revoked = True, LastEpochID = 0, LastSerial = 0, IssuedEpoch = 0\<rparr>"

definition sample_voucher :: Voucher where
  "sample_voucher = \<lparr>ID_v = ''v1'', CodeHash_v = ''h'', Label_v = '''', OrgID_v = '''', Profile_v = '''',
     MaxUses_v = 2, Uses_v = 1, ExpiresAt_v = 0, CreatedAt_v = 0, Revoked_v = False\<rparr>"

definition sample_registry :: "disk_outcome list \<Rightarrow> DeviceRecord \<Rightarrow> Registry" where
  "sample_registry os rec =
     (let x = \<lparr>Devices = [(''dev'', rec)], Vouchers = [(''v1'', sample_voucher)], Serial = 7\<rparr>
      in \<lparr>reg_path = ''f'', reg = x, reg_disk = \<lparr>files = [(''f'', Marshal reg_codec x)], script = os\<rparr>\<rparr>)"

definition sample_db :: "DeviceRecord \<Rightarrow> sql_db" where
  "sample_db rec = \<lparr>t_devices = [rec], t_vouchers = [sample_voucher], t_meta = ''7'', stmts = []\<rparr>"

lemma sample_req_ok: "enroll_check sample_req = None" "DeviceID_e sample_req = ''dev''"
  by (simp_all add: enroll_check_def sample_req_def)

lemma sample_state:
  "reg_invar (sample_registry os rec)" "sql_invar (sample_db rec)"
  "reg_Get ''dev'' (sample_registry os rec) = Some rec"
  "DeviceID rec = ''dev'' \<Longrightarrow> sql_Get ''dev'' (sample_db rec) = Some rec"
  by (simp_all add: sample_registry_def sample_db_def reg_invar_def data_wf_def keyed_def sql_invar_def
      reg_Get_def sql_Get_def getLocked_def sample_voucher_def Let_def)

lemma sample_serial: "Serial (reg (sample_registry os rec)) = 7" "stored_serial (sample_db rec) = 7"
proof -
  show "Serial (reg (sample_registry os rec)) = 7" by (simp add: sample_registry_def Let_def)
  have "dec_digits 7 = ''7''" by code_simp
  then show "stored_serial (sample_db rec) = 7"
    using Sscanf_Sprintf [of "[]" "[]" 7] by (simp add: stored_serial_def sample_db_def)
qed

section \<open>Properties\<close>

text \<open>
  C14: Both stores implement the abstract registry: for every sequence of method calls and every
  pattern of failing writes, the results returned and the final contents are those of a run of
  the abstract registry from the same contents.
\<close>

theorem stores_refine_registry:
  assumes "reg_invar r" "do_ops (registry_Store sha J) ops r = (cs, r')"
    and "sql_invar db" "do_ops (sql_Store sha) ops db = (cs2, db')"
  shows "ka_run (HashVoucherCode sha) (reg_abs r) cs (reg_abs r') \<and>
    ka_run (HashVoucherCode sha) (sql_abs db) cs2 (sql_abs db')"
  using rst.ops_run [OF assms(1,2)] sst.ops_run [OF assms(3,4)] by simp

theorem stores_refine_registry_witness:
  "ka_run (HashVoucherCode id) ka_empty (fst (do_ops (sql_Store id) [DoEnroll sample_req] (empty_db [False])))
     (sql_abs (snd (do_ops (sql_Store id) [DoEnroll sample_req] (empty_db [False]))))"
  using stores_refine_registry [where r = "fresh_registry ''f'' \<lparr>files = [], script = []\<rparr>" and sha = id and
      J = reg_codec and ops = "[DoEnroll sample_req]" and db = "empty_db [False]",
      OF fresh_registry_state(1) prod.collapse [symmetric] empty_db_state(1) prod.collapse [symmetric]]
  unfolding empty_db_state by blast

text \<open>
  C20: A serial number is handed out for one device and one epoch only: in any history of fewer than
  \<open>2 ^ 64\<close> calls on an empty store, with writes failing at any point, two grants with the same
  serial number are for the same device and the same epoch.
\<close>

theorem serials_never_shared:
  assumes "length ops < 2 ^ 64"
  shows "serials_injective (fst (do_ops (registry_Store sha J) ops (fresh_registry path d))) \<and>
    serials_injective (fst (do_ops (sql_Store sha) ops (empty_db outcomes)))"
proof
  show "serials_injective (fst (do_ops (registry_Store sha J) ops (fresh_registry path d)))"
    unfolding serials_injective_def
    using rst.serials_unique [OF fresh_registry_state _ assms] by (metis prod.collapse)
  show "serials_injective (fst (do_ops (sql_Store sha) ops (empty_db outcomes)))"
    unfolding serials_injective_def
    using sst.serials_unique [OF empty_db_state _ assms] by (metis prod.collapse)
qed

theorem serials_never_shared_witness:
  "serials_injective (fst (do_ops (sql_Store id)
     [DoEnroll sample_req, DoMarkIssued ''dev'' 9, DoMarkIssued ''dev'' 10] (empty_db [True, True, False])))"
  using serials_never_shared [of "[DoEnroll sample_req, DoMarkIssued ''dev'' 9, DoMarkIssued ''dev'' 10]" id]
  by (simp del: do_ops.simps)

text \<open>
  C21: A voucher is not redeemed more often than it allows: in any history that does not store a new
  voucher under its name, the number of successful redemptions is at most the uses it had left.
\<close>

theorem voucher_uses_bounded:
  assumes "\<forall>w. DoAddVoucher w \<in> set ops \<longrightarrow> ID_v w \<noteq> i"
    and "0 < MaxUses_v v" "is_i64 (MaxUses_v v)" "0 \<le> Uses_v v" "Uses_v v \<le> MaxUses_v v"
  shows "(reg_invar r \<longrightarrow> map_of (Vouchers (reg r)) i = Some v \<longrightarrow>
      int (redeemed i (fst (do_ops (registry_Store sha J) ops r))) \<le> MaxUses_v v - Uses_v v) \<and>
    (sql_invar db \<longrightarrow> lookup ID_v (t_vouchers db) i = Some v \<longrightarrow>
      int (redeemed i (fst (do_ops (sql_Store sha) ops db))) \<le> MaxUses_v v - Uses_v v)"
proof (intro conjI impI)
  assume "reg_invar r" and "map_of (Vouchers (reg r)) i = Some v"
  then show "int (redeemed i (fst (do_ops (registry_Store sha J) ops r))) \<le> MaxUses_v v - Uses_v v"
    using rst.redemptions_bounded [of r sha J ops _ _ i v, OF _ prod.collapse [symmetric]] assms
    by (simp add: reg_abs_def)
next
  assume "sql_invar db" and "lookup ID_v (t_vouchers db) i = Some v"
  then show "int (redeemed i (fst (do_ops (sql_Store sha) ops db))) \<le> MaxUses_v v - Uses_v v"
    using sst.redemptions_bounded [of db sha ops _ _ i v, OF _ prod.collapse [symmetric]] assms
    by simp
qed

theorem voucher_uses_bounded_witness:
  "int (redeemed ''v1'' (fst (do_ops (registry_Store id reg_codec)
     [DoRedeemVoucher 0 ''x'', DoRedeemVoucher 5 ''y''] (sample_registry [] sample_device)))) \<le> 1"
  using voucher_uses_bounded [of "[DoRedeemVoucher 0 ''x'', DoRedeemVoucher 5 ''y'']" "''v1''" sample_voucher
      "sample_registry [] sample_device" id reg_codec "sample_db sample_device"] sample_state
  by (simp add: sample_voucher_def sample_registry_def is_i64_def Let_def del: do_ops.simps)

text \<open>
  Once a device is revoked, and as long as it is not enrolled again, every request to mark a
  key as issued for it is answered with \<open>revoked\<close>, in both stores and whatever else is called or
  fails in between.
\<close>

theorem revoked_never_issued:
  assumes "\<forall>req. DoEnroll req \<in> set ops \<longrightarrow> DeviceID_e req \<noteq> d"
    and "reg_invar r" "reg_Get d r = Some rec" "Revoked rec"
    and "sql_invar db" "sql_Get d db = Some rec2" "Revoked rec2"
  shows "\<forall>e res. MarkIssued d e res \<in> set (fst (do_ops (registry_Store sha J) ops r)) \<union>
      set (fst (do_ops (sql_Store sha) ops db)) \<longrightarrow> res = Inl IsRevoked"
proof -
  have r: "devs (reg_abs r) d = Some rec" and db: "devs (sql_abs db) d = Some rec2"
    using assms(3,6) by (simp_all add: reg_Get_def reg_abs_def sql_Get_def getLocked_def lookup_def)
  show ?thesis
    using rst.revoked_not_issued(1) [OF assms(2) prod.collapse [symmetric] r assms(4,1)]
      sst.revoked_not_issued(1) [OF assms(5) prod.collapse [symmetric] db assms(7,1)]
    by blast
qed

theorem revoked_never_issued_witness:
  "\<not> (\<exists>e res. MarkIssued ''dev'' e res \<in> set (fst (do_ops (registry_Store id reg_codec)
       [DoMarkIssued ''dev'' 3] (sample_registry [] sample_device))) \<union>
     set (fst (do_ops (sql_Store id) [DoMarkIssued ''dev'' 3] (sample_db sample_device))) \<and> res \<noteq> Inl IsRevoked)"
  using revoked_never_issued [where r = "sample_registry [] sample_device" and db = "sample_db sample_device" and
      ops = "[DoMarkIssued ''dev'' 3]" and sha = id and J = reg_codec, OF _ sample_state(1,3) _ sample_state(2,4)]
  by (simp add: sample_device_def del: do_ops.simps) blast

text \<open>
  Asking again in the same epoch returns the same serial number and changes nothing, in both
  stores.
\<close>

theorem MarkIssued_idempotent:
  assumes "reg_invar r" "Serial (reg r) + 1 \<noteq> 0" "reg_MarkIssued J d e r = (Inr n, r1)"
    and "sql_invar db" "stored_serial db + 1 \<noteq> 0" "sql_MarkIssued d e db = (Inr m, db1)"
  shows "fst (reg_MarkIssued J d e r1) = Inr n \<and> reg_abs (snd (reg_MarkIssued J d e r1)) = reg_abs r1 \<and>
    fst (sql_MarkIssued d e db1) = Inr m \<and> sql_abs (snd (sql_MarkIssued d e db1)) = sql_abs db1"
proof -
  have "fst (reg_MarkIssued J d e r1) = Inr n \<and> reg_abs (snd (reg_MarkIssued J d e r1)) = reg_abs r1"
    using rst.mark_idempotent [of r undefined J d e n r1] assms(1-3)
    by (simp add: registry_Store_def reg_abs_def) (metis prod.collapse)
  moreover have "fst (sql_MarkIssued d e db1) = Inr m \<and> sql_abs (snd (sql_MarkIssued d e db1)) = sql_abs db1"
    using sst.mark_idempotent [of db undefined d e m db1] assms(4-6)
    by (simp add: sql_Store_def) (metis prod.collapse)
  ultimately show ?thesis by blast
qed

theorem MarkIssued_idempotent_witness:
  "let rec = sample_device\<lparr>Revoked := False\<rparr>;
       r1 = snd (reg_MarkIssued reg_codec ''dev'' 9 (sample_registry [] rec));
       db1 = snd (sql_MarkIssued ''dev'' 9 (sample_db rec))
   in fst (reg_MarkIssued reg_codec ''dev'' 9 r1) = Inr 8 \<and> fst (sql_MarkIssued ''dev'' 9 db1) = Inr 8"
proof -
  let ?rec = "sample_device\<lparr>Revoked := False\<rparr>"
  let ?r = "sample_registry [] ?rec" and ?db = "sample_db ?rec"
  have rec: "DeviceID ?rec = ''dev''" "\<not> Revoked ?rec" "\<not> already_issued 9 ?rec"
    by (simp_all add: sample_device_def already_issued_def)
  have "map_of (Devices (reg ?r)) ''dev'' = Some ?rec" "script (reg_disk ?r) = []"
    by (simp_all add: sample_registry_def Let_def)
  then obtain r1 where r1: "reg_MarkIssued reg_codec ''dev'' 9 ?r = (Inr 8, r1)"
    using rec by (simp add: reg_MarkIssued_def Let_def save_and_return_flushed sample_serial)
  have st: "stmts ?db = []" by (simp add: sample_db_def)
  have "getLocked ''dev'' ?db = Some ?rec" using sample_state(4) [OF rec(1)] by (simp add: sql_Get_def)
  then obtain db1 where db1: "sql_MarkIssued ''dev'' 9 ?db = (Inr 8, db1)"
    using rec st by (simp add: sql_MarkIssued_def gbind_def nextSerialLocked_def db_Exec_def Let_def
        sample_serial bindable_def)
  show ?thesis
    using MarkIssued_idempotent [OF sample_state(1) _ r1 sample_state(2) _ db1]
    by (simp add: sample_serial r1 db1 Let_def)
qed

text \<open>A registry that went through operations is loaded again with the same contents.\<close>

lemma registry_reload:
  assumes "reg_json_ok J" "script d = []" "LoadRegistry J path d = (Inr r, d1)" "reg_invar r"
    and "do_ops (registry_Store sha J) ops r = (cs, r')" "plain_data (reg r')"
  shows "\<exists>r2. LoadRegistry J path (reg_disk r') = (Inr r2, reg_disk r') \<and> reg_abs r2 = reg_abs r'"
proof -
  have "on_file J r \<and> reg_path r = path" using LoadRegistry_on_file [OF assms(3,2)] by simp
  then have f: "on_file J r'" "reg_path r' = path" using reg_ops_on_file [OF _ assms(5)] by auto
  have wf: "data_wf (reg r')" using rst.ops_run [OF assms(4,5)] by (simp add: reg_invar_def)
  obtain b where b: "os_ReadFile path (reg_disk r') = Some b" "b = Marshal J (reg r') \<or> Unmarshal J b = Some (reg r')"
    using f by (auto simp: on_file_def)
  have "\<exists>y. Unmarshal J b = Some y \<and> data_abs y = data_abs (reg r')"
    using b(2) assms(1,6) wf by (auto simp: reg_json_ok_def)
  then show ?thesis using b(1) by (auto simp: LoadRegistry_def Let_def reg_abs_def)
qed

text \<open>
  The registry survives a restart: after any calls on a registry loaded from a disk that takes
  all writes, loading the file again gives the same devices, vouchers and serial counter.
\<close>

theorem registry_survives_restart:
  assumes "reg_json_ok J" "script d = []" "LoadRegistry J path d = (Inr r, d1)" "reg_invar r"
    and "do_ops (registry_Store sha J) ops r = (cs, r')" "plain_data (reg r')"
  shows "\<exists>r2. LoadRegistry J path (reg_disk r') = (Inr r2, reg_disk r') \<and> reg_abs r2 = reg_abs r'"
  using registry_reload [OF assms] .

lemma sample_registry_run:
  defines "r \<equiv> flushed reg_codec (fresh_registry ''f'' \<lparr>files = [], script = []\<rparr>)"
  shows "LoadRegistry reg_codec ''f'' \<lparr>files = [], script = []\<rparr> = (Inr r, reg_disk r)" and "reg_invar r"
    and "\<exists>r'. do_ops (registry_Store id reg_codec) [DoEnroll sample_req] r =
        ([Enroll sample_req (Inr (enroll_new sample_req))], r') \<and>
      reg_Enroll reg_codec sample_req r = (Inr (enroll_new sample_req), r') \<and> plain_data (reg r')"
proof -
  show "LoadRegistry reg_codec ''f'' \<lparr>files = [], script = []\<rparr> = (Inr r, reg_disk r)"
    by (simp add: r_def LoadRegistry_def os_ReadFile_def reg_Save_def saveLocked_flushed fresh_registry_def Let_def)
  have r: "reg r = \<lparr>Devices = [], Vouchers = [], Serial = 0\<rparr>" "script (reg_disk r) = []"
    by (simp_all add: r_def flushed_def fresh_registry_def)
  then show "reg_invar r" by (simp add: reg_invar_def data_wf_def keyed_def)
  let ?r' = "flushed reg_codec (set_device ''dev'' (enroll_new sample_req) r)"
  have e: "reg_Enroll reg_codec sample_req r = (Inr (enroll_new sample_req), ?r')"
    using sample_req_ok r by (simp add: reg_Enroll_def save_and_return_flushed Let_def)
  have "reg ?r' = \<lparr>Devices = [(''dev'', enroll_new sample_req)], Vouchers = [], Serial = 0\<rparr>"
    using r(1) by (simp add: flushed_def set_device_def)
  then have "plain_data (reg ?r')"
    by (simp add: plain_data_def ascii_device_def enroll_new_def enroll_profile_def sample_req_def ascii_def)
  with e show "\<exists>r'. do_ops (registry_Store id reg_codec) [DoEnroll sample_req] r =
        ([Enroll sample_req (Inr (enroll_new sample_req))], r') \<and>
      reg_Enroll reg_codec sample_req r = (Inr (enroll_new sample_req), r') \<and> plain_data (reg r')"
    by (simp add: registry_Store_def)
qed

theorem registry_survives_restart_witness:
  "\<exists>r r' r2. LoadRegistry reg_codec ''f'' \<lparr>files = [], script = []\<rparr> = (Inr r, reg_disk r) \<and>
     reg_Enroll reg_codec sample_req r = (Inr (enroll_new sample_req), r') \<and>
     LoadRegistry reg_codec ''f'' (reg_disk r') = (Inr r2, reg_disk r') \<and> reg_abs r2 = reg_abs r'"
proof -
  obtain r' where "do_ops (registry_Store id reg_codec) [DoEnroll sample_req]
      (flushed reg_codec (fresh_registry ''f'' \<lparr>files = [], script = []\<rparr>)) =
      ([Enroll sample_req (Inr (enroll_new sample_req))], r')" "plain_data (reg r')"
    "reg_Enroll reg_codec sample_req (flushed reg_codec (fresh_registry ''f'' \<lparr>files = [], script = []\<rparr>)) =
      (Inr (enroll_new sample_req), r')"
    using sample_registry_run(3) by blast
  with registry_survives_restart [OF reg_codec_ok _ sample_registry_run(1,2) this(1,2)] sample_registry_run(1)
  show ?thesis by auto
qed

text \<open>
  A save that fails is reported, but only the file keeps the old contents: after an enrollment
  that returned an error because the file could not be opened, the registry in memory has the new
  device record, and a restart has the old one.
\<close>

theorem failed_save_diverges:
  assumes "enroll_check req = None" "script (reg_disk r) = OpenFails # os"
    and "os_ReadFile (reg_path r) (reg_disk r) = Some b" "Unmarshal J b = Some (reg r)"
  shows "\<exists>r' r2. reg_Enroll J req r = (Inl Persist, r') \<and>
    reg_Get (DeviceID_e req) r' = Some (enrolled_record req (reg_Get (DeviceID_e req) r)) \<and>
    LoadRegistry J (reg_path r) (reg_disk r') = (Inr r2, reg_disk r') \<and>
    reg_Get (DeviceID_e req) r2 = reg_Get (DeviceID_e req) r"
  using assms
  by (auto simp: reg_Enroll_def save_and_return_def saveLocked_def os_WriteFile_def set_device_def reg_Get_def
      enrolled_record_def LoadRegistry_def os_ReadFile_def Let_def split: option.splits)

theorem failed_save_diverges_witness:
  "\<exists>r' r2. reg_Enroll reg_codec sample_req (sample_registry [OpenFails] sample_device) = (Inl Persist, r') \<and>
     \<not> Revoked (the (reg_Get ''dev'' r')) \<and>
     LoadRegistry reg_codec ''f'' (reg_disk r') = (Inr r2, reg_disk r') \<and> Revoked (the (reg_Get ''dev'' r2))"
proof -
  let ?r = "sample_registry [OpenFails] sample_device"
  have "plain_data (reg ?r)"
    by (simp add: sample_registry_def plain_data_def ascii_device_def wf_voucher_def sample_device_def
        sample_voucher_def ascii_def is_i64_def Let_def)
  then have u: "Unmarshal reg_codec (Marshal reg_codec (reg ?r)) = Some (reg ?r)" by (rule reg_codec_exact)
  have p: "reg_path ?r = ''f''" "script (reg_disk ?r) = OpenFails # []"
    "os_ReadFile (reg_path ?r) (reg_disk ?r) = Some (Marshal reg_codec (reg ?r))"
    by (simp_all add: sample_registry_def os_ReadFile_def Let_def)
  have "\<not> Revoked (enrolled_record sample_req (Some sample_device))" "Revoked sample_device"
    by (simp_all add: enrolled_record_def enroll_existing_def sample_device_def)
  with failed_save_diverges [OF sample_req_ok(1) p(2,3) u] show ?thesis
    unfolding sample_req_ok(2) sample_state(3) p(1) by force
qed

text \<open>
  Enrolling a name that is already enrolled succeeds in both stores: it lifts a revocation,
  replaces the identity key, and moves the enrollment counter up, except that the counter of a
  device at \<open>2 ^ 32 - 1\<close> restarts at zero.
\<close>

theorem reenroll_replaces_device:
  assumes "enroll_check req = None" "reg_invar r" "reg_Get (DeviceID_e req) r = Some old"
    and "script (reg_disk r) = []"
    and "sql_invar db" "sql_Get (DeviceID_e req) db = Some old" "stmts db = []"
  shows "\<exists>rec r' db'. reg_Enroll J req r = (Inr rec, r') \<and> sql_Enroll req db = (Inr rec, db') \<and>
    reg_Get (DeviceID_e req) r' = Some rec \<and> sql_Get (DeviceID_e req) db' = Some rec \<and>
    \<not> Revoked rec \<and> IdentityPK rec = IdentityPK_e req \<and>
    (EnrollmentCounter old < EnrollmentCounter rec \<or> EnrollmentCounter old = - 1 \<and> EnrollmentCounter rec = 0)"
proof -
  let ?rec = "enroll_existing req old"
  obtain r' where r': "reg_Enroll J req r = (Inr ?rec, r')"
    using assms(1,3,4) by (simp add: reg_Enroll_def reg_Get_def save_and_return_flushed Let_def)
  have "getLocked (DeviceID_e req) db = Some old" using assms(6) by (simp add: sql_Get_def)
  then obtain db' where db': "sql_Enroll req db = (Inr ?rec, db')"
    using assms(1,7) by (simp add: sql_Enroll_def db_Exec_def Let_def)
  have "reg_Get (DeviceID_e req) r' = Some ?rec"
    using rst.enroll [OF assms(2), of undefined J req "Inr ?rec" r'] r' assms(1,3)
    by (auto simp: registry_Store_def enroll_spec_def Let_def saved_def reg_Get_def reg_abs_def enrolled_record_def
        dest: arg_cong [where f = devs])
  moreover have "sql_Get (DeviceID_e req) db' = Some ?rec"
  proof -
    have "enrolled_record req (devs (sql_abs db) (DeviceID_e req)) = ?rec"
      using assms(6) by (simp add: enrolled_record_def sql_Get_def getLocked_def lookup_def)
    then have "sql_abs db' = put_dev (DeviceID_e req) ?rec (sql_abs db)"
      using sst.enroll [OF assms(5), of undefined req "Inr ?rec" db'] db' assms(1)
      by (simp add: sql_Store_def enroll_spec_def Let_def saved_def del: sql_abs_sel)
    then have "devs (sql_abs db') (DeviceID_e req) = Some ?rec" by (simp del: sql_abs_sel)
    then show ?thesis by (simp add: sql_Get_def getLocked_def lookup_def)
  qed
  moreover have "EnrollmentCounter old < EnrollmentCounter ?rec \<or>
      EnrollmentCounter old = - 1 \<and> EnrollmentCounter ?rec = 0"
    using u32_succ [of "EnrollmentCounter old"] by (auto simp: enroll_existing_def)
  ultimately show ?thesis using r' db' by (auto simp: enroll_existing_def)
qed

theorem reenroll_replaces_device_witness:
  "\<exists>rec r' db'. reg_Enroll reg_codec sample_req (sample_registry [] sample_device) = (Inr rec, r') \<and>
     sql_Enroll sample_req (sample_db sample_device) = (Inr rec, db') \<and> \<not> Revoked rec"
proof -
  have "DeviceID sample_device = ''dev''" by (simp add: sample_device_def)
  then have g: "sql_Get (DeviceID_e sample_req) (sample_db sample_device) = Some sample_device"
    "reg_Get (DeviceID_e sample_req) (sample_registry [] sample_device) = Some sample_device"
    using sample_state(3,4) by (simp_all add: sample_req_ok)
  have "script (reg_disk (sample_registry [] sample_device)) = []" "stmts (sample_db sample_device) = []"
    by (simp_all add: sample_registry_def sample_db_def Let_def)
  from reenroll_replaces_device [OF sample_req_ok(1) sample_state(1) g(2) this(1) sample_state(2) g(1) this(2), of reg_codec]
  show ?thesis by blast
qed

end
