(* ===== verification/RateLimit.thy ===== *)
theory RateLimit
  imports KATypes
begin

text \<open>
  Rate limiting of the key authority, \<^verbatim>\<open>internal/kaapi/ratelimit.go\<close>: a sliding window of hit times
  per key, the key built from the client address and the path. \<open>time.Now()\<close> is an argument. An
  HTTP request is the record of the parts the program reads.
\<close>

section \<open>Definitions\<close>

record Request =
  r_Path :: string
  r_Authorization :: string
  r_XDeviceID :: string
  r_XForwardedFor :: string
  r_RemoteAddr :: string
  r_QueryDeviceID :: string
  r_TLS :: bool

record RateLimiter =
  hits :: "(string \<times> time list) list"
  limit :: int
  window :: i64

definition NewRateLimiter :: "int \<Rightarrow> i64 \<Rightarrow> RateLimiter" where
  "NewRateLimiter lim win =
     \<lparr>hits = [], limit = (if lim \<le> 0 then 30 else lim), window = (if win \<le> 0 then 60000000000 else win)\<rparr>"

text \<open>Reading a Go map of slices: a missing key gives \<open>nil\<close>.\<close>

definition hits_of :: "RateLimiter \<Rightarrow> string \<Rightarrow> time list" where
  "hits_of r key = (case map_of (hits r) key of None \<Rightarrow> [] | Some ts \<Rightarrow> ts)"

definition Allow :: "time \<Rightarrow> string \<Rightarrow> RateLimiter \<Rightarrow> bool \<times> RateLimiter" where
  "Allow now key r =
     (let cut = now - window r;
          arr = filter (\<lambda>t. t > cut) (hits_of r key)
      in if int (length arr) \<ge> limit r then (False, r\<lparr>hits := AList.update key arr (hits r)\<rparr>)
         else (True, r\<lparr>hits := AList.update key (arr @ [now]) (hits r)\<rparr>))"

text \<open>\<open>net.SplitHostPort\<close>, the host part; \<open>None\<close> for an error.\<close>

definition index_of :: "char \<Rightarrow> string \<Rightarrow> nat option" where
  "index_of c s = (let n = length (takeWhile (\<lambda>x. x \<noteq> c) s) in if n = length s then None else Some n)"

definition last_index_of :: "char \<Rightarrow> string \<Rightarrow> nat option" where
  "last_index_of c s = map_option (\<lambda>n. length s - 1 - n) (index_of c (rev s))"

definition SplitHostPort :: "string \<Rightarrow> string option" where
  "SplitHostPort hp =
     (case last_index_of CHR '':'' hp of
        None \<Rightarrow> None
      | Some i \<Rightarrow>
        (if hp ! 0 = CHR ''['' then
           (case index_of CHR '']'' hp of
              None \<Rightarrow> None
            | Some e \<Rightarrow>
              if e + 1 \<noteq> i then None
              else if index_of CHR ''['' (drop 1 hp) \<noteq> None then None
              else if index_of CHR '']'' (drop (e + 1) hp) \<noteq> None then None
              else Some (drop 1 (take e hp)))
         else
           (let host = take i hp in
            if index_of CHR '':'' host \<noteq> None then None
            else if index_of CHR ''['' hp \<noteq> None then None
            else if index_of CHR '']'' hp \<noteq> None then None
            else Some host)))"

definition ClientIP :: "Request \<Rightarrow> string" where
  "ClientIP r =
     (if r_XForwardedFor r \<noteq> '''' then TrimSpace (takeWhile (\<lambda>c. c \<noteq> CHR '','') (r_XForwardedFor r))
      else case SplitHostPort (r_RemoteAddr r) of None \<Rightarrow> r_RemoteAddr r | Some host \<Rightarrow> host)"

text \<open>
  \<open>Middleware\<close>: \<open>Inl\<close> is the answer 429 of the limiter itself, \<open>Inr\<close> the request passed on.
\<close>

definition Middleware :: "time \<Rightarrow> Request \<Rightarrow> RateLimiter \<Rightarrow> (nat + Request) \<times> RateLimiter" where
  "Middleware now req r =
     (let path = r_Path req in
      if path = ''/v1/enroll'' \<or> path = ''/v1/key/issue'' \<or> path = ''/v1/vouchers'' then
        (case Allow now (ClientIP req @ ''|'' @ path) r of
           (False, r') \<Rightarrow> (Inl 429, r') | (True, r') \<Rightarrow> (Inr req, r'))
      else (Inr req, r))"

text \<open>A history of calls: which were allowed, and the limiter at the end.\<close>

fun allow_run :: "RateLimiter \<Rightarrow> (time \<times> string) list \<Rightarrow> (time \<times> string) list \<times> RateLimiter" where
  "allow_run r [] = ([], r)"
| "allow_run r ((now, key) # evs) =
     (let (ok, r1) = Allow now key r; (acc, r2) = allow_run r1 evs
      in (if ok then (now, key) # acc else acc, r2))"

section \<open>Lemmas\<close>

definition hits_after :: "string \<Rightarrow> time \<Rightarrow> (time \<times> string) list \<Rightarrow> time list" where
  "hits_after k c acc = map fst (filter (\<lambda>(t, k'). k' = k \<and> c < t) acc)"

lemma hits_after_snoc:
  "hits_after k c (acc @ [(t, k')]) = hits_after k c acc @ (if k' = k \<and> c < t then [t] else [])"
  by (simp add: hits_after_def)

lemma filter_hits_after: "c \<le> d \<Longrightarrow> filter (\<lambda>t. t > d) (hits_after k c acc) = hits_after k d acc"
  by (induction acc) (auto simp: hits_after_def)

text \<open>
  The limiter remembers, for every key, the allowed hits after some time that no later call will
  look behind.
\<close>

definition limiter_inv :: "RateLimiter \<Rightarrow> (time \<times> string) list \<Rightarrow> time \<Rightarrow> bool" where
  "limiter_inv r acc now \<longleftrightarrow> 0 < window r \<and> (\<forall>k. \<exists>c. c \<le> now - window r \<and> hits_of r k = hits_after k c acc)"

lemma hits_of_update [simp]:
  "hits_of (r\<lparr>hits := AList.update k ts (hits r)\<rparr>) k' = (if k' = k then ts else hits_of r k')"
  by (simp add: hits_of_def)

lemma Allow_sel [simp]: "limit (snd (Allow now k r)) = limit r" "window (snd (Allow now k r)) = window r"
  by (simp_all add: Allow_def Let_def)

lemma Allow_inv:
  assumes inv: "limiter_inv r acc prev" and "prev \<le> now"
  shows "fst (Allow now k r) \<longleftrightarrow> int (length (hits_after k (now - window r) acc)) < limit r"
    and "limiter_inv (snd (Allow now k r)) (if fst (Allow now k r) then acc @ [(now, k)] else acc) now"
proof -
  have c: "\<exists>c. c \<le> prev - window r \<and> hits_of r k' = hits_after k' c acc" for k'
    using inv by (simp add: limiter_inv_def)
  from c [of k] obtain c0 where c0: "c0 \<le> prev - window r" "hits_of r k = hits_after k c0 acc" by blast
  have arr: "filter (\<lambda>t. t > now - window r) (hits_of r k) = hits_after k (now - window r) acc"
    using c0 assms(2) by (simp add: filter_hits_after)
  show A: "fst (Allow now k r) \<longleftrightarrow> int (length (hits_after k (now - window r) acc)) < limit r"
    by (simp add: Allow_def arr Let_def)
  have w: "0 < window r" using inv by (simp add: limiter_inv_def)
  have other: "\<exists>c. c \<le> now - window r \<and> hits_of r k' = hits_after k' c (acc @ [(now, k)])" if "k' \<noteq> k" for k'
  proof -
    from c [of k'] obtain c1 where "c1 \<le> prev - window r" "hits_of r k' = hits_after k' c1 acc" by blast
    then show ?thesis using that assms(2) by (intro exI [of _ c1]) (simp add: hits_after_snoc)
  qed
  have other': "\<exists>c. c \<le> now - window r \<and> hits_of r k' = hits_after k' c acc" for k'
  proof -
    from c [of k'] obtain c1 where "c1 \<le> prev - window r" "hits_of r k' = hits_after k' c1 acc" by blast
    then show ?thesis using assms(2) by (intro exI [of _ c1]) simp
  qed
  show "limiter_inv (snd (Allow now k r)) (if fst (Allow now k r) then acc @ [(now, k)] else acc) now"
  proof (cases "fst (Allow now k r)")
    case True
    then have s: "snd (Allow now k r) = r\<lparr>hits := AList.update k (hits_after k (now - window r) acc @ [now]) (hits r)\<rparr>"
      by (simp add: Allow_def arr Let_def split: if_splits)
    have "hits_after k (now - window r) (acc @ [(now, k)]) = hits_after k (now - window r) acc @ [now]"
      using w by (simp add: hits_after_snoc)
    then show ?thesis
      using True w other unfolding limiter_inv_def s by (auto simp: intro!: exI [of _ "now - window r"])
  next
    case False
    then have s: "snd (Allow now k r) = r\<lparr>hits := AList.update k (hits_after k (now - window r) acc) (hits r)\<rparr>"
      by (simp add: Allow_def arr Let_def split: if_splits)
    show ?thesis
      using False w other' unfolding limiter_inv_def s by (auto intro!: exI [of _ "now - window r"])
  qed
qed

lemma allow_run_snoc:
  "allow_run r (evs @ [(now, k)]) =
     (let (acc, r1) = allow_run r evs; (ok, r2) = Allow now k r1 in (if ok then acc @ [(now, k)] else acc, r2))"
proof (induction evs arbitrary: r)
  case (Cons ev evs)
  then show ?case by (cases ev) (simp add: Let_def split_beta)
qed (simp add: Let_def split_beta)

lemma allow_run_sel':
  "limit (snd (allow_run r evs)) = limit r \<and> window (snd (allow_run r evs)) = window r"
proof (induction evs arbitrary: r)
  case (Cons ev evs)
  then show ?case by (cases ev) (simp add: Let_def split_beta)
qed simp

lemma allow_run_sel:
  "allow_run r evs = (acc, r') \<Longrightarrow> limit r' = limit r \<and> window r' = window r"
  using allow_run_sel' [of r evs] by simp

lemma limiter_inv_later:
  assumes "limiter_inv r acc t" and "t \<le> now"
  shows "limiter_inv r acc now"
  unfolding limiter_inv_def
proof (intro conjI allI)
  show "0 < window r" using assms(1) by (simp add: limiter_inv_def)
  fix k
  obtain c where "c \<le> t - window r" "hits_of r k = hits_after k c acc"
    using assms(1) unfolding limiter_inv_def by blast
  then show "\<exists>c \<le> now - window r. hits_of r k = hits_after k c acc"
    using assms(2) by (intro exI [of _ c]) simp
qed

lemma allow_run_inv:
  assumes "sorted (map fst evs)" and "allow_run (NewRateLimiter lim win) evs = (acc, r)"
    and "\<forall>ev \<in> set evs. fst ev \<le> now"
  shows "limiter_inv r acc now"
  using assms
proof (induction evs arbitrary: acc r now rule: rev_induct)
  case Nil
  then show ?case by (auto simp: limiter_inv_def NewRateLimiter_def hits_of_def hits_after_def)
next
  case (snoc ev evs)
  obtain t k where ev: "ev = (t, k)" by fastforce
  obtain acc1 r1 where run: "allow_run (NewRateLimiter lim win) evs = (acc1, r1)" by fastforce
  have "limiter_inv r1 acc1 t"
    using snoc.prems(1) run by (intro snoc.IH) (auto simp: sorted_append ev)
  from Allow_inv(2) [OF this order_refl, of k]
  have "limiter_inv r acc t"
    using snoc.prems(2) run by (auto simp: ev allow_run_snoc Let_def split_beta split: if_splits)
  moreover have "t \<le> now" using snoc.prems(3) by (simp add: ev)
  ultimately show ?case by (rule limiter_inv_later)
qed

section \<open>Properties\<close>

text \<open>
  C34: The limiter is exact: after any history of calls in order of time, a call is allowed if and
  only if fewer than \<open>limit\<close> calls with its key were allowed within the last \<open>window\<close>.
\<close>

theorem rate_limit_exact:
  assumes "sorted (map fst (evs @ [(now, key)]))"
    and "allow_run (NewRateLimiter lim win) evs = (acc, r)"
  shows "fst (Allow now key r) \<longleftrightarrow>
    int (length (filter (\<lambda>(t, k). k = key \<and> now - window r < t) acc)) < limit (NewRateLimiter lim win)"
proof -
  have "limiter_inv r acc now"
    using assms by (intro allow_run_inv) (auto simp: sorted_append)
  from Allow_inv(1) [OF this order_refl, of key] allow_run_sel [OF assms(2)] show ?thesis
    by (simp add: hits_after_def)
qed

theorem rate_limit_exact_witness:
  "let r = snd (allow_run (NewRateLimiter 2 10) [(1, ''a''), (2, ''b''), (3, ''a'')])
   in \<not> fst (Allow 10 ''a'' r) \<and> fst (Allow 10 ''b'' r) \<and> fst (Allow 11 ''a'' r)"
proof -
  let ?run = "allow_run (NewRateLimiter 2 10) [(1, ''a''), (2, ''b''), (3, ''a'')]"
  have r: "?run = ([(1, ''a''), (2, ''b''), (3, ''a'')], snd ?run)" and w: "window (snd ?run) = 10"
    by (simp_all add: Allow_def NewRateLimiter_def hits_of_def)
  have l: "limit (NewRateLimiter 2 10) = 2" by (simp add: NewRateLimiter_def)
  show ?thesis
    using rate_limit_exact [OF _ r, of 10 "''a''"] rate_limit_exact [OF _ r, of 10 "''b''"]
      rate_limit_exact [OF _ r, of 11 "''a''"]
    by (simp add: w l Let_def del: allow_run.simps)
qed

text \<open>
  No key gets more than \<open>limit\<close> calls through in any window of time, wherever it begins.
\<close>

theorem rate_limit_bound:
  assumes "sorted (map fst evs)" and "allow_run (NewRateLimiter lim win) evs = (acc, r)"
  shows "int (length (filter (\<lambda>(t, k). k = key \<and> end_time - window r < t \<and> t \<le> end_time) acc))
    \<le> limit (NewRateLimiter lim win)"
  using assms
proof (induction evs arbitrary: acc r rule: rev_induct)
  case Nil
  then show ?case by (auto simp: NewRateLimiter_def)
next
  case (snoc ev evs)
  obtain now k where ev: "ev = (now, k)" by fastforce
  obtain acc1 r1 where run: "allow_run (NewRateLimiter lim win) evs = (acc1, r1)" by fastforce
  have w: "window r1 = window r" "limit r1 = limit (NewRateLimiter lim win)"
    using allow_run_sel [OF run] allow_run_sel [OF snoc.prems(2)] by simp_all
  let ?P = "\<lambda>(t, k). k = key \<and> end_time - window r < t \<and> t \<le> end_time"
  have IH: "int (length (filter ?P acc1)) \<le> limit (NewRateLimiter lim win)"
    using snoc.IH [OF _ run] snoc.prems(1) w by (simp add: sorted_append)
  show ?case
  proof (cases "fst (Allow now k r1) \<and> ?P (now, k)")
    case False
    then have "filter ?P acc = filter ?P acc1"
      using snoc.prems(2) run by (auto simp: ev allow_run_snoc split_beta split: if_splits)
    with IH show ?thesis by simp
  next
    case True
    then have acc: "acc = acc1 @ [(now, key)]" and k: "k = key" and t: "now \<le> end_time"
      using snoc.prems(2) run by (auto simp: ev allow_run_snoc split_beta)
    have "limiter_inv r1 acc1 now"
      using snoc.prems(1) run by (intro allow_run_inv) (auto simp: sorted_append ev)
    from Allow_inv(1) [OF this order_refl, of key] True k
    have "int (length (hits_after key (now - window r) acc1)) < limit (NewRateLimiter lim win)"
      by (simp add: w)
    moreover have "length (filter ?P acc1) \<le> length (hits_after key (now - window r) acc1)"
      using t unfolding hits_after_def by (induction acc1) auto
    ultimately show ?thesis using True k by (simp add: acc)
  qed
qed

theorem rate_limit_bound_witness:
  "length (filter (\<lambda>(t, k). k = ''a'' \<and> 12 - 10 < t \<and> t \<le> 12)
     (fst (allow_run (NewRateLimiter 2 10) [(1, ''a''), (5, ''a''), (6, ''a''), (12, ''a'')]))) \<le> 2"
proof -
  let ?run = "allow_run (NewRateLimiter 2 10) [(1, ''a''), (5, ''a''), (6, ''a''), (12, ''a'')]"
  have w: "window (snd ?run) = 10" and l: "limit (NewRateLimiter 2 10) = 2"
    by (simp_all only: allow_run_sel') (simp_all add: NewRateLimiter_def)
  show ?thesis
    using rate_limit_bound [of "[(1, ''a''), (5, ''a''), (6, ''a''), (12, ''a'')]" 2 10 "fst ?run" "snd ?run"
        "''a''" 12]
    by (simp add: w l del: allow_run.simps)
qed

text \<open>
  The key of the limiter is under the control of the client: with a suitable
  \<open>X-Forwarded-For\<close> header a request is counted under any name without commas and outer blanks,
  so the same peer is never limited when it sends a new name each time.
\<close>

theorem rate_limit_key_forgeable:
  assumes "name \<noteq> ''''" "CHR '','' \<notin> set name" "TrimSpace name = name"
    and "map_of (hits r) (name @ ''|'' @ r_Path req) = None" "0 < limit r"
  shows "fst (Middleware now (req\<lparr>r_XForwardedFor := name\<rparr>) r) = Inr (req\<lparr>r_XForwardedFor := name\<rparr>)"
proof -
  have "takeWhile (\<lambda>c. c \<noteq> CHR '','') name = name" using assms(2) by (auto simp: takeWhile_eq_all_conv)
  then have "TrimSpace (takeWhile (\<lambda>c. c \<noteq> CHR '','') name) = name" by (simp only: assms(3))
  then have "ClientIP (req\<lparr>r_XForwardedFor := name\<rparr>) = name"
    using assms(1) by (simp add: ClientIP_def)
  then show ?thesis
    using assms(4,5) by (simp add: Middleware_def Allow_def hits_of_def Let_def)
qed

theorem rate_limit_key_forgeable_witness:
  "let req = \<lparr>r_Path = ''/v1/enroll'', r_Authorization = '''', r_XDeviceID = '''', r_XForwardedFor = ''x7'',
         r_RemoteAddr = ''10.0.0.1:5'', r_QueryDeviceID = '''', r_TLS = True\<rparr>
   in fst (Middleware 5 req \<lparr>hits = [(''10.0.0.1|/v1/enroll'', [4])], limit = 1, window = 60\<rparr>) = Inr req"
  using rate_limit_key_forgeable [of "''x7''" "\<lparr>hits = [(''10.0.0.1|/v1/enroll'', [4])], limit = 1, window = 60\<rparr>"
      "\<lparr>r_Path = ''/v1/enroll'', r_Authorization = '''', r_XDeviceID = '''', r_XForwardedFor = '''',
         r_RemoteAddr = ''10.0.0.1:5'', r_QueryDeviceID = '''', r_TLS = True\<rparr>" 5]
  by (simp add: TrimSpace_def is_space_def)

end
