(* ===== verification/Clock.thy ===== *)
theory Clock
  imports Epoch
begin

text \<open>
  The corrected clock of a device, \<^verbatim>\<open>internal/device/clock.go\<close>. The package variable
  \<open>clockOffset\<close> is the state; \<open>Now()\<close> is the argument \<open>now\<close>. Durations are \<open>int64\<close> nanoseconds.
\<close>

section \<open>Definitions\<close>

definition Second :: i64 where
  "Second = 1000000000"

definition Hour :: i64 where
  "Hour = 3600 * Second"

record clock =
  clockOffset :: i64

definition SetClockOffset :: "i64 \<Rightarrow> clock \<Rightarrow> clock" where
  "SetClockOffset d c = c\<lparr>clockOffset := d\<rparr>"

definition ClockOffset :: "clock \<Rightarrow> i64" where
  "ClockOffset c = clockOffset c"

definition CorrectedNow :: "time \<Rightarrow> clock \<Rightarrow> time" where
  "CorrectedNow now c = now + ClockOffset c"

definition ApplyKATime :: "time \<Rightarrow> i64 \<Rightarrow> clock \<Rightarrow> clock" where
  "ApplyKATime now kaUnix c =
     (if kaUnix \<le> 0 then c
      else
        let local = Unix now;
            delta = wrap64 (wrap64 (kaUnix - local) * Second)
        in if delta < Second \<and> delta > - Second then c
           else
             let mx = 2 * Hour;
                 delta = (if delta > mx then mx else delta);
                 delta = (if delta < - mx then - mx else delta)
             in SetClockOffset delta c)"

definition CurrentEpoch :: "time \<Rightarrow> clock \<Rightarrow> u64" where
  "CurrentEpoch now c = EpochID (CorrectedNow now c)"

definition CheckSkew :: "i64 \<Rightarrow> i64 \<Rightarrow> i64 + unit" where
  "CheckSkew clientUnix serverUnix =
     (let d = wrap64 (clientUnix - serverUnix);
          d = (if d < 0 then wrap64 (- d) else d)
      in if d > MaxClockSkewSeconds then Inl d else Inr ())"

text \<open>The answers of a key authority over time: the local clock at arrival and its \<open>ka_time\<close>.\<close>

fun apply_all :: "(time \<times> i64) list \<Rightarrow> clock \<Rightarrow> clock" where
  "apply_all [] c = c"
| "apply_all ((now, ka) # rs) c = apply_all rs (ApplyKATime now ka c)"

section \<open>Lemmas\<close>

lemma ApplyKATime_bounded:
  "\<bar>clockOffset c\<bar> \<le> 2 * Hour \<Longrightarrow> \<bar>clockOffset (ApplyKATime now ka c)\<bar> \<le> 2 * Hour"
  by (auto simp: ApplyKATime_def SetClockOffset_def Let_def Hour_def Second_def)

lemma apply_all_bounded:
  "\<bar>clockOffset c\<bar> \<le> 2 * Hour \<Longrightarrow> \<bar>clockOffset (apply_all rs c)\<bar> \<le> 2 * Hour"
  by (induction rs c rule: apply_all.induct) (simp_all add: ApplyKATime_bounded)

lemma Unix_shift: "Unix (t + k * 1000000000) = Unix t + k"
  by (simp add: Unix_def)

text \<open>The absolute value in \<open>int64\<close>, with the one value that has none.\<close>

lemma abs_i64:
  assumes "is_i64 d"
  shows "(if d < 0 then wrap64 (- d) else d) = (if d = - (2 ^ 63) then - (2 ^ 63) else \<bar>d\<bar>)"
proof (cases "d = - (2 ^ 63)")
  case True
  then show ?thesis by (simp add: wrap64_def)
next
  case False
  with assms have "is_i64 (- d)" by (simp add: is_i64_def)
  with False show ?thesis by simp
qed

lemma CheckSkew_Inr:
  "CheckSkew c s = Inr () \<longleftrightarrow> \<bar>wrap64 (c - s)\<bar> \<le> 120 \<or> wrap64 (c - s) = - (2 ^ 63)"
  unfolding CheckSkew_def Let_def abs_i64 [OF wrap64_range]
  by (simp add: MaxClockSkewSeconds_def)

section \<open>Properties\<close>

text \<open>
  Whatever a key authority answers, and however often, the correction applied to the local
  clock never exceeds two hours.
\<close>

theorem clock_offset_bounded:
  "\<bar>CorrectedNow now (apply_all rs \<lparr>clockOffset = 0\<rparr>) - now\<bar> \<le> 2 * Hour"
  using apply_all_bounded [of "\<lparr>clockOffset = 0\<rparr>" rs]
  by (simp add: CorrectedNow_def ClockOffset_def Hour_def Second_def)

text \<open>
  When the authority's clock differs from the local one by one second to two hours, the
  corrected clock shows the authority's second afterwards, whatever the offset was before.
\<close>

theorem corrected_clock_follows:
  assumes "0 < ka" and "1 \<le> \<bar>ka - Unix now\<bar>" and "\<bar>ka - Unix now\<bar> \<le> 7200"
  shows "Unix (CorrectedNow now (ApplyKATime now ka c)) = ka"
proof -
  obtain d where ka: "ka = Unix now + d" by (metis diff_add_cancel add.commute)
  with assms have d: "1 \<le> \<bar>d\<bar>" "\<bar>d\<bar> \<le> 7200" by simp_all
  then have w: "wrap64 d = d" "wrap64 (d * 1000000000) = d * 1000000000"
    by (auto intro!: wrap64_id simp: is_i64_def)
  have "clockOffset (ApplyKATime now ka c) = d * 1000000000"
    using assms(1) d unfolding ApplyKATime_def ka Let_def Second_def Hour_def SetClockOffset_def
    by (auto simp: w)
  then show ?thesis
    by (simp add: CorrectedNow_def ClockOffset_def Unix_shift ka)
qed

theorem corrected_clock_follows_witness:
  "Unix (CorrectedNow (5000 * 10 ^ 9 + 7) (ApplyKATime (5000 * 10 ^ 9 + 7) 4000 \<lparr>clockOffset = 3\<rparr>)) = 4000"
  using corrected_clock_follows [of 4000 "5000 * 10 ^ 9 + 7" "\<lparr>clockOffset = 3\<rparr>"] by (simp add: Unix_def)

text \<open>
  When the local clock shows the same second as the authority, the previous correction stays
  in force: the device whose clock has just been set right goes on running at the old offset.
\<close>

theorem stale_offset_kept:
  "ApplyKATime now (Unix now) c = c"
  by (simp add: ApplyKATime_def Let_def Second_def wrap64_def)

text \<open>
  For a server clock in the Unix era, \<open>CheckSkew\<close> accepts exactly the client times within
  \<open>MaxClockSkewSeconds\<close> of it, and one more: the client time \<open>2 ^ 63\<close> below, whose distance has no
  absolute value in \<open>int64\<close>.
\<close>

theorem CheckSkew_exact:
  assumes "is_i64 client" and "0 \<le> server" and "server < 2 ^ 62"
  shows "CheckSkew client server = Inr () \<longleftrightarrow>
    \<bar>client - server\<bar> \<le> MaxClockSkewSeconds \<or> client = server - 2 ^ 63"
proof (cases "client - server < - (2 ^ 63)")
  case True
  then have "wrap64 (client - server) = client - server + 2 ^ 64"
    using assms by (intro wrap64_below) (auto simp: is_i64_def)
  with True assms show ?thesis
    by (auto simp: CheckSkew_Inr MaxClockSkewSeconds_def is_i64_def)
next
  case False
  then have "is_i64 (client - server)"
    using assms by (auto simp: is_i64_def)
  then show ?thesis
    by (auto simp: CheckSkew_Inr MaxClockSkewSeconds_def)
qed

theorem CheckSkew_exact_witness:
  "CheckSkew (1700000000 - 2 ^ 63) 1700000000 = Inr () \<and> CheckSkew 1700000121 1700000000 \<noteq> Inr ()"
  using CheckSkew_exact [of "1700000000 - 2 ^ 63" 1700000000] CheckSkew_exact [of 1700000121 1700000000]
  by (simp add: is_i64_def MaxClockSkewSeconds_def)

end
