(* ===== verification/Xoroshiro.thy ===== *)
theory Xoroshiro
  imports Encoding
begin

text \<open>
  The non-secret ticket generator, \<^verbatim>\<open>internal/crypto/xoroshiro.go\<close>. The mutex only serialises the
  calls; a call is a state transformer. SHA-256 enters \<open>NewXoroshiroFromMaster\<close> as a parameter
  and the process nonce is taken from the entropy the operating system hands out.
\<close>

section \<open>Definitions\<close>

record Xoroshiro128pp =
  s0 :: u64
  s1 :: u64

definition rotl :: "u64 \<Rightarrow> nat \<Rightarrow> u64" where
  "rotl x k = (push_bit k x) OR (drop_bit (64 - k) x)"

definition NewXoroshiroFromMaster ::
    "(bytes \<Rightarrow> bytes) \<Rightarrow> bytes \<Rightarrow> bytes \<Rightarrow> Xoroshiro128pp option" where
  "NewXoroshiroFromMaster sha256 entropy kaMaster =
     (if length entropy < 16 then None
      else let processNonce = take 16 entropy;
               h = sha256 (Concat [kaMaster, bytes_of ''coe-xoroshiro-seed'', processNonce]);
               a = LE_Uint64 (take 8 h);
               b = LE_Uint64 (take 8 (drop 8 h));
               b = (if a = 0 \<and> b = 0 then 1 else b)
           in Some \<lparr>s0 = a, s1 = b\<rparr>)"

definition NextU64 :: "Xoroshiro128pp \<Rightarrow> u64 \<times> Xoroshiro128pp" where
  "NextU64 x =
     (let a = s0 x; b = s1 x;
          result = rotl (a + b) 17 + a;
          b = b XOR a
      in (result, \<lparr>s0 = rotl a 49 XOR b XOR push_bit 21 b, s1 = rotl b 28\<rparr>))"

definition RequestID :: "Xoroshiro128pp \<Rightarrow> bytes \<times> Xoroshiro128pp" where
  "RequestID x =
     (let (u, x1) = NextU64 x; (v, x2) = NextU64 x1
      in (PutUint64 u @ PutUint64 v, x2))"

definition PublicTag :: "Xoroshiro128pp \<Rightarrow> bytes \<times> Xoroshiro128pp" where
  "PublicTag x = (let (u, x1) = NextU64 x in (PutUint64 u, x1))"

text \<open>The all-zero state is the one fixed point a xoroshiro generator must never enter.\<close>

definition xo_live :: "Xoroshiro128pp \<Rightarrow> bool" where
  "xo_live x \<longleftrightarrow> s0 x \<noteq> 0 \<or> s1 x \<noteq> 0"

text \<open>The state before a step, computed from the state after it.\<close>

definition xo_undo :: "Xoroshiro128pp \<Rightarrow> Xoroshiro128pp" where
  "xo_undo y =
     (let b = word_rotr 28 (s1 y);
          a = word_rotr 49 (s0 y XOR b XOR push_bit 21 b)
      in \<lparr>s0 = a, s1 = b XOR a\<rparr>)"

section \<open>Lemmas\<close>

lemma rotl_word_rotl:
  assumes "k < 64"
  shows "rotl x k = word_rotl k x"
proof (rule bit_word_eqI)
  fix n
  assume "n < LENGTH(64)"
  then have n: "n < 64" by simp
  show "bit (rotl x k) n = bit (word_rotl k x) n"
  proof (cases "k \<le> n")
    case True
    then have "(n + 64 - k) mod 64 = n - k"
      using n by (simp add: mod_if)
    moreover have "\<not> bit x (64 - k + n)"
      using True bit_imp_le_length [of x "64 - k + n"] assms by auto
    ultimately show ?thesis
      using True n by (simp add: rotl_def bit_or_iff bit_push_bit_iff bit_drop_bit_eq bit_word_rotl_iff)
  next
    case False
    then have "(n + 64 - k) mod 64 = 64 - k + n"
      using assms by simp
    then show ?thesis
      using False n assms by (simp add: rotl_def bit_or_iff bit_push_bit_iff bit_drop_bit_eq bit_word_rotl_iff)
  qed
qed

lemma xo_undo_NextU64: "xo_undo (snd (NextU64 x)) = x"
  by (cases x) (simp add: xo_undo_def NextU64_def Let_def rotl_word_rotl ac_simps)

lemma NextU64_xo_undo: "snd (NextU64 (xo_undo y)) = y"
  by (cases y) (simp add: xo_undo_def NextU64_def Let_def rotl_word_rotl ac_simps)

lemma xo_undo_zero: "\<not> xo_live x \<Longrightarrow> \<not> xo_live (xo_undo x)"
  by (simp add: xo_live_def xo_undo_def Let_def)

lemma NextU64_live: "xo_live x \<Longrightarrow> xo_live (snd (NextU64 x))"
  using xo_undo_zero [of "snd (NextU64 x)"] by (auto simp: xo_undo_NextU64)

lemma length_RequestID [simp]: "length (fst (RequestID x)) = 16"
  by (simp add: RequestID_def split_beta)

lemma length_PublicTag [simp]: "length (fst (PublicTag x)) = 8"
  by (simp add: PublicTag_def split_beta)

lemma RequestID_live: "xo_live x \<Longrightarrow> xo_live (snd (RequestID x))"
  by (simp add: RequestID_def split_beta NextU64_live)

lemma PublicTag_live: "xo_live x \<Longrightarrow> xo_live (snd (PublicTag x))"
  by (simp add: PublicTag_def split_beta NextU64_live)

lemma NewXoroshiro_live:
  "NewXoroshiroFromMaster sha entropy m = Some x \<Longrightarrow> xo_live x"
  by (auto simp: NewXoroshiroFromMaster_def xo_live_def Let_def split: if_splits)

section \<open>Properties\<close>

text \<open>
  The ticket generator never degenerates: it steps through its states by a bijection, and a
  generator seeded from the master key never reaches the all-zero fixed point, however many
  numbers are drawn.
\<close>

theorem generator_never_stuck:
  "bij (\<lambda>x. snd (NextU64 x)) \<and>
   (NewXoroshiroFromMaster sha256 entropy kaMaster = Some x \<longrightarrow> xo_live (((\<lambda>x. snd (NextU64 x)) ^^ n) x))"
proof
  show "bij (\<lambda>x. snd (NextU64 x))"
    by (rule o_bij [of xo_undo]) (auto simp: xo_undo_NextU64 NextU64_xo_undo)
  have "xo_live x \<Longrightarrow> xo_live (((\<lambda>x. snd (NextU64 x)) ^^ n) x)"
    by (induction n) (simp_all add: NextU64_live)
  then show "NewXoroshiroFromMaster sha256 entropy kaMaster = Some x \<longrightarrow> xo_live (((\<lambda>x. snd (NextU64 x)) ^^ n) x)"
    by (simp add: NewXoroshiro_live)
qed

theorem generator_never_stuck_witness:
  "xo_live (((\<lambda>x. snd (NextU64 x)) ^^ 1000) \<lparr>s0 = 0, s1 = 1\<rparr>)"
proof -
  have "NewXoroshiroFromMaster (\<lambda>_. replicate 32 0) (replicate 16 7) [] = Some \<lparr>s0 = 0, s1 = 1\<rparr>" by code_simp
  then show ?thesis using generator_never_stuck by blast
qed

end
