(* ===== verification/Server.thy ===== *)
theory Server
  imports Stores RateLimit Clock Auth Crypto Xoroshiro
begin

text \<open>
  The HTTP interface of the key authority, \<^verbatim>\<open>internal/kaapi/server.go\<close> with \<^verbatim>\<open>audit.go\<close>. A handler takes
  the store implementation, the clock, the request and its decoded body (\<open>None\<close> when the JSON
  decoder fails) and returns the answer and the new server state. The answers are the structs
  that \<open>writeJSON\<close> would encode.
\<close>

section \<open>Audit log\<close>

record AuditEvent =
  Timestamp_a :: "time option"
  RequestID_a :: string
  DeviceID_a :: string
  EpochID_a :: u64
  KeySerial_a :: u64
  Endpoint_a :: string
  SrcIP_a :: string
  ResultCode_a :: nat
  Profile_a :: string
  Error_a :: string

definition no_event :: AuditEvent where
  "no_event = \<lparr>Timestamp_a = None, RequestID_a = '''', DeviceID_a = '''', EpochID_a = 0, KeySerial_a = 0,
     Endpoint_a = '''', SrcIP_a = '''', ResultCode_a = 0, Profile_a = '''', Error_a = ''''\<rparr>"

text \<open>The lines written so far, oldest first.\<close>

type_synonym Auditor = "AuditEvent list"

definition Log :: "time \<Rightarrow> AuditEvent \<Rightarrow> Auditor \<Rightarrow> Auditor" where
  "Log now ev a = a @ [if Timestamp_a ev = None then ev\<lparr>Timestamp_a := Some now\<rparr> else ev]"

section \<open>Server\<close>

record 's Server =
  Master :: bytes
  Registry_f :: 's
  XO :: Xoroshiro128pp
  Audit :: Auditor
  AdminTok :: string
  RequireSignature :: bool
  RequireAdminToken :: bool
  TLSActive :: bool

record device_row =
  DeviceID_w :: string
  OrgID_w :: string
  Label_w :: string
  EnrollmentCounter_w :: u32
  Profile_w :: string
  Revoked_w :: bool
  LastSerial_w :: u64
  IssuedEpoch_w :: u64

datatype body =
    ErrorBody string
  | HealthBody HealthResponse
  | EnrollBody EnrollResponse
  | IssueBody IssueResponse
  | StatusBody StatusResponse
  | RevokedBody string
  | VoucherBody CreateVoucherResponse
  | VouchersBody "VoucherInfo list"
  | VoucherRevokedBody string
  | DevicesBody "device_row list"

type_synonym response = "nat \<times> body"

definition writeErr :: "nat \<Rightarrow> string \<Rightarrow> response" where
  "writeErr code errCode = (code, ErrorBody errCode)"

definition adminOK :: "'s Server \<Rightarrow> Request \<Rightarrow> bool" where
  "adminOK st r =
     (if AdminTok st = '''' then \<not> RequireAdminToken st
      else r_Authorization r = ''Bearer '' @ AdminTok st)"

definition audit :: "time \<Rightarrow> AuditEvent \<Rightarrow> 's Server \<Rightarrow> 's Server" where
  "audit now ev st = st\<lparr>Audit := Log now ev (Audit st)\<rparr>"

definition error_text :: "ka_error \<Rightarrow> string" where
  "error_text e = (case e of
     DeviceIDRequired \<Rightarrow> ''device_id required'' | IdentityPKLength \<Rightarrow> ''identity_pk must be 32 bytes''
   | SignPKLength \<Rightarrow> ''sign_pk must be 32 bytes'' | NotEnrolled \<Rightarrow> ''not_enrolled'' | IsRevoked \<Rightarrow> ''revoked''
   | IDRequired \<Rightarrow> ''id required'' | NotFound \<Rightarrow> ''not_found'' | Persist \<Rightarrow> ''write error'')"

definition voucher_error_text :: "voucher_error \<Rightarrow> string" where
  "voucher_error_text e = (case e of
     InvalidVoucher \<Rightarrow> ''invalid_voucher'' | VoucherRevoked \<Rightarrow> ''voucher_revoked''
   | VoucherExpired \<Rightarrow> ''voucher_expired'' | VoucherExhausted \<Rightarrow> ''voucher_exhausted''
   | Internal \<Rightarrow> ''internal'')"

definition handleHealth :: "time \<Rightarrow> Request \<Rightarrow> 's Server \<Rightarrow> response \<times> 's Server" where
  "handleHealth now r st =
     ((200, HealthBody \<lparr>Status_h = ''ok'', Time_h = Unix now, EpochID_h = EpochID now,
        TLS_h = (TLSActive st \<or> r_TLS r)\<rparr>), st)"

text \<open>The defaults a voucher may set.\<close>

definition voucher_defaults :: "Voucher \<Rightarrow> EnrollRequest \<Rightarrow> EnrollRequest" where
  "voucher_defaults v req = req\<lparr>
     OrgID_e := (if OrgID_e req = '''' \<and> OrgID_v v \<noteq> '''' then OrgID_v v else OrgID_e req),
     Profile_e := (if Profile_e req = '''' \<and> Profile_v v \<noteq> '''' then Profile_v v else Profile_e req),
     Label_e := (if Label_e req = '''' \<and> Label_v v \<noteq> '''' then Label_v v else Label_e req)\<rparr>"

text \<open>The part of \<open>handleEnroll\<close> after the caller was found entitled.\<close>

definition finish_enroll ::
    "'s Store \<Rightarrow> time \<Rightarrow> Request \<Rightarrow> EnrollRequest \<Rightarrow> Voucher option \<Rightarrow> 's Server \<Rightarrow> response \<times> 's Server" where
  "finish_enroll S now r req voucher st =
     (case st_Enroll S req (Registry_f st) of
        (Inl e, g) \<Rightarrow>
          (writeErr 400 ''bad_request'',
           audit now (no_event\<lparr>Endpoint_a := ''/v1/enroll'', DeviceID_a := DeviceID_e req, ResultCode_a := 400,
              Error_a := error_text e, SrcIP_a := r_RemoteAddr r\<rparr>) (st\<lparr>Registry_f := g\<rparr>))
      | (Inr rec, g) \<Rightarrow>
          (let via = (case voucher of None \<Rightarrow> ''admin'' | Some v \<Rightarrow> ''voucher:'' @ ID_v v) in
           ((201, EnrollBody \<lparr>DeviceID_er = DeviceID rec, EnrollmentCounter_er = EnrollmentCounter rec,
               Profile_er = Profile rec\<rparr>),
            audit now (no_event\<lparr>Endpoint_a := ''/v1/enroll'', DeviceID_a := DeviceID rec, ResultCode_a := 201,
               Profile_a := Profile rec, SrcIP_a := r_RemoteAddr r, Error_a := via\<rparr>) (st\<lparr>Registry_f := g\<rparr>))))"

definition handleEnroll ::
    "'s Store \<Rightarrow> time \<Rightarrow> Request \<Rightarrow> EnrollRequest option \<Rightarrow> 's Server \<Rightarrow> response \<times> 's Server" where
  "handleEnroll S now r body st =
     (case body of
        None \<Rightarrow> (writeErr 400 ''bad_request'', st)
      | Some req \<Rightarrow>
        if adminOK st r then finish_enroll S now r req None st
        else if VoucherCode_e req = '''' then
          (writeErr 401 ''unauthorized'',
           audit now (no_event\<lparr>Endpoint_a := ''/v1/enroll'', ResultCode_a := 401, SrcIP_a := r_RemoteAddr r,
              Error_a := ''unauthorized''\<rparr>) st)
        else
          (case st_RedeemVoucher S now (VoucherCode_e req) (Registry_f st) of
             (Inl e, g) \<Rightarrow>
               (writeErr 403 (voucher_error_text e),
                audit now (no_event\<lparr>Endpoint_a := ''/v1/enroll'', DeviceID_a := DeviceID_e req, ResultCode_a := 403,
                   Error_a := voucher_error_text e, SrcIP_a := r_RemoteAddr r\<rparr>) (st\<lparr>Registry_f := g\<rparr>))
           | (Inr v, g) \<Rightarrow> finish_enroll S now r (voucher_defaults v req) (Some v) (st\<lparr>Registry_f := g\<rparr>)))"

text \<open>
  \<open>crypto/rand\<close> is the list of bytes to come: \<open>GenerateVoucherCode\<close> fails when it runs out, the
  voucher id is then left at zero bytes.
\<close>

definition GenerateVoucherCode :: "bytes \<Rightarrow> string option \<times> bytes" where
  "GenerateVoucherCode rnd =
     (if length rnd < 16 then (None, rnd) else (Some (hex_EncodeToString (take 16 rnd)), drop 16 rnd))"

text \<open>The voucher built from a request, with its id and its code.\<close>

definition new_voucher :: "(bytes \<Rightarrow> bytes) \<Rightarrow> time \<Rightarrow> string \<Rightarrow> string \<Rightarrow> CreateVoucherRequest \<Rightarrow> Voucher" where
  "new_voucher sha256 now vid code req =
     (let ttl = (if TTLHours_cv req = 0 then 168 else TTLHours_cv req)
      in \<lparr>ID_v = vid, CodeHash_v = HashVoucherCode sha256 code, Label_v = Label_cv req,
          OrgID_v = OrgID_cv req,
          Profile_v = (if Profile_cv req = '''' then ''strong'' else Profile_cv req),
          MaxUses_v = (if MaxUses_cv req \<le> 0 then 1 else MaxUses_cv req), Uses_v = 0,
          ExpiresAt_v = (if ttl > 0 then Unix (now + wrap64 (ttl * Hour)) else 0),
          CreatedAt_v = Unix now, Revoked_v = False\<rparr>)"

definition handleCreateVoucher ::
    "'s Store \<Rightarrow> (bytes \<Rightarrow> bytes) \<Rightarrow> time \<Rightarrow> bytes \<Rightarrow> Request \<Rightarrow> CreateVoucherRequest option \<Rightarrow> 's Server
     \<Rightarrow> response \<times> 's Server" where
  "handleCreateVoucher S sha256 now rnd r body st =
     (if \<not> adminOK st r then (writeErr 401 ''unauthorized'', st)
      else case body of
        None \<Rightarrow> (writeErr 400 ''bad_request'', st)
      | Some req \<Rightarrow>
        (case (if Code_cv req = '''' then GenerateVoucherCode rnd else (Some (Code_cv req), rnd)) of
           (None, _) \<Rightarrow> (writeErr 500 ''internal'', st)
         | (Some code, rnd') \<Rightarrow>
           (let idBytes = (if length rnd' < 8 then replicate 8 0 else take 8 rnd');
                v = new_voucher sha256 now (hex_EncodeToString idBytes) code req
            in case st_AddVoucher S v (Registry_f st) of
                 (Inl e, g) \<Rightarrow> (writeErr 500 ''internal'', st\<lparr>Registry_f := g\<rparr>)
               | (Inr _, g) \<Rightarrow>
                 ((201, VoucherBody \<lparr>ID_cr = ID_v v, Code_cr = code, MaxUses_cr = MaxUses_v v,
                     ExpiresAt_cr = ExpiresAt_v v, Label_cr = Label_cv req, Profile_cr = Profile_v v,
                     OrgID_cr = OrgID_cv req\<rparr>),
                  audit now (no_event\<lparr>Endpoint_a := ''/v1/vouchers'', ResultCode_a := 201,
                     SrcIP_a := r_RemoteAddr r, Error_a := ''created:'' @ ID_v v\<rparr>) (st\<lparr>Registry_f := g\<rparr>)))))"

definition handleListVouchers :: "'s Store \<Rightarrow> Request \<Rightarrow> 's Server \<Rightarrow> response \<times> 's Server" where
  "handleListVouchers S r st =
     (if \<not> adminOK st r then (writeErr 401 ''unauthorized'', st)
      else ((200, VouchersBody (st_ListVouchers S (Registry_f st))), st))"

definition handleRevokeVoucher ::
    "'s Store \<Rightarrow> Request \<Rightarrow> string option \<Rightarrow> 's Server \<Rightarrow> response \<times> 's Server" where
  "handleRevokeVoucher S r body st =
     (if \<not> adminOK st r then (writeErr 401 ''unauthorized'', st)
      else if body = None \<or> body = Some '''' then (writeErr 400 ''bad_request'', st)
      else case st_RevokeVoucher S (the body) (Registry_f st) of
        (Inl e, g) \<Rightarrow> (writeErr 404 ''not_found'', st\<lparr>Registry_f := g\<rparr>)
      | (Inr _, g) \<Rightarrow> ((200, VoucherRevokedBody (the body)), st\<lparr>Registry_f := g\<rparr>))"

text \<open>The result carries the device name, its record and the profile stored back into the request.\<close>

definition authenticateIssue ::
    "'s Store \<Rightarrow> ed25519_lib \<Rightarrow> Request \<Rightarrow> IssueRequest \<Rightarrow> 's Server
     \<Rightarrow> string + string \<times> DeviceRecord \<times> string" where
  "authenticateIssue S E r req st =
     (let deviceID = TrimSpace (DeviceID_q req); h = TrimSpace (r_XDeviceID r) in
      if deviceID = '''' then Inl ''unauthorized''
      else if h \<noteq> '''' \<and> h \<noteq> deviceID then Inl ''unauthorized''
      else case st_Get S deviceID (Registry_f st) of
        None \<Rightarrow> Inl ''not_enrolled''
      | Some rec \<Rightarrow>
        if Revoked rec then Inl ''revoked''
        else
          let profile = (if Profile_q req = '''' then Profile rec else Profile_q req);
              profile = (if profile = '''' then ''strong'' else profile);
              require = (if length (SignPK rec) = 32 then True else RequireSignature st)
          in if require \<and> length (Signature_q req) = 0 then Inl ''unauthorized''
             else if require \<and> length (SignPK rec) \<noteq> 32 then Inl ''unauthorized''
             else if require \<and> \<not> VerifyIssue E (SignPK rec) deviceID (Nonce_q req) (ClientTime_q req)
                       (bytes_of profile) (Signature_q req) then Inl ''unauthorized''
             else Inr (deviceID, rec, profile))"

definition epoch_hint_ok :: "u64 \<Rightarrow> u64 \<Rightarrow> bool" where
  "epoch_hint_ok hint epochID =
     (if hint \<noteq> 0 then
        let diff = wrap64 (i64_of_u64 hint - i64_of_u64 epochID);
            diff = (if diff < 0 then wrap64 (- diff) else diff)
        in \<not> diff > 1
      else True)"

definition issue_key ::
    "crypto_lib \<Rightarrow> bytes \<Rightarrow> string \<Rightarrow> u64 \<Rightarrow> DeviceRecord \<Rightarrow> crypto_error + bytes" where
  "issue_key L master profile epochID rec =
     (if profile = ''simple'' then
        DeriveOrgDayKey L master epochID (if OrgID rec = '''' then ''default'' else OrgID rec)
      else DeriveGeneralKey L master epochID (DeviceID rec) (EnrollmentCounter rec))"

definition handleIssue ::
    "'s Store \<Rightarrow> crypto_lib \<Rightarrow> ed25519_lib \<Rightarrow> time \<Rightarrow> Request \<Rightarrow> IssueRequest option \<Rightarrow> 's Server
     \<Rightarrow> response \<times> 's Server" where
  "handleIssue S L E now r body st =
     (case body of
        None \<Rightarrow> (writeErr 400 ''bad_request'', st)
      | Some req \<Rightarrow>
        (case authenticateIssue S E r req st of
           Inl errCode \<Rightarrow>
             (let code = (if errCode = ''not_enrolled'' \<or> errCode = ''revoked'' then 403 else 401) in
              (writeErr code errCode,
               audit now (no_event\<lparr>Endpoint_a := ''/v1/key/issue'', DeviceID_a := DeviceID_q req,
                  ResultCode_a := code, Error_a := errCode, SrcIP_a := r_RemoteAddr r\<rparr>) st))
         | Inr (deviceID, rec, profile) \<Rightarrow>
           (let kaTime = Unix now; epochID = EpochID now in
            if CheckSkew (ClientTime_q req) kaTime \<noteq> Inr () then
              (writeErr 400 ''clock_skew'',
               audit now (no_event\<lparr>Endpoint_a := ''/v1/key/issue'', DeviceID_a := deviceID, ResultCode_a := 400,
                  Error_a := ''clock_skew'', SrcIP_a := r_RemoteAddr r\<rparr>) st)
            else if \<not> epoch_hint_ok (EpochHint_q req) epochID then (writeErr 400 ''epoch_mismatch'', st)
            else case issue_key L (Master st) profile epochID rec of
              Inl e \<Rightarrow> (writeErr 500 ''internal'', st)
            | Inr generalKey \<Rightarrow>
              (case st_MarkIssued S deviceID epochID (Registry_f st) of
                 (Inl e, g) \<Rightarrow> (writeErr 403 (error_text e), st\<lparr>Registry_f := g\<rparr>)
               | (Inr serial, g) \<Rightarrow>
                 (let (nb, na) = EpochBounds epochID;
                      (reqID, x1) = RequestID (XO st);
                      (tag, x2) = PublicTag x1
                  in ((200, IssueBody \<lparr>DeviceID_s = deviceID, EpochID_s = epochID, NotBefore_s = nb,
                          NotAfter_s = na, GraceSeconds_s = u64_of_i64 DefaultGraceSeconds,
                          KeySerial_s = serial, RequestID_s = reqID, PublicTag_s = tag,
                          GeneralKey_s = generalKey, Profile_s = profile, KATime_s = kaTime\<rparr>),
                      audit now (no_event\<lparr>Endpoint_a := ''/v1/key/issue'', DeviceID_a := deviceID,
                          EpochID_a := epochID, KeySerial_a := serial,
                          RequestID_a := hex_EncodeToString reqID, ResultCode_a := 200,
                          Profile_a := profile, SrcIP_a := r_RemoteAddr r\<rparr>)
                        (st\<lparr>Registry_f := g, XO := x2\<rparr>)))))))"

definition handleStatus :: "'s Store \<Rightarrow> time \<Rightarrow> Request \<Rightarrow> 's Server \<Rightarrow> response \<times> 's Server" where
  "handleStatus S now r st =
     (let q = r_QueryDeviceID r;
          deviceID = (if q \<noteq> '''' \<and> adminOK st r then q else TrimSpace (r_XDeviceID r))
      in if deviceID = '''' then (writeErr 401 ''unauthorized'', st)
         else case st_Get S deviceID (Registry_f st) of
           None \<Rightarrow> (writeErr 403 ''not_enrolled'', st)
         | Some rec \<Rightarrow>
           (let epoch = EpochID now; this = (IssuedEpoch rec = epoch) in
            ((200, StatusBody \<lparr>DeviceID_st = deviceID, Revoked_st = Revoked rec, CurrentEpochID_st = epoch,
                IssuedThisEpoch_st = this, KeySerial_st = (if this then LastSerial rec else 0),
                NotAfter_st = (if this then snd (EpochBounds epoch) else 0)\<rparr>), st)))"

definition handleRevoke ::
    "'s Store \<Rightarrow> time \<Rightarrow> Request \<Rightarrow> RevokeRequest option \<Rightarrow> 's Server \<Rightarrow> response \<times> 's Server" where
  "handleRevoke S now r body st =
     (if \<not> adminOK st r then (writeErr 401 ''unauthorized'', st)
      else case body of
        None \<Rightarrow> (writeErr 400 ''bad_request'', st)
      | Some req \<Rightarrow>
        (case st_Revoke S (DeviceID_rr req) (Registry_f st) of
           (Inl e, g) \<Rightarrow> (writeErr 403 ''not_enrolled'', st\<lparr>Registry_f := g\<rparr>)
         | (Inr _, g) \<Rightarrow>
           ((200, RevokedBody (DeviceID_rr req)),
            audit now (no_event\<lparr>Endpoint_a := ''/v1/revoke'', DeviceID_a := DeviceID_rr req, ResultCode_a := 200,
               SrcIP_a := r_RemoteAddr r\<rparr>) (st\<lparr>Registry_f := g\<rparr>))))"

definition row_of :: "DeviceRecord \<Rightarrow> device_row" where
  "row_of d = \<lparr>DeviceID_w = DeviceID d, OrgID_w = OrgID d, Label_w = Label d,
     EnrollmentCounter_w = EnrollmentCounter d, Profile_w = Profile d, Revoked_w = Revoked d,
     LastSerial_w = LastSerial d, IssuedEpoch_w = IssuedEpoch d\<rparr>"

definition handleListDevices :: "'s Store \<Rightarrow> Request \<Rightarrow> 's Server \<Rightarrow> response \<times> 's Server" where
  "handleListDevices S r st =
     (if \<not> adminOK st r then (writeErr 401 ''unauthorized'', st)
      else ((200, DevicesBody (map row_of (st_ListDevices S (Registry_f st)))), st))"

section \<open>Routing\<close>

text \<open>
  The routes of \<open>Handler\<close>, each with its decoded body; creating a voucher also takes the random
  bytes it will draw.
\<close>

datatype call =
    CHealth
  | CEnroll "EnrollRequest option"
  | CIssue "IssueRequest option"
  | CStatus
  | CRevoke "RevokeRequest option"
  | CCreateVoucher bytes "CreateVoucherRequest option"
  | CListVouchers
  | CRevokeVoucher "string option"
  | CListDevices

definition serve ::
    "'s Store \<Rightarrow> crypto_lib \<Rightarrow> ed25519_lib \<Rightarrow> (bytes \<Rightarrow> bytes) \<Rightarrow> time \<Rightarrow> Request \<Rightarrow> call \<Rightarrow> 's Server
     \<Rightarrow> response \<times> 's Server" where
  "serve S L E sha256 now r c st = (case c of
     CHealth \<Rightarrow> handleHealth now r st
   | CEnroll b \<Rightarrow> handleEnroll S now r b st
   | CIssue b \<Rightarrow> handleIssue S L E now r b st
   | CStatus \<Rightarrow> handleStatus S now r st
   | CRevoke b \<Rightarrow> handleRevoke S now r b st
   | CCreateVoucher rnd b \<Rightarrow> handleCreateVoucher S sha256 now rnd r b st
   | CListVouchers \<Rightarrow> handleListVouchers S r st
   | CRevokeVoucher b \<Rightarrow> handleRevokeVoucher S r b st
   | CListDevices \<Rightarrow> handleListDevices S r st)"

fun serve_all ::
    "'s Store \<Rightarrow> crypto_lib \<Rightarrow> ed25519_lib \<Rightarrow> (bytes \<Rightarrow> bytes) \<Rightarrow> (time \<times> Request \<times> call) list \<Rightarrow> 's Server
     \<Rightarrow> response list \<times> 's Server" where
  "serve_all S L E sha256 [] st = ([], st)"
| "serve_all S L E sha256 ((now, r, c) # xs) st =
     (let (resp, st1) = serve S L E sha256 now r c st; (resps, st2) = serve_all S L E sha256 xs st1
      in (resp # resps, st2))"

section \<open>Lemmas\<close>

lemma audit_sel [simp]:
  "Registry_f (audit now ev st) = Registry_f st" "Master (audit now ev st) = Master st"
  "RequireSignature (audit now ev st) = RequireSignature st"
  by (simp_all add: audit_def)

lemma voucher_defaults_DeviceID [simp]: "DeviceID_e (voucher_defaults v req) = DeviceID_e req"
  by (simp add: voucher_defaults_def)

lemma authenticateIssue_InrD:
  assumes "authenticateIssue S E r req st = Inr (d, rec, p)"
  shows "st_Get S d (Registry_f st) = Some rec" and "\<not> Revoked rec" and "d = TrimSpace (DeviceID_q req)"
    and "RequireSignature st \<or> length (SignPK rec) = 32 \<longrightarrow>
      VerifyIssue E (SignPK rec) d (Nonce_q req) (ClientTime_q req) (bytes_of p) (Signature_q req)"
    and "p = (let q = (if Profile_q req = '''' then Profile rec else Profile_q req) in if q = '''' then ''strong'' else q)"
  using assms by (auto simp: authenticateIssue_def Let_def split: option.splits if_splits)

text \<open>What a key answer says about the request, the clock and the store.\<close>

lemma handleIssue_IssueD:
  assumes "handleIssue S L E now r (Some req) st = ((code, IssueBody a), st')"
  obtains rec where "authenticateIssue S E r req st = Inr (DeviceID_s a, rec, Profile_s a)"
    "CheckSkew (ClientTime_q req) (Unix now) = Inr ()" "EpochID_s a = EpochID now"
    "epoch_hint_ok (EpochHint_q req) (EpochID now)"
    "issue_key L (Master st) (Profile_s a) (EpochID now) rec = Inr (GeneralKey_s a)"
    "fst (st_MarkIssued S (DeviceID_s a) (EpochID now) (Registry_f st)) = Inr (KeySerial_s a)"
    "Registry_f st' = snd (st_MarkIssued S (DeviceID_s a) (EpochID now) (Registry_f st))" "Master st' = Master st" "RequireSignature st' = RequireSignature st" "code = 200"
    "(NotBefore_s a, NotAfter_s a) = EpochBounds (EpochID now)" "KATime_s a = Unix now"
proof -
  obtain d rec p where auth: "authenticateIssue S E r req st = Inr (d, rec, p)"
    using assms by (auto simp: handleIssue_def writeErr_def Let_def split: sum.splits)
  show ?thesis
    using assms auth that [of rec]
    by (auto simp: handleIssue_def writeErr_def Let_def split_beta split: sum.splits if_splits prod.splits)
qed

text \<open>When every check passes, the answer is the key.\<close>

lemma handleIssue_ok:
  assumes "authenticateIssue S E r req st = Inr (d, rec, p)" "CheckSkew (ClientTime_q req) (Unix now) = Inr ()"
    "epoch_hint_ok (EpochHint_q req) (EpochID now)" "issue_key L (Master st) p (EpochID now) rec = Inr k"
    "st_MarkIssued S d (EpochID now) (Registry_f st) = (Inr n, g)"
  shows "\<exists>a st'. handleIssue S L E now r (Some req) st = ((200, IssueBody a), st') \<and> DeviceID_s a = d \<and>
    EpochID_s a = EpochID now \<and> KeySerial_s a = n \<and> GeneralKey_s a = k \<and> Profile_s a = p \<and> KATime_s a = Unix now \<and>
    (NotBefore_s a, NotAfter_s a) = EpochBounds (EpochID now) \<and> GraceSeconds_s a = u64_of_i64 DefaultGraceSeconds \<and>
    Registry_f st' = g \<and> Master st' = Master st"
  using assms by (simp add: handleIssue_def Let_def split_beta)

lemma handleIssue_frame:
  assumes "handleIssue S L E now r body st = (resp, st')"
  shows "Registry_f st' = Registry_f st \<or>
    (\<exists>d. Registry_f st' = snd (st_MarkIssued S d (EpochID now) (Registry_f st)))"
  using assms
  by (auto simp: handleIssue_def Let_def split_beta split: option.splits sum.splits if_splits prod.splits)


lemma finish_enroll_frame:
  "Registry_f (snd (finish_enroll S now r req v st)) = snd (st_Enroll S req (Registry_f st))"
  by (simp add: finish_enroll_def Let_def split_beta split: sum.splits)

lemma finish_enroll_body: "snd (fst (finish_enroll S now r req v st)) \<noteq> IssueBody a"
  by (simp add: finish_enroll_def writeErr_def Let_def split_beta split: sum.splits)

section \<open>Every implementation of the store\<close>

context ka_store
begin

lemma enroll_step:
  "invar s \<Longrightarrow> invar (snd (st_Enroll S req s)) \<and>
     ka_step hash (abs s) (Enroll req (fst (st_Enroll S req s))) (abs (snd (st_Enroll S req s)))"
  using enroll [of s req "fst (st_Enroll S req s)" "snd (st_Enroll S req s)"] by (simp add: ka_step_simps)

lemma redeem_step:
  "invar s \<Longrightarrow> invar (snd (st_RedeemVoucher S now code s)) \<and>
     ka_step hash (abs s) (RedeemVoucher now code (fst (st_RedeemVoucher S now code s)))
       (abs (snd (st_RedeemVoucher S now code s)))"
  using redeem [of s now code "fst (st_RedeemVoucher S now code s)" "snd (st_RedeemVoucher S now code s)"]
  by (simp add: ka_step_simps)

lemma mark_step:
  "invar s \<Longrightarrow> invar (snd (st_MarkIssued S d e s)) \<and>
     ka_step hash (abs s) (MarkIssued d e (fst (st_MarkIssued S d e s))) (abs (snd (st_MarkIssued S d e s)))"
  using mark [of s d e "fst (st_MarkIssued S d e s)" "snd (st_MarkIssued S d e s)"] by (simp add: ka_step_simps)

lemma revoke_step:
  "invar s \<Longrightarrow> invar (snd (st_Revoke S d s)) \<and>
     ka_step hash (abs s) (Revoke d (fst (st_Revoke S d s))) (abs (snd (st_Revoke S d s)))"
  using revoke [of s d "fst (st_Revoke S d s)" "snd (st_Revoke S d s)"] by (simp add: ka_step_simps)

lemma add_step:
  "invar s \<Longrightarrow> invar (snd (st_AddVoucher S v s)) \<and>
     ka_step hash (abs s) (AddVoucher v (fst (st_AddVoucher S v s))) (abs (snd (st_AddVoucher S v s)))"
  using add [of s v "fst (st_AddVoucher S v s)" "snd (st_AddVoucher S v s)"] by (simp add: ka_step_simps)

lemma revoke_voucher_step:
  "invar s \<Longrightarrow> invar (snd (st_RevokeVoucher S i s)) \<and>
     ka_step hash (abs s) (RevokeVoucher i (fst (st_RevokeVoucher S i s))) (abs (snd (st_RevokeVoucher S i s)))"
  using revoke_voucher [of s i "fst (st_RevokeVoucher S i s)" "snd (st_RevokeVoucher S i s)"]
  by (simp add: ka_step_simps)

text \<open>A run that enrolls no device but possibly the one of an enrollment request.\<close>

definition quiet :: "string option \<Rightarrow> 's \<Rightarrow> 's \<Rightarrow> bool" where
  "quiet x s s' \<longleftrightarrow> invar s' \<and> (\<exists>cs. ka_run hash (abs s) cs (abs s') \<and> (\<forall>d. Some d \<noteq> x \<longrightarrow> (\<forall>c \<in> set cs. \<not> enrolls d c)))"

lemma quiet_refl: "invar s \<Longrightarrow> quiet x s s"
  unfolding quiet_def by (auto intro!: exI [of _ "[]"] ka_run_Nil)

lemma quiet_step:
  assumes "invar s'" "ka_step hash (abs s) c (abs s')" "\<And>d. enrolls d c \<Longrightarrow> x = Some d"
  shows "quiet x s s'"
  unfolding quiet_def
proof (intro conjI exI [of _ "[c]"])
  show "invar s'" by (rule assms(1))
  show "ka_run hash (abs s) [c] (abs s')" using ka_run_Cons [OF assms(2) ka_run_Nil] .
  show "\<forall>d. Some d \<noteq> x \<longrightarrow> (\<forall>c \<in> set [c]. \<not> enrolls d c)" using assms(3) by auto
qed

end

lemma ka_run_append:
  assumes "ka_run hash k1 ds k2" and "ka_run hash k cs k1"
  shows "ka_run hash k (cs @ ds) k2"
  using assms
proof (induction rule: ka_run.induct)
  case (ka_run_snoc k1 ds k2 c k3)
  then show ?case using ka_run.ka_run_snoc [of hash k "cs @ ds" k2 c k3] by simp
qed simp

lemma handleRevoke_frame:
  "Registry_f (snd (handleRevoke S now r b st)) = Registry_f st \<or>
   (\<exists>d. Registry_f (snd (handleRevoke S now r b st)) = snd (st_Revoke S d (Registry_f st)))"
  by (cases b) (auto simp: handleRevoke_def split_beta split: sum.split)

lemma handleRevokeVoucher_frame:
  "Registry_f (snd (handleRevokeVoucher S r b st)) = Registry_f st \<or>
   (\<exists>i. Registry_f (snd (handleRevokeVoucher S r b st)) = snd (st_RevokeVoucher S i (Registry_f st)))"
  by (cases b) (auto simp: handleRevokeVoucher_def split_beta split: sum.split)

lemma handleCreateVoucher_frame:
  "Registry_f (snd (handleCreateVoucher S sha now rnd r b st)) = Registry_f st \<or>
   (\<exists>v. Registry_f (snd (handleCreateVoucher S sha now rnd r b st)) = snd (st_AddVoucher S v (Registry_f st)))"
proof (cases "b = None \<or> \<not> adminOK st r")
  case True
  then show ?thesis by (auto simp: handleCreateVoucher_def)
next
  case False
  then obtain req where b: "b = Some req" and a: "adminOK st r" by auto
  show ?thesis
  proof (cases "if Code_cv req = '''' then GenerateVoucherCode rnd else (Some (Code_cv req), rnd)")
    case (Pair x rnd')
    show ?thesis
    proof (cases x)
      case None
      with Pair b a show ?thesis by (simp add: handleCreateVoucher_def)
    next
      case (Some code)
      let ?v = "new_voucher sha now (hex_EncodeToString (if length rnd' < 8 then replicate 8 0 else take 8 rnd')) code req"
      have "Registry_f (snd (handleCreateVoucher S sha now rnd r b st)) = snd (st_AddVoucher S ?v (Registry_f st))"
        using Pair b a Some by (simp add: handleCreateVoucher_def Let_def split_beta split: sum.split)
      then show ?thesis by blast
    qed
  qed
qed

definition enroll_target :: "call \<Rightarrow> string option" where
  "enroll_target c = (case c of CEnroll (Some req) \<Rightarrow> Some (DeviceID_e req) | _ \<Rightarrow> None)"

context ka_store
begin

lemma quiet_trans:
  assumes "quiet x s t1" and "quiet x t1 t2"
  shows "quiet x s t2"
proof -
  obtain cs ds where "ka_run hash (abs s) cs (abs t1)" "ka_run hash (abs t1) ds (abs t2)" "invar t2"
    "\<forall>d. Some d \<noteq> x \<longrightarrow> (\<forall>c \<in> set cs. \<not> enrolls d c)" "\<forall>d. Some d \<noteq> x \<longrightarrow> (\<forall>c \<in> set ds. \<not> enrolls d c)"
    using assms unfolding quiet_def by blast
  then show ?thesis
    unfolding quiet_def by (auto intro!: exI [of _ "cs @ ds"] ka_run_append)
qed

lemma calls_quiet:
  assumes "invar s"
  shows "quiet x s (snd (st_MarkIssued S d e s))" "quiet x s (snd (st_Revoke S d s))"
    "quiet x s (snd (st_AddVoucher S v s))" "quiet x s (snd (st_RevokeVoucher S i s))"
    "quiet x s (snd (st_RedeemVoucher S now code s))"
proof -
  note steps = mark_step [OF assms] revoke_step [OF assms] add_step [OF assms] revoke_voucher_step [OF assms]
    redeem_step [OF assms]
  show "quiet x s (snd (st_MarkIssued S d e s))" "quiet x s (snd (st_Revoke S d s))"
    "quiet x s (snd (st_AddVoucher S v s))" "quiet x s (snd (st_RevokeVoucher S i s))"
    "quiet x s (snd (st_RedeemVoucher S now code s))"
    by (rule quiet_step [OF steps(1) [THEN conjunct1] steps(1) [THEN conjunct2]], simp add: enrolls_def)
      (rule quiet_step [OF steps(2) [THEN conjunct1] steps(2) [THEN conjunct2]], simp add: enrolls_def,
       rule quiet_step [OF steps(3) [THEN conjunct1] steps(3) [THEN conjunct2]], simp add: enrolls_def,
       rule quiet_step [OF steps(4) [THEN conjunct1] steps(4) [THEN conjunct2]], simp add: enrolls_def,
       rule quiet_step [OF steps(5) [THEN conjunct1] steps(5) [THEN conjunct2]], simp add: enrolls_def)
qed

lemma finish_enroll_quiet:
  assumes "invar (Registry_f st)"
  shows "quiet (Some (DeviceID_e req)) (Registry_f st) (Registry_f (snd (finish_enroll S now r req v st)))"
  using enroll_step [OF assms, of req] unfolding finish_enroll_frame
  by (intro quiet_step) (auto simp: enrolls_def)

lemma handleEnroll_quiet:
  assumes inv: "invar (Registry_f st)"
  shows "quiet (enroll_target (CEnroll b)) (Registry_f st) (Registry_f (snd (handleEnroll S now r b st)))"
proof (cases b)
  case None
  then show ?thesis using inv by (simp add: handleEnroll_def enroll_target_def quiet_refl)
next
  case (Some req)
  show ?thesis
  proof (cases "adminOK st r \<or> VoucherCode_e req = ''''")
    case True
    then show ?thesis
      using Some inv finish_enroll_quiet [OF inv, of req now r None]
      by (auto simp: handleEnroll_def enroll_target_def quiet_refl)
  next
    case False
    obtain res g where red: "st_RedeemVoucher S now (VoucherCode_e req) (Registry_f st) = (res, g)" by fastforce
    have q: "quiet (Some (DeviceID_e req)) (Registry_f st) g"
      using calls_quiet(5) [OF inv, of _ now "VoucherCode_e req"] red by simp
    then have "invar g" by (simp add: quiet_def)
    then have q2: "quiet (Some (DeviceID_e req)) g
        (Registry_f (snd (finish_enroll S now r (voucher_defaults v req) (Some v) (st\<lparr>Registry_f := g\<rparr>))))" for v
      using finish_enroll_quiet [of "st\<lparr>Registry_f := g\<rparr>" "voucher_defaults v req" now r "Some v"] by simp
    show ?thesis
      using False Some red q quiet_trans [OF q q2]
      by (auto simp: handleEnroll_def enroll_target_def split: sum.splits)
  qed
qed

lemma serve_quiet:
  assumes inv: "invar (Registry_f st)"
  shows "quiet (enroll_target c) (Registry_f st) (Registry_f (snd (serve S L E sha now r c st)))"
proof (cases c)
  case (CEnroll b)
  then show ?thesis using handleEnroll_quiet [OF inv, of b now r] by (simp add: serve_def)
next
  case (CIssue b)
  have "Registry_f (snd (handleIssue S L E now r b st)) = Registry_f st \<or>
      (\<exists>d. Registry_f (snd (handleIssue S L E now r b st)) = snd (st_MarkIssued S d (EpochID now) (Registry_f st)))"
    using handleIssue_frame [OF prod.collapse [symmetric]] by blast
  then show ?thesis
    using CIssue quiet_refl [OF inv] calls_quiet(1) [OF inv] by (auto simp: serve_def)
next
  case (CRevoke b)
  then show ?thesis
    using handleRevoke_frame [of S now r b st] quiet_refl [OF inv] calls_quiet(2) [OF inv] by (auto simp: serve_def)
next
  case (CCreateVoucher rnd b)
  then show ?thesis
    using handleCreateVoucher_frame [of S sha now rnd r b st] quiet_refl [OF inv] calls_quiet(3) [OF inv]
    by (auto simp: serve_def)
next
  case (CRevokeVoucher b)
  then show ?thesis
    using handleRevokeVoucher_frame [of S r b st] quiet_refl [OF inv] calls_quiet(4) [OF inv] by (auto simp: serve_def)
next
  case CStatus
  have "Registry_f (snd (handleStatus S now r st)) = Registry_f st"
    by (simp add: handleStatus_def Let_def split: option.splits)
  then show ?thesis using inv CStatus by (simp add: serve_def quiet_refl)
qed (use inv in \<open>simp_all add: serve_def handleHealth_def handleListVouchers_def handleListDevices_def quiet_refl\<close>)

lemma serve_IssueBody:
  assumes "fst (serve S L E sha now r c st) = (code, IssueBody a)"
  obtains req where "c = CIssue (Some req)"
    "handleIssue S L E now r (Some req) st = ((code, IssueBody a), snd (serve S L E sha now r c st))"
proof (cases c)
  case (CIssue b)
  show ?thesis
  proof (cases b)
    case None
    then show ?thesis using assms CIssue by (simp add: serve_def handleIssue_def writeErr_def)
  next
    case (Some req)
    with assms CIssue that [of req] show ?thesis
      by (simp add: serve_def) (metis prod.collapse)
  qed
next
  case (CEnroll b)
  then show ?thesis
    using assms finish_enroll_body [of S now r]
    by (auto simp: serve_def handleEnroll_def writeErr_def split: option.splits sum.splits prod.splits if_splits)
      (metis snd_conv)+
qed (use assms in \<open>auto simp: serve_def handleHealth_def handleListVouchers_def handleListDevices_def handleStatus_def
    handleRevoke_def handleCreateVoucher_def handleRevokeVoucher_def writeErr_def Let_def split_beta
    split: option.splits sum.splits if_splits\<close>)

end

text \<open>
  What justifies a key answer: the device is enrolled and not revoked, the request is signed when
  a signature is required or the device has a signing key, the client clock is close, the key is
  the one derived for the device and the current epoch, and the grant is on record afterwards.
\<close>

definition issue_justified ::
    "(string \<Rightarrow> 's \<Rightarrow> DeviceRecord option) \<Rightarrow> crypto_lib \<Rightarrow> ed25519_lib \<Rightarrow> time \<Rightarrow> IssueRequest \<Rightarrow> 's Server
     \<Rightarrow> IssueResponse \<Rightarrow> 's Server \<Rightarrow> bool" where
  "issue_justified get L E now req st a st' \<longleftrightarrow>
     (\<exists>rec rec'. get (DeviceID_s a) (Registry_f st) = Some rec \<and> \<not> Revoked rec \<and>
        DeviceID_s a = TrimSpace (DeviceID_q req) \<and>
        (RequireSignature st \<or> length (SignPK rec) = 32 \<longrightarrow>
           VerifyIssue E (SignPK rec) (DeviceID_s a) (Nonce_q req) (ClientTime_q req)
             (bytes_of (Profile_s a)) (Signature_q req)) \<and>
        CheckSkew (ClientTime_q req) (Unix now) = Inr () \<and>
        EpochID_s a = EpochID now \<and>
        issue_key L (Master st) (Profile_s a) (EpochID now) rec = Inr (GeneralKey_s a) \<and>
        get (DeviceID_s a) (Registry_f st') = Some rec' \<and>
        IssuedEpoch rec' = EpochID now \<and> LastSerial rec' = KeySerial_s a)"

context ka_store
begin

lemma issue_justified:
  assumes inv: "invar (Registry_f st)"
    and run: "handleIssue S L E now r (Some req) st = ((code, IssueBody a), st')"
  shows "issue_justified (st_Get S) L E now req st a st'"
proof -
  obtain rec where r: "authenticateIssue S E r req st = Inr (DeviceID_s a, rec, Profile_s a)"
    "CheckSkew (ClientTime_q req) (Unix now) = Inr ()" "EpochID_s a = EpochID now"
    "issue_key L (Master st) (Profile_s a) (EpochID now) rec = Inr (GeneralKey_s a)"
    "fst (st_MarkIssued S (DeviceID_s a) (EpochID now) (Registry_f st)) = Inr (KeySerial_s a)"
    "Registry_f st' = snd (st_MarkIssued S (DeviceID_s a) (EpochID now) (Registry_f st))"
    by (rule handleIssue_IssueD [OF run])
  note auth = authenticateIssue_InrD [OF r(1)]
  have m: "st_MarkIssued S (DeviceID_s a) (EpochID now) (Registry_f st) = (Inr (KeySerial_s a), Registry_f st')"
    using r(5,6) by (simp add: prod_eq_iff)
  have inv': "invar (Registry_f st')"
    and spec: "mark_spec (DeviceID_s a) (EpochID now) (abs (Registry_f st)) (Inr (KeySerial_s a)) (abs (Registry_f st'))"
    using mark [OF inv m] by simp_all
  have "devs (abs (Registry_f st)) (DeviceID_s a) = Some rec" using auth(1) get [OF inv] by simp
  then have "\<exists>rec'. devs (abs (Registry_f st')) (DeviceID_s a) = Some rec' \<and> IssuedEpoch rec' = EpochID now \<and>
      LastSerial rec' = KeySerial_s a"
    using spec by (auto simp: mark_spec_def saved_def already_issued_def issued_record_def split: if_splits)
  then show ?thesis
    using auth r get [OF inv'] unfolding issue_justified_def by auto
qed

lemma issue_idempotent:
  assumes inv: "invar (Registry_f st)" and "ser (abs (Registry_f st)) + 1 \<noteq> 0"
    and 1: "handleIssue S L E now r (Some req) st = ((c1, IssueBody a), st1)"
    and 2: "handleIssue S L E now2 r2 (Some req2) st1 = ((c2, IssueBody b), st2)"
    and same: "DeviceID_s b = DeviceID_s a" "Profile_s b = Profile_s a" "EpochID now2 = EpochID now"
  shows "KeySerial_s b = KeySerial_s a \<and> GeneralKey_s b = GeneralKey_s a \<and> abs (Registry_f st2) = abs (Registry_f st1)"
proof -
  obtain rec where r: "authenticateIssue S E r req st = Inr (DeviceID_s a, rec, Profile_s a)"
    "issue_key L (Master st) (Profile_s a) (EpochID now) rec = Inr (GeneralKey_s a)"
    "fst (st_MarkIssued S (DeviceID_s a) (EpochID now) (Registry_f st)) = Inr (KeySerial_s a)"
    "Registry_f st1 = snd (st_MarkIssued S (DeviceID_s a) (EpochID now) (Registry_f st))" "Master st1 = Master st"
    by (rule handleIssue_IssueD [OF 1])
  obtain rec2 where r2: "authenticateIssue S E r2 req2 st1 = Inr (DeviceID_s b, rec2, Profile_s b)"
    "issue_key L (Master st1) (Profile_s b) (EpochID now2) rec2 = Inr (GeneralKey_s b)"
    "fst (st_MarkIssued S (DeviceID_s b) (EpochID now2) (Registry_f st1)) = Inr (KeySerial_s b)"
    "Registry_f st2 = snd (st_MarkIssued S (DeviceID_s b) (EpochID now2) (Registry_f st1))"
    by (rule handleIssue_IssueD [OF 2])
  have m1: "st_MarkIssued S (DeviceID_s a) (EpochID now) (Registry_f st) = (Inr (KeySerial_s a), Registry_f st1)"
    and m2: "st_MarkIssued S (DeviceID_s a) (EpochID now) (Registry_f st1) = (Inr (KeySerial_s b), Registry_f st2)"
    using r(3,4) r2(3,4) same by (simp_all add: prod_eq_iff)
  have inv1: "invar (Registry_f st1)"
    and spec: "mark_spec (DeviceID_s a) (EpochID now) (abs (Registry_f st)) (Inr (KeySerial_s a)) (abs (Registry_f st1))"
    using mark [OF inv m1] by simp_all
  have d1: "devs (abs (Registry_f st)) (DeviceID_s a) = Some rec"
    using authenticateIssue_InrD(1) [OF r(1)] get [OF inv] by simp
  have d2: "devs (abs (Registry_f st1)) (DeviceID_s a) = Some rec2"
    using authenticateIssue_InrD(1) [OF r2(1)] get [OF inv1] same by simp
  have "DeviceID rec2 = DeviceID rec" "OrgID rec2 = OrgID rec" "EnrollmentCounter rec2 = EnrollmentCounter rec"
    using spec d1 d2 by (auto simp: mark_spec_def saved_def issued_record_def split: if_splits)
  then have "issue_key L (Master st) (Profile_s a) (EpochID now) rec2 = issue_key L (Master st) (Profile_s a) (EpochID now) rec"
    unfolding issue_key_def by (simp only:)
  then have "GeneralKey_s b = GeneralKey_s a"
    using r(2,5) r2(2) same by simp
  then show ?thesis using mark_idempotent [OF inv m1 assms(2) m2] by simp
qed

lemma unauthorised_enroll:
  assumes inv: "invar (Registry_f st)" and "\<not> adminOK st r"
    and "\<And>i v. vchs (abs (Registry_f st)) i = Some v \<Longrightarrow> CodeHash_v v = hash (VoucherCode_e req) \<Longrightarrow>
      voucher_check now v \<noteq> None"
    and run: "handleEnroll S now r (Some req) st = ((code, b), st')"
  shows "code \<in> {401, 403} \<and> abs (Registry_f st') = abs (Registry_f st)"
proof (cases "VoucherCode_e req = ''''")
  case True
  then show ?thesis using run assms(2) by (auto simp: handleEnroll_def writeErr_def)
next
  case False
  obtain res g where red: "st_RedeemVoucher S now (VoucherCode_e req) (Registry_f st) = (res, g)" by fastforce
  have spec: "redeem_spec hash now (VoucherCode_e req) (abs (Registry_f st)) res (abs g)"
    using redeem [OF inv red] by simp
  have "\<exists>e. res = Inl e \<and> abs g = abs (Registry_f st)"
    using spec assms(3) unfolding redeem_spec_def by (fastforce split: option.splits)
  then show ?thesis using run assms(2) False red by (auto simp: handleEnroll_def writeErr_def)
qed

lemma revoked_gets_no_key:
  assumes "invar (Registry_f st)" "devs (abs (Registry_f st)) d = Some rec" "Revoked rec"
    and "\<forall>(now, r, c) \<in> set xs. enroll_target c \<noteq> Some d"
    and "serve_all S L E sha xs st = (resps, st')"
  shows "\<forall>code a. (code, IssueBody a) \<in> set resps \<longrightarrow> DeviceID_s a \<noteq> d"
  using assms
proof (induction xs arbitrary: st rec resps)
  case (Cons x xs)
  obtain now r c where x: "x = (now, r, c)" by (cases x)
  let ?p = "serve S L E sha now r c st"
  obtain rs where rs: "serve_all S L E sha xs (snd ?p) = (rs, st')" "resps = fst ?p # rs"
    using Cons.prems(5) x by (auto simp: split_beta) (metis prod.collapse)
  have t: "enroll_target c \<noteq> Some d" using Cons.prems(4) x by auto
  have q: "quiet (enroll_target c) (Registry_f st) (Registry_f (snd ?p))" by (rule serve_quiet [OF Cons.prems(1)])
  then obtain cs where cs: "ka_run hash (abs (Registry_f st)) cs (abs (Registry_f (snd ?p)))"
    "\<forall>c \<in> set cs. \<not> enrolls d c" "invar (Registry_f (snd ?p))"
    using t unfolding quiet_def by metis
  obtain rec' where rec': "devs (abs (Registry_f (snd ?p))) d = Some rec'" "Revoked rec'"
    using revoked_run [OF cs(1) Cons.prems(2,3) cs(2)] by blast
  have "DeviceID_s a \<noteq> d" if "fst ?p = (code, IssueBody a)" for code a
  proof (rule serve_IssueBody [OF that])
    fix req
    assume "handleIssue S L E now r (Some req) st = ((code, IssueBody a), snd ?p)"
    from issue_justified [OF Cons.prems(1) this] show ?thesis
      using Cons.prems(2,3) get [OF Cons.prems(1)] by (auto simp: issue_justified_def)
  qed
  moreover have "\<forall>code a. (code, IssueBody a) \<in> set rs \<longrightarrow> DeviceID_s a \<noteq> d"
    using Cons.IH [OF cs(3) rec' _ rs(1)] Cons.prems(4) by auto
  ultimately show ?case unfolding rs(2) by (auto dest: sym)
qed simp

end

section \<open>Sample states\<close>

definition sample_request :: Request where
  "sample_request = \<lparr>r_Path = '''', r_Authorization = '''', r_XDeviceID = '''', r_XForwardedFor = '''',
     r_RemoteAddr = ''10.0.0.1:5'', r_QueryDeviceID = '''', r_TLS = True\<rparr>"

definition sample_now :: time where
  "sample_now = 8640000 * 10 ^ 9"

definition signing_device :: DeviceRecord where
  "signing_device = sample_device\<lparr>Revoked := False, SignPK := replicate 32 3\<rparr>"

definition server_with :: "'s \<Rightarrow> 's Server" where
  "server_with g = \<lparr>Master = replicate 32 9, Registry_f = g, XO = \<lparr>s0 = 1, s1 = 2\<rparr>, Audit = [],
     AdminTok = ''secret'', RequireSignature = True, RequireAdminToken = True, TLSActive = True\<rparr>"

definition sample_issue :: IssueRequest where
  "sample_issue = \<lparr>DeviceID_q = ''dev'', EpochHint_q = 0, Nonce_q = [1], ClientTime_q = 8640001, Profile_q = '''',
     Signature_q = SignIssue toy_ed25519 (replicate 64 3) ''dev'' [1] 8640001 ''strong''\<rparr>"

lemma server_with_sel [simp]:
  "Registry_f (server_with g) = g" "RequireSignature (server_with g)" "Master (server_with g) = replicate 32 9"
  "\<not> adminOK (server_with g) sample_request"
  by (simp_all add: server_with_def adminOK_def sample_request_def)

lemma sample_authentic:
  assumes "st_Get S ''dev'' (Registry_f st) = Some rec" "SignPK rec = replicate 32 3" "\<not> Revoked rec"
    "Profile rec = ''strong''"
  shows "authenticateIssue S toy_ed25519 sample_request sample_issue st = Inr (''dev'', rec, ''strong'')"
proof -
  have t: "TrimSpace ''dev'' = ''dev''" "TrimSpace [] = []" by (simp_all add: TrimSpace_def is_space_def)
  have v: "VerifyIssue toy_ed25519 (replicate 32 3) ''dev'' [1] 8640001 (bytes_of ''strong'')
      (SignIssue toy_ed25519 (replicate 64 3) ''dev'' [1] 8640001 ''strong'')"
    "SignIssue toy_ed25519 (replicate 64 3) ''dev'' [1] 8640001 ''strong'' \<noteq> []"
    by (simp_all add: VerifyIssue_def SignIssue_def toy_ed25519_def toy_tag_def)
  show ?thesis
    using assms t v by (simp add: authenticateIssue_def sample_issue_def sample_request_def Let_def)
qed

lemma sample_issue_key: "\<exists>k. issue_key xor_lib (replicate 32 9) ''strong'' e rec = Inr k"
  by (simp add: issue_key_def DeriveGeneralKey_def HKDF_def xor_lib_def)

lemma sample_issue_answer:
  assumes "st_Get S ''dev'' (Registry_f st) = Some rec" "SignPK rec = replicate 32 3" "\<not> Revoked rec"
    "Profile rec = ''strong''" "Master st = replicate 32 9"
    and "fst (st_MarkIssued S ''dev'' (EpochID sample_now) (Registry_f st)) = Inr n"
  shows "\<exists>a st'. handleIssue S xor_lib toy_ed25519 sample_now sample_request (Some sample_issue) st =
    ((200, IssueBody a), st') \<and> DeviceID_s a = ''dev'' \<and> KeySerial_s a = n \<and> Profile_s a = ''strong'' \<and>
    Registry_f st' = snd (st_MarkIssued S ''dev'' (EpochID sample_now) (Registry_f st)) \<and>
    Master st' = Master st"
proof -
  obtain k where k: "issue_key xor_lib (replicate 32 9) ''strong'' (EpochID sample_now) rec = Inr k"
    using sample_issue_key by blast
  have sk: "CheckSkew (ClientTime_q sample_issue) (Unix sample_now) = Inr ()"
    by (simp add: sample_issue_def sample_now_def Unix_def CheckSkew_def MaxClockSkewSeconds_def wrap64_def)
  have h: "epoch_hint_ok (EpochHint_q sample_issue) e" for e by (simp add: sample_issue_def epoch_hint_ok_def)
  obtain g where g: "st_MarkIssued S ''dev'' (EpochID sample_now) (Registry_f st) = (Inr n, g)"
    using assms(6) by (cases "st_MarkIssued S ''dev'' (EpochID sample_now) (Registry_f st)") simp
  then show ?thesis
    using handleIssue_ok [OF sample_authentic [OF assms(1-4)] sk h _ g, of xor_lib k] k assms(5) by auto
qed

lemma signing_device_sel:
  "SignPK signing_device = replicate 32 3" "\<not> Revoked signing_device" "Profile signing_device = ''strong''"
  "DeviceID signing_device = ''dev''" "LastSerial signing_device = 0"
  by (simp_all add: signing_device_def sample_device_def)

lemma sample_sql_mark:
  "\<exists>db. sql_MarkIssued ''dev'' (EpochID sample_now) (sample_db signing_device) = (Inr 8, db) \<and>
     getLocked ''dev'' db = Some (issued_record (EpochID sample_now) 8 signing_device)"
proof -
  have e: "EpochID sample_now = 100" by (simp add: sample_now_def EpochID_def Unix_def go_div_def EpochSeconds_def u64_of_i64_def)
  have g: "getLocked ''dev'' (sample_db signing_device) = Some signing_device" "stmts (sample_db signing_device) = []"
    "t_devices (sample_db signing_device) = [signing_device]"
    using sample_state(4) [OF signing_device_sel(4)] by (simp_all add: sql_Get_def sample_db_def)
  show ?thesis
    by (simp add: sql_MarkIssued_def g signing_device_sel already_issued_def gbind_def nextSerialLocked_def db_Exec_def
        Let_def sample_serial bindable_def e getLocked_def update_rows_def) (simp add: issued_record_def signing_device_sel)
qed

lemma enroll_check_defaults [simp]: "enroll_check (voucher_defaults v req) = enroll_check req"
  by (simp add: enroll_check_def voucher_defaults_def)

context ka_store
begin

lemma voucher_spent:
  assumes inv: "invar (Registry_f st)" and na: "\<not> adminOK st r" and c: "VoucherCode_e req \<noteq> ''''"
    and red: "st_RedeemVoucher S now (VoucherCode_e req) (Registry_f st) = (Inr w, g)"
    and bad: "enroll_check req \<noteq> None"
    and run: "handleEnroll S now r (Some req) st = ((code, b), st')"
  shows "code = 400 \<and> devs (abs (Registry_f st')) = devs (abs (Registry_f st)) \<and>
    (\<exists>i v. vchs (abs (Registry_f st)) i = Some v \<and> CodeHash_v v = hash (VoucherCode_e req) \<and>
       vchs (abs (Registry_f st')) i = Some (voucher_used v))"
proof -
  have spec: "redeem_spec hash now (VoucherCode_e req) (abs (Registry_f st)) (Inr w) (abs g)" and g: "invar g"
    using redeem [OF inv red] by simp_all
  then obtain i v where v: "vchs (abs (Registry_f st)) i = Some v" "CodeHash_v v = hash (VoucherCode_e req)"
    "abs g = put_vch i (voucher_used v) (abs (Registry_f st))"
    unfolding redeem_spec_def by (auto split: option.splits)
  obtain res h where en: "st_Enroll S (voucher_defaults w req) g = (res, h)" by fastforce
  obtain e where e: "res = Inl e" "abs h = abs g"
    using enroll [OF g en] bad by (auto simp: enroll_spec_def)
  then have "code = 400" "abs (Registry_f st') = abs g"
    using run na c red en by (auto simp: handleEnroll_def finish_enroll_def writeErr_def)
  then show ?thesis using v by (auto simp: put_vch_def)
qed

end

section \<open>Properties\<close>

text \<open>
  C7: Every key that the authority hands out, over either store, is justified: the device is
  enrolled and not revoked, the request carries a valid signature over device, nonce, time and
  profile whenever signatures are required or the device has a signing key, the client clock
  passes the skew check, the key is the one derived from the master key for that device and the
  current epoch, and the returned serial number is on record for it afterwards.
\<close>

theorem handleIssue_justified:
  "(\<forall>st r req code a st'. reg_invar (Registry_f st) \<longrightarrow>
      handleIssue (registry_Store sha J) L E now r (Some req) st = ((code, IssueBody a), st') \<longrightarrow>
      issue_justified reg_Get L E now req st a st') \<and>
   (\<forall>st r req code a st'. sql_invar (Registry_f st) \<longrightarrow>
      handleIssue (sql_Store sha) L E now r (Some req) st = ((code, IssueBody a), st') \<longrightarrow>
      issue_justified sql_Get L E now req st a st')"
proof -
  have "st_Get (registry_Store sha J) = reg_Get" "st_Get (sql_Store sha) = sql_Get"
    by (simp_all add: registry_Store_def sql_Store_def)
  then show ?thesis
    using rst.issue_justified [of _ sha J L E now] sst.issue_justified [of _ sha L E now] by auto
qed

theorem handleIssue_justified_witness:
  "\<exists>a st'. handleIssue (sql_Store id) xor_lib toy_ed25519 sample_now sample_request (Some sample_issue)
      (server_with (sample_db signing_device)) = ((200, IssueBody a), st') \<and>
    issue_justified sql_Get xor_lib toy_ed25519 sample_now sample_issue
      (server_with (sample_db signing_device)) a st'"
proof -
  have g: "st_Get (sql_Store id) ''dev'' (sample_db signing_device) = Some signing_device"
    using sample_state(4) [OF signing_device_sel(4)] by (simp add: sql_Store_def)
  obtain db where "st_MarkIssued (sql_Store id) ''dev'' (EpochID sample_now) (sample_db signing_device) = (Inr 8, db)"
    using sample_sql_mark by (auto simp: sql_Store_def)
  then obtain a st' where "handleIssue (sql_Store id) xor_lib toy_ed25519 sample_now sample_request (Some sample_issue)
      (server_with (sample_db signing_device)) = ((200, IssueBody a), st')"
    using sample_issue_answer [of "sql_Store id" "server_with (sample_db signing_device)" signing_device 8] g signing_device_sel
    by auto
  then show ?thesis
    using handleIssue_justified [of id reg_codec xor_lib toy_ed25519 sample_now] sample_state(2) by auto
qed



text \<open>
  C22: Without the admin token, enrolling takes a valid voucher: when no stored voucher with the
  presented code passes the checks on revocation, expiry and use count, the answer is 401 or 403
  and neither store changes a device, a voucher or the serial counter.
\<close>

theorem enroll_needs_authority:
  "(\<forall>st r req code b st'. reg_invar (Registry_f st) \<longrightarrow> \<not> adminOK st r \<longrightarrow>
      (\<forall>i v. vchs (reg_abs (Registry_f st)) i = Some v \<longrightarrow> CodeHash_v v = HashVoucherCode sha (VoucherCode_e req) \<longrightarrow>
         voucher_check now v \<noteq> None) \<longrightarrow>
      handleEnroll (registry_Store sha J) now r (Some req) st = ((code, b), st') \<longrightarrow>
      code \<in> {401, 403} \<and> reg_abs (Registry_f st') = reg_abs (Registry_f st)) \<and>
   (\<forall>st r req code b st'. sql_invar (Registry_f st) \<longrightarrow> \<not> adminOK st r \<longrightarrow>
      (\<forall>i v. vchs (sql_abs (Registry_f st)) i = Some v \<longrightarrow> CodeHash_v v = HashVoucherCode sha (VoucherCode_e req) \<longrightarrow>
         voucher_check now v \<noteq> None) \<longrightarrow>
      handleEnroll (sql_Store sha) now r (Some req) st = ((code, b), st') \<longrightarrow>
      code \<in> {401, 403} \<and> sql_abs (Registry_f st') = sql_abs (Registry_f st))"
proof (rule conjI; intro allI impI)
  fix st :: "Registry Server" and r req code b st'
  assume "reg_invar (Registry_f st)" "\<not> adminOK st r"
    "\<forall>i v. vchs (reg_abs (Registry_f st)) i = Some v \<longrightarrow> CodeHash_v v = HashVoucherCode sha (VoucherCode_e req) \<longrightarrow>
         voucher_check now v \<noteq> None"
    "handleEnroll (registry_Store sha J) now r (Some req) st = ((code, b), st')"
  then show "code \<in> {401, 403} \<and> reg_abs (Registry_f st') = reg_abs (Registry_f st)"
    using rst.unauthorised_enroll by blast
next
  fix st :: "sql_db Server" and r req code b st'
  assume "sql_invar (Registry_f st)" "\<not> adminOK st r"
    "\<forall>i v. vchs (sql_abs (Registry_f st)) i = Some v \<longrightarrow> CodeHash_v v = HashVoucherCode sha (VoucherCode_e req) \<longrightarrow>
         voucher_check now v \<noteq> None"
    "handleEnroll (sql_Store sha) now r (Some req) st = ((code, b), st')"
  then show "code \<in> {401, 403} \<and> sql_abs (Registry_f st') = sql_abs (Registry_f st)"
    using sst.unauthorised_enroll by blast
qed

theorem enroll_needs_authority_witness:
  "fst (fst (handleEnroll (sql_Store id) sample_now sample_request (Some (sample_req\<lparr>VoucherCode_e := ''x''\<rparr>))
     (server_with (sample_db signing_device)))) \<in> {401, 403}"
proof -
  let ?st = "server_with (sample_db signing_device)" and ?req = "sample_req\<lparr>VoucherCode_e := ''x''\<rparr>"
  have "CodeHash_v sample_voucher \<noteq> HashVoucherCode id (VoucherCode_e ?req)"
    by (simp add: sample_voucher_def) code_simp
  then have "\<forall>i v. vchs (sql_abs (Registry_f ?st)) i = Some v \<longrightarrow>
      CodeHash_v v = HashVoucherCode id (VoucherCode_e ?req) \<longrightarrow> voucher_check sample_now v \<noteq> None"
    by (auto simp: sample_db_def lookup_def split: if_splits)
  then show ?thesis
    using enroll_needs_authority [of id sample_now reg_codec] sample_state(2) by (auto simp: prod_eq_iff split_paired_all)
qed

text \<open>
  C8: A revoked device never gets a key again: over either store, whatever requests are served
  in whatever order, as long as none of them enrolls the device anew, no answer carries a key
  for it.
\<close>

theorem revoked_device_gets_no_key:
  "(\<forall>xs st rec resps st'. reg_invar (Registry_f st) \<longrightarrow> reg_Get d (Registry_f st) = Some rec \<longrightarrow> Revoked rec \<longrightarrow>
      (\<forall>(now, r, c) \<in> set xs. enroll_target c \<noteq> Some d) \<longrightarrow>
      serve_all (registry_Store sha J) L E sha xs st = (resps, st') \<longrightarrow>
      (\<forall>code a. (code, IssueBody a) \<in> set resps \<longrightarrow> DeviceID_s a \<noteq> d)) \<and>
   (\<forall>xs st rec resps st'. sql_invar (Registry_f st) \<longrightarrow> sql_Get d (Registry_f st) = Some rec \<longrightarrow> Revoked rec \<longrightarrow>
      (\<forall>(now, r, c) \<in> set xs. enroll_target c \<noteq> Some d) \<longrightarrow>
      serve_all (sql_Store sha) L E sha xs st = (resps, st') \<longrightarrow>
      (\<forall>code a. (code, IssueBody a) \<in> set resps \<longrightarrow> DeviceID_s a \<noteq> d))"
proof (rule conjI; intro allI impI)
  fix xs and st :: "Registry Server" and rec resps st' code a
  assume "reg_invar (Registry_f st)" "reg_Get d (Registry_f st) = Some rec" "Revoked rec"
    "\<forall>(now, r, c) \<in> set xs. enroll_target c \<noteq> Some d"
    "serve_all (registry_Store sha J) L E sha xs st = (resps, st')" "(code, IssueBody a) \<in> set resps"
  then show "DeviceID_s a \<noteq> d"
    using rst.get [of "Registry_f st" sha J d] rst.revoked_gets_no_key [of st d rec xs sha J L E sha resps st']
    by (auto simp: registry_Store_def)
next
  fix xs and st :: "sql_db Server" and rec resps st' code a
  assume "sql_invar (Registry_f st)" "sql_Get d (Registry_f st) = Some rec" "Revoked rec"
    "\<forall>(now, r, c) \<in> set xs. enroll_target c \<noteq> Some d"
    "serve_all (sql_Store sha) L E sha xs st = (resps, st')" "(code, IssueBody a) \<in> set resps"
  then show "DeviceID_s a \<noteq> d"
    using sst.get [of "Registry_f st" sha d] sst.revoked_gets_no_key [of st d rec xs sha L E sha resps st']
    by (auto simp: sql_Store_def)
qed

theorem revoked_device_gets_no_key_witness:
  "\<not> (\<exists>code a. (code, IssueBody a) \<in>
      set (fst (serve_all (sql_Store id) xor_lib toy_ed25519 id
        [(sample_now, sample_request, CHealth), (sample_now, sample_request, CIssue (Some sample_issue))]
        (server_with (sample_db sample_device)))) \<and> DeviceID_s a = ''dev'')"
proof -
  let ?xs = "[(sample_now, sample_request, CHealth), (sample_now, sample_request, CIssue (Some sample_issue))]"
  have "sql_Get ''dev'' (sample_db sample_device) = Some sample_device" "Revoked sample_device"
    using sample_state(4) [of sample_device] by (simp_all add: sample_device_def)
  moreover have "\<forall>(now, r, c) \<in> set ?xs. enroll_target c \<noteq> Some ''dev''" by (simp add: enroll_target_def)
  moreover obtain resps st' where
    "serve_all (sql_Store id) xor_lib toy_ed25519 id ?xs (server_with (sample_db sample_device)) = (resps, st')"
    by fastforce
  ultimately show ?thesis
    using revoked_device_gets_no_key [of "''dev''" id reg_codec xor_lib toy_ed25519, THEN conjunct2, THEN spec,
        THEN spec, of "server_with (sample_db sample_device)" ?xs]
      sample_state(2) by (auto simp del: serve_all.simps)
qed

text \<open>
  A voucher is spent even when the enrollment it pays for is refused: when the code is
  redeemed and the request then fails its own checks (for example a public key of the wrong
  length), the answer is 400, no device changes, and the use of the voucher stays counted.
\<close>

theorem refused_enroll_spends_voucher:
  assumes "sql_invar (Registry_f st)" "\<not> adminOK st r" "VoucherCode_e req \<noteq> ''''" "enroll_check req \<noteq> None"
    and "sql_RedeemVoucher sha now (VoucherCode_e req) (Registry_f st) = (Inr w, g)"
    and "handleEnroll (sql_Store sha) now r (Some req) st = ((code, b), st')"
  shows "code = 400 \<and> devs (sql_abs (Registry_f st')) = devs (sql_abs (Registry_f st)) \<and>
    (\<exists>i v. vchs (sql_abs (Registry_f st)) i = Some v \<and> CodeHash_v v = HashVoucherCode sha (VoucherCode_e req) \<and>
       vchs (sql_abs (Registry_f st')) i = Some (voucher_used v))"
  using sst.voucher_spent [OF assms(1,2,3) _ assms(4,6)] assms(5) by (simp add: sql_Store_def)

theorem refused_enroll_spends_voucher_witness:
  "\<exists>st'. handleEnroll (sql_Store id) sample_now sample_request
      (Some (sample_req\<lparr>IdentityPK_e := [], VoucherCode_e := ''x''\<rparr>))
      (server_with ((sample_db signing_device)\<lparr>t_vouchers := [sample_voucher\<lparr>CodeHash_v := HashVoucherCode id ''x''\<rparr>]\<rparr>)) =
      (writeErr 400 ''bad_request'', st') \<and>
    (\<exists>i v. vchs (sql_abs (Registry_f st')) i = Some (voucher_used v))"
proof -
  let ?req = "sample_req\<lparr>IdentityPK_e := [], VoucherCode_e := ''x''\<rparr>"
  let ?db = "(sample_db signing_device)\<lparr>t_vouchers := [sample_voucher\<lparr>CodeHash_v := HashVoucherCode id ''x''\<rparr>]\<rparr>"
  have inv: "sql_invar ?db" by (simp add: sql_invar_def sample_db_def)
  have bad: "enroll_check ?req \<noteq> None" "VoucherCode_e ?req = ''x''" by (simp_all add: enroll_check_def sample_req_def)
  obtain w g where red: "sql_RedeemVoucher id sample_now ''x'' ?db = (Inr w, g)"
    by (auto simp: sql_RedeemVoucher_def sample_db_def sample_voucher_def voucher_check_def db_Exec_def Let_def
        voucher_used_def)
  obtain e h where "st_Enroll (sql_Store id) (voucher_defaults w ?req) g = (Inl e, h)"
    using bad(1) by (auto simp: sql_Store_def sql_Enroll_def split: option.splits)
  then obtain st' where run: "handleEnroll (sql_Store id) sample_now sample_request (Some ?req) (server_with ?db) =
      (writeErr 400 ''bad_request'', st')"
    using red bad(2) by (simp add: handleEnroll_def finish_enroll_def sql_Store_def)
  show ?thesis
    using refused_enroll_spends_voucher [of "server_with ?db" sample_request ?req id sample_now w g 400 _ st'] run inv bad red
    by (auto simp: writeErr_def)
qed

end
