(* ===== verification/Update.thy ===== *)
theory Update
  imports Ice Files
begin

text \<open>
  Update manifests, \<^verbatim>\<open>internal/kaapi/update.go\<close>: the manifest file, its reload at every request and
  the answer of the update route. \<open>encoding/json\<close> for the manifest is the argument \<open>J\<close>; the read
  and write locks only serialise the calls. Versions are compared as strings.
\<close>

section \<open>Definitions\<close>

record UpdateManifest =
  Latest :: string
  MinVersion :: string
  Notes :: string
  Channels :: "(string \<times> string) list"

definition no_manifest :: UpdateManifest where
  "no_manifest = \<lparr>Latest = '''', MinVersion = '''', Notes = '''', Channels = []\<rparr>"

record UpdateHub =
  upd_path :: string
  upd_manifest :: UpdateManifest

datatype update_error = ManifestMissing | ManifestBadJSON

definition LoadUpdateManifest :: "UpdateManifest json \<Rightarrow> string \<Rightarrow> disk \<Rightarrow> update_error + UpdateHub" where
  "LoadUpdateManifest J path d =
     (if path = '''' then Inr \<lparr>upd_path = path, upd_manifest = no_manifest\<rparr>
      else case os_ReadFile path d of
        None \<Rightarrow> Inr \<lparr>upd_path = path, upd_manifest = no_manifest\<rparr>
      | Some b \<Rightarrow> (case Unmarshal J b of
            None \<Rightarrow> Inl ManifestBadJSON
          | Some m \<Rightarrow> Inr \<lparr>upd_path = path, upd_manifest = m\<rparr>))"

definition Reload :: "UpdateManifest json \<Rightarrow> disk \<Rightarrow> (UpdateHub, update_error, unit) go" where
  "Reload J d = (\<lambda>h.
     if upd_path h = '''' then (Inr (), h)
     else case os_ReadFile (upd_path h) d of
       None \<Rightarrow> (Inl ManifestMissing, h)
     | Some b \<Rightarrow> (case Unmarshal J b of
           None \<Rightarrow> (Inl ManifestBadJSON, h)
         | Some m \<Rightarrow> (Inr (), h\<lparr>upd_manifest := m\<rparr>)))"

definition upd_snapshot :: "UpdateHub option \<Rightarrow> UpdateManifest" where
  "upd_snapshot h = (case h of None \<Rightarrow> no_manifest | Some h \<Rightarrow> upd_manifest h)"

record UpdateCheckResponse =
  UpdateAvailable :: bool
  Current_u :: string
  Latest_u :: string
  MinVersion_u :: string
  Notes_u :: string
  DownloadURL_u :: string
  Forced_u :: bool

definition go_lookup :: "string \<Rightarrow> (string \<times> string) list \<Rightarrow> string" where
  "go_lookup k m = (case map_of m k of None \<Rightarrow> '''' | Some v \<Rightarrow> v)"

text \<open>The answer for a manifest, after \<open>handleUpdateCheck\<close> has taken its snapshot.\<close>

definition update_answer :: "UpdateManifest \<Rightarrow> string \<Rightarrow> string \<Rightarrow> string \<Rightarrow> UpdateCheckResponse" where
  "update_answer m cur osName arch =
     (if Latest m = '''' then \<lparr>UpdateAvailable = False, Current_u = cur, Latest_u = '''', MinVersion_u = '''', Notes_u = '''',
        DownloadURL_u = '''', Forced_u = False\<rparr>
      else
        let url = go_lookup (osName @ ''-'' @ arch) (Channels m);
            url = (if url = '''' then go_lookup osName (Channels m) else url);
            avail = (cur \<noteq> '''' \<and> cur \<noteq> Latest m);
            forced = (MinVersion m \<noteq> '''' \<and> cur \<noteq> '''' \<and> cur < MinVersion m)
        in \<lparr>UpdateAvailable = (avail \<or> forced), Current_u = cur, Latest_u = Latest m, MinVersion_u = MinVersion m,
            Notes_u = Notes m, DownloadURL_u = url, Forced_u = forced\<rparr>)"

definition handleUpdateCheck ::
    "UpdateManifest json \<Rightarrow> disk \<Rightarrow> string \<Rightarrow> string \<Rightarrow> string \<Rightarrow> UpdateHub option
     \<Rightarrow> (nat \<times> UpdateCheckResponse) \<times> UpdateHub option" where
  "handleUpdateCheck J d cur os arch updates =
     (let osName = ToLower os; arch = ToLower arch;
          updates = map_option (\<lambda>h. snd (Reload J d h)) updates;
          m = upd_snapshot updates
      in ((200, update_answer m cur osName arch), updates))"

fun update_checks ::
    "UpdateManifest json \<Rightarrow> (disk \<times> string \<times> string \<times> string) list \<Rightarrow> UpdateHub option \<Rightarrow> UpdateHub option" where
  "update_checks J [] u = u"
| "update_checks J ((d, cur, os, arch) # xs) u = update_checks J xs (snd (handleUpdateCheck J d cur os arch u))"

section \<open>Lemmas\<close>

lemma Reload_path [simp]: "upd_path (snd (Reload J d h)) = upd_path h"
  by (simp add: Reload_def split: option.split)

text \<open>The manifest in force is the last one that could be read.\<close>

definition last_good :: "UpdateManifest json \<Rightarrow> string \<Rightarrow> disk list \<Rightarrow> UpdateManifest \<Rightarrow> UpdateManifest" where
  "last_good J path ds m =
     (case List.map_filter (\<lambda>d. Option.bind (os_ReadFile path d) (Unmarshal J)) ds of
        [] \<Rightarrow> m | ms \<Rightarrow> last ms)"

lemma last_good_Cons:
  "last_good J path (d # ds) m =
     last_good J path ds (case Option.bind (os_ReadFile path d) (Unmarshal J) of None \<Rightarrow> m | Some m' \<Rightarrow> m')"
  by (auto simp: last_good_def List.map_filter_def split: option.splits list.splits)

lemma Reload_manifest:
  assumes "upd_path h \<noteq> ''''"
  shows "upd_manifest (snd (Reload J d h)) =
    (case Option.bind (os_ReadFile (upd_path h) d) (Unmarshal J) of None \<Rightarrow> upd_manifest h | Some m \<Rightarrow> m)"
  using assms by (auto simp: Reload_def split: option.splits)

section \<open>Properties\<close>

text \<open>
  A broken manifest file never takes the update service down: after any number of checks, with
  the file missing or unreadable at any of them, the manifest in force is the last one that could
  be read and parsed, or the one loaded at the start when there was none.
\<close>

theorem update_manifest_last_good:
  assumes "upd_path h \<noteq> ''''"
  shows "update_checks J xs (Some h) =
    Some (h\<lparr>upd_manifest := last_good J (upd_path h) (map fst xs) (upd_manifest h)\<rparr>)"
  using assms
proof (induction xs arbitrary: h)
  case Nil
  then show ?case by (simp add: last_good_def List.map_filter_def)
next
  case (Cons x xs)
  obtain d cur os arch where x: "x = (d, cur, os, arch)" by (cases x)
  let ?h = "snd (Reload J d h)"
  have eq: "?h = h\<lparr>upd_manifest := upd_manifest ?h\<rparr>"
    by (simp add: Reload_def split: option.split)
  have "update_checks J (x # xs) (Some h) = update_checks J xs (Some ?h)"
    by (simp add: x handleUpdateCheck_def Let_def)
  also have "\<dots> = Some (?h\<lparr>upd_manifest := last_good J (upd_path h) (map fst xs) (upd_manifest ?h)\<rparr>)"
    using Cons by simp
  also have "\<dots> = Some (h\<lparr>upd_manifest := last_good J (upd_path h) (map fst (x # xs)) (upd_manifest h)\<rparr>)"
    using Reload_manifest [OF Cons.prems, of J d] by (subst eq) (simp add: x last_good_Cons)
  finally show ?case .
qed

theorem update_manifest_last_good_witness:
  "update_checks \<lparr>Marshal = \<lambda>_. [], Unmarshal = \<lambda>_. None\<rparr> [(\<lparr>files = [], script = []\<rparr>, ''1'', ''linux'', ''amd64'')]
     (Some \<lparr>upd_path = ''m'', upd_manifest = no_manifest\<lparr>Latest := ''2''\<rparr>\<rparr>) =
   Some \<lparr>upd_path = ''m'', upd_manifest = no_manifest\<lparr>Latest := ''2''\<rparr>\<rparr>"
  using update_manifest_last_good [of "\<lparr>upd_path = ''m'', upd_manifest = no_manifest\<lparr>Latest := ''2''\<rparr>\<rparr>"
      "\<lparr>Marshal = \<lambda>_. [], Unmarshal = \<lambda>_. None\<rparr>" "[(\<lparr>files = [], script = []\<rparr>, ''1'', ''linux'', ''amd64'')]"]
  by (simp add: last_good_def List.map_filter_def os_ReadFile_def)

end
