(* ===== verification/TLSUtil.thy ===== *)
theory TLSUtil
  imports Files
begin

text \<open>
  TLS material, \<^verbatim>\<open>internal/tlsutil/certs.go\<close>: the server's certificate, loaded or generated, and the
  client's verification settings. The packages \<open>crypto/ecdsa\<close>, \<open>crypto/x509\<close>, \<open>crypto/tls\<close>,
  \<open>encoding/pem\<close> and \<open>net.ParseIP\<close> are the fields of a \<open>tls_lib\<close>; \<open>tls_files_ok\<close> is the documented law
  that loading a pair from files is pairing their contents. Paths are \<open>/\<close>-separated; \<open>os.MkdirAll\<close>
  is an argument, \<open>os.Stat\<close> fails only for a missing file.
\<close>

section \<open>Definitions\<close>

datatype tls_error = KeyPairError | TLSMkdir | GenerateFailed | TLSWrite | CAMissing | NoCerts

text \<open>What \<open>GenerateSelfSigned\<close> puts into the certificate beside its constant fields.\<close>

record cert_template =
  SerialNumber :: nat
  NotBefore_t :: int
  NotAfter_t :: int
  IPAddresses :: "string list"
  DNSNames :: "string list"

record 'k tls_lib =
  ecdsa_GenerateKey :: "'k option"
  rand_Int :: "nat option"
  ParseIP :: "string \<Rightarrow> string option"
  CreateCertificate :: "cert_template \<Rightarrow> 'k \<Rightarrow> bytes option"
  MarshalECPrivateKey :: "'k \<Rightarrow> bytes option"
  EncodePEM :: "string \<Rightarrow> bytes \<Rightarrow> bytes"
  X509KeyPair :: "bytes \<Rightarrow> bytes \<Rightarrow> 'k option"
  has_certs :: "bytes \<Rightarrow> bool"

definition default_hosts :: "string list" where
  "default_hosts = [''localhost'', ''127.0.0.1'']"

text \<open>The loop over the hosts: an address goes to one list, a name to the other.\<close>

fun add_hosts :: "(string \<Rightarrow> string option) \<Rightarrow> string list \<Rightarrow> cert_template \<Rightarrow> cert_template" where
  "add_hosts parse [] t = t"
| "add_hosts parse (h # hs) t = add_hosts parse hs
     (case parse h of
        Some ip \<Rightarrow> t\<lparr>IPAddresses := IPAddresses t @ [ip]\<rparr>
      | None \<Rightarrow> t\<lparr>DNSNames := DNSNames t @ [h]\<rparr>)"

definition GenerateSelfSigned :: "'k tls_lib \<Rightarrow> int \<Rightarrow> string list \<Rightarrow> int \<Rightarrow> (bytes \<times> bytes) option" where
  "GenerateSelfSigned T now hosts validFor =
     Option.bind (ecdsa_GenerateKey T) (\<lambda>key.
     Option.bind (rand_Int T) (\<lambda>serial.
       let tmpl = \<lparr>SerialNumber = serial, NotBefore_t = now - 3600000000000, NotAfter_t = now + validFor,
                   IPAddresses = [], DNSNames = []\<rparr>;
           tmpl = add_hosts (ParseIP T) (if length hosts = 0 then default_hosts else hosts) tmpl
       in Option.bind (CreateCertificate T tmpl key) (\<lambda>der.
          Option.bind (MarshalECPrivateKey T key) (\<lambda>keyBytes.
            Some (EncodePEM T ''CERTIFICATE'' der, EncodePEM T ''EC PRIVATE KEY'' keyBytes)))))"

definition os_Stat :: "string \<Rightarrow> disk \<Rightarrow> bool" where
  "os_Stat path d \<longleftrightarrow> os_ReadFile path d \<noteq> None"

definition LoadX509KeyPair :: "'k tls_lib \<Rightarrow> string \<Rightarrow> string \<Rightarrow> disk \<Rightarrow> tls_error + 'k" where
  "LoadX509KeyPair T certPath keyPath d =
     (case (os_ReadFile certPath d, os_ReadFile keyPath d) of
        (Some c, Some k) \<Rightarrow> (case X509KeyPair T c k of None \<Rightarrow> Inl KeyPairError | Some p \<Rightarrow> Inr p)
      | _ \<Rightarrow> Inl KeyPairError)"

definition EnsureServerCert ::
    "'k tls_lib \<Rightarrow> int \<Rightarrow> bool \<Rightarrow> string \<Rightarrow> string \<Rightarrow> string list \<Rightarrow> (disk, tls_error, 'k) go" where
  "EnsureServerCert T now mkdir_ok certPath0 keyPath0 hosts = (\<lambda>d.
     if certPath0 \<noteq> '''' \<and> keyPath0 \<noteq> '''' \<and> os_Stat certPath0 d \<and> os_Stat keyPath0 d
     then (LoadX509KeyPair T certPath0 keyPath0 d, d)
     else
       let certPath = (if certPath0 = '''' then ''data/ka/tls/server.crt'' else certPath0);
           keyPath = (if keyPath0 = '''' then ''data/ka/tls/server.key'' else keyPath0)
       in if os_Stat certPath d \<and> os_Stat keyPath d then (LoadX509KeyPair T certPath keyPath d, d)
          else if \<not> mkdir_ok then (Inl TLSMkdir, d)
          else case GenerateSelfSigned T now hosts (365 * 24 * 3600000000000) of
            None \<Rightarrow> (Inl GenerateFailed, d)
          | Some (certPEM, keyPEM) \<Rightarrow>
            (case os_WriteFile certPath certPEM d of
               (False, d1) \<Rightarrow> (Inl TLSWrite, d1)
             | (True, d1) \<Rightarrow>
               (case os_WriteFile keyPath keyPEM d1 of
                  (False, d2) \<Rightarrow> (Inl TLSWrite, d2)
                | (True, d2) \<Rightarrow>
                  (case X509KeyPair T certPEM keyPEM of
                     None \<Rightarrow> (Inl KeyPairError, d2)
                   | Some p \<Rightarrow> (Inr p, d2)))))"

text \<open>The fields of \<open>tls.Config\<close> that the program sets; \<open>RootCAs\<close> is the PEM text, empty for the system's.\<close>

record tls_Config =
  InsecureSkipVerify :: bool
  RootCAs :: "bytes option"
  MinVersion_t :: nat

definition ClientTLS :: "(bytes \<Rightarrow> bool) \<Rightarrow> string \<Rightarrow> bool \<Rightarrow> disk \<Rightarrow> tls_error + tls_Config" where
  "ClientTLS certs caFile insecure d =
     (let cfg = \<lparr>InsecureSkipVerify = False, RootCAs = None, MinVersion_t = 0x0303\<rparr> in
      if insecure then Inr (cfg\<lparr>InsecureSkipVerify := True\<rparr>)
      else if caFile = '''' then Inr cfg
      else case os_ReadFile caFile d of
        None \<Rightarrow> Inl CAMissing
      | Some b \<Rightarrow> if \<not> certs b then Inl NoCerts else Inr (cfg\<lparr>RootCAs := Some b\<rparr>))"

section \<open>Lemmas\<close>

lemma add_hosts_split:
  "IPAddresses (add_hosts p hs t) = IPAddresses t @ List.map_filter p hs"
  "DNSNames (add_hosts p hs t) = DNSNames t @ filter (\<lambda>h. p h = None) hs"
  by (induction hs arbitrary: t) (auto simp: List.map_filter_def split: option.splits)

text \<open>Unless the caller asks for it, the client never skips verification, and a pinned file is the only root.\<close>

lemma ClientTLS_verifies:
  assumes "ClientTLS certs caFile False d = Inr cfg"
  shows "\<not> InsecureSkipVerify cfg \<and> MinVersion_t cfg = 0x0303 \<and>
    (caFile \<noteq> '''' \<longrightarrow> RootCAs cfg = os_ReadFile caFile d \<and> RootCAs cfg \<noteq> None)"
  using assms by (auto simp: ClientTLS_def Let_def split: option.splits if_splits)

lemma load_pair_written:
  assumes "os_WriteFile c cPEM d = (True, d1)" "os_WriteFile k kPEM d1 = (True, d2)" "c \<noteq> k"
  shows "os_ReadFile c d2 = Some cPEM" "os_ReadFile k d2 = Some kPEM"
  using read_write_same [OF assms(1)] read_write_other [OF assms(2,3)] read_write_same [OF assms(2)] by simp_all

lemma EnsureServerCert_again:
  assumes "EnsureServerCert T now m certPath keyPath hosts d = (Inr p, d')"
    and "certPath \<noteq> ''''" "keyPath \<noteq> ''''" "certPath \<noteq> keyPath" and "X509KeyPair T' = X509KeyPair T"
  shows "EnsureServerCert T' now' m' certPath keyPath hosts' d' = (Inr p, d')"
proof (cases "os_Stat certPath d \<and> os_Stat keyPath d")
  case True
  then show ?thesis
    using assms by (auto simp: EnsureServerCert_def LoadX509KeyPair_def Let_def os_Stat_def split: option.splits)
next
  case False
  then obtain cPEM kPEM d1 where
    w: "os_WriteFile certPath cPEM d = (True, d1)" "os_WriteFile keyPath kPEM d1 = (True, d')"
    and x: "X509KeyPair T cPEM kPEM = Some p"
    using assms(1-3)
    by (auto simp: EnsureServerCert_def Let_def split: if_splits option.splits prod.splits bool.splits)
  from load_pair_written [OF w assms(4)] x assms(2,3,5) show ?thesis
    by (simp add: EnsureServerCert_def LoadX509KeyPair_def Let_def os_Stat_def)
qed

lemma EnsureServerCert_other:
  assumes "EnsureServerCert T now m certPath keyPath hosts d = (r, d')" "certPath \<noteq> ''''" "keyPath \<noteq> ''''"
    and "q \<noteq> certPath" "q \<noteq> keyPath"
  shows "os_ReadFile q d' = os_ReadFile q d"
  using assms
  by (auto simp: EnsureServerCert_def Let_def split: if_splits option.splits prod.splits bool.splits
      dest!: read_write_other [OF _ assms(4)] read_write_other [OF _ assms(5)])

section \<open>Properties\<close>

text \<open>
  The server keeps its certificate: whenever \<open>EnsureServerCert\<close> succeeds, with a certificate
  path and a key path that differ, the next start on the same disk returns the same pair, at any
  later time and with any random numbers, and writes nothing.
\<close>

theorem server_cert_stable:
  assumes "EnsureServerCert T now m certPath keyPath hosts d = (Inr p, d')"
    and "certPath \<noteq> ''''" "keyPath \<noteq> ''''" "certPath \<noteq> keyPath" and "X509KeyPair T' = X509KeyPair T"
  shows "EnsureServerCert T' now' m' certPath keyPath hosts' d' = (Inr p, d')"
  using EnsureServerCert_again [OF assms] .

definition toy_tls :: "nat tls_lib" where
  "toy_tls = \<lparr>ecdsa_GenerateKey = Some 7, rand_Int = Some 1, ParseIP = (\<lambda>_. None),
     CreateCertificate = (\<lambda>_ k. Some [word_of_nat k]), MarshalECPrivateKey = (\<lambda>k. Some [word_of_nat k]),
     EncodePEM = (\<lambda>_ b. b), X509KeyPair = (\<lambda>c k. if c = k then Some (unat (hd k)) else None),
     has_certs = (\<lambda>b. b \<noteq> [])\<rparr>"

theorem server_cert_stable_witness:
  "EnsureServerCert (toy_tls\<lparr>ecdsa_GenerateKey := Some 8\<rparr>) 99 False ''crt'' ''key'' []
     (snd (EnsureServerCert toy_tls 0 True ''crt'' ''key'' [] \<lparr>files = [], script = []\<rparr>)) =
   (Inr 7, \<lparr>files = [(''crt'', [7]), (''key'', [7])], script = []\<rparr>)"
proof -
  have "EnsureServerCert toy_tls 0 True ''crt'' ''key'' [] \<lparr>files = [], script = []\<rparr> =
      (Inr 7, \<lparr>files = [(''crt'', [7]), (''key'', [7])], script = []\<rparr>)"
    by (simp add: EnsureServerCert_def GenerateSelfSigned_def toy_tls_def os_Stat_def os_ReadFile_def os_WriteFile_def Let_def)
  from server_cert_stable [OF this, of "toy_tls\<lparr>ecdsa_GenerateKey := Some 8\<rparr>" 99 False "[]"] this show ?thesis
    by simp
qed

text \<open>
  A certificate whose key file is missing is overwritten: the start replaces the operator's
  certificate by a self-signed one without an error.
\<close>

theorem orphan_cert_overwritten:
  assumes "certPath \<noteq> ''''" "keyPath \<noteq> ''''" "certPath \<noteq> keyPath" "\<not> os_Stat keyPath d" "script d = []"
    and "GenerateSelfSigned T now hosts (365 * 24 * 3600000000000) = Some (cPEM, kPEM)"
  shows "os_ReadFile certPath (snd (EnsureServerCert T now True certPath keyPath hosts d)) = Some cPEM"
proof -
  obtain d1 where w1: "os_WriteFile certPath cPEM d = (True, d1)" "script d1 = []"
    using assms(5) by (simp add: os_WriteFile_def)
  obtain d2 where w2: "os_WriteFile keyPath kPEM d1 = (True, d2)"
    using w1(2) by (simp add: os_WriteFile_def)
  have "snd (EnsureServerCert T now True certPath keyPath hosts d) = d2"
    using assms w1(1) w2 by (simp add: EnsureServerCert_def Let_def split: option.split)
  with load_pair_written [OF w1(1) w2 assms(3)] show ?thesis by simp
qed

theorem orphan_cert_overwritten_witness:
  "os_ReadFile ''crt'' (snd (EnsureServerCert toy_tls 0 True ''crt'' ''key'' []
     \<lparr>files = [(''crt'', [1, 2, 3])], script = []\<rparr>)) = Some [7]"
  using orphan_cert_overwritten [of "''crt''" "''key''" "\<lparr>files = [(''crt'', [1, 2, 3])], script = []\<rparr>" toy_tls 0 "[]"]
  by (simp add: os_Stat_def os_ReadFile_def GenerateSelfSigned_def toy_tls_def Let_def)

end
