(* ===== verification/KAClient.thy ===== *)
theory KAClient
  imports Server Update TLSUtil
begin

text \<open>
  The client side of the key authority, \<^verbatim>\<open>internal/kaapi/client.go\<close>, and the server behind its
  rate limiter, \<open>HandlerWithLimit\<close> of \<^verbatim>\<open>internal/kaapi/server.go\<close>. The HTTP transport is an argument:
  it takes a request and a call and returns the response, or nothing when the exchange failed.
  JSON carries the typed bodies both ways, so requests and answers are those values here; a body
  of another type than the route's is a decoding error.
\<close>

section \<open>Definitions\<close>

subsection \<open>The limited server\<close>

definition HandlerWithLimit ::
    "'s Store \<Rightarrow> crypto_lib \<Rightarrow> ed25519_lib \<Rightarrow> (bytes \<Rightarrow> bytes) \<Rightarrow> time \<Rightarrow> Request \<Rightarrow> call
     \<Rightarrow> RateLimiter option \<times> 's Server \<Rightarrow> response \<times> RateLimiter option \<times> 's Server" where
  "HandlerWithLimit S L E sha256 now r c = (\<lambda>(lim, st).
     case lim of
       None \<Rightarrow> (case serve S L E sha256 now r c st of (resp, st') \<Rightarrow> (resp, None, st'))
     | Some l \<Rightarrow> (case Middleware now r l of
           (Inl code, l') \<Rightarrow> (writeErr code ''rate_limited'', Some l', st)
         | (Inr r', l') \<Rightarrow> (case serve S L E sha256 now r' c st of (resp, st') \<Rightarrow> (resp, Some l', st'))))"

subsection \<open>client.go\<close>

text \<open>Of the HTTP client the TLS configuration of its transport is kept; without one it is the default.\<close>

record Client =
  BaseURL_k :: string
  DeviceID_k :: string
  AdminToken_k :: string
  SignKey_k :: bytes
  TLS_k :: "tls_Config option"

record ClientOptions =
  Insecure_k :: bool
  CAFile_k :: string
  TLSConfig_k :: "tls_Config option"

datatype client_error = TransportFailed | ServerError nat string | HTTPStatus nat | DecodeFailed

type_synonym 'w http = "Request \<Rightarrow> call \<Rightarrow> 'w \<Rightarrow> response option \<times> 'w"

definition client_transport :: "ClientOptions \<Rightarrow> tls_Config option" where
  "client_transport opts =
     (if TLSConfig_k opts \<noteq> None then TLSConfig_k opts
      else if Insecure_k opts then Some \<lparr>InsecureSkipVerify = True, RootCAs = None, MinVersion_t = 0x0303\<rparr>
      else if CAFile_k opts \<noteq> '''' then Some \<lparr>InsecureSkipVerify = False, RootCAs = None, MinVersion_t = 0x0303\<rparr>
      else None)"

definition NewClientOpts :: "string \<Rightarrow> string \<Rightarrow> ClientOptions \<Rightarrow> Client" where
  "NewClientOpts baseURL deviceID opts =
     \<lparr>BaseURL_k = baseURL, DeviceID_k = deviceID, AdminToken_k = '''', SignKey_k = [], TLS_k = client_transport opts\<rparr>"

definition NewClient :: "string \<Rightarrow> string \<Rightarrow> bool \<Rightarrow> Client" where
  "NewClient baseURL deviceID insecure =
     NewClientOpts baseURL deviceID \<lparr>Insecure_k = insecure, CAFile_k = '''', TLSConfig_k = None\<rparr>"

definition SetSignKey :: "bytes \<Rightarrow> Client \<Rightarrow> Client" where
  "SetSignKey sk c = c\<lparr>SignKey_k := sk\<rparr>"

text \<open>The headers that \<open>doJSON\<close> sets; the network fills in the rest.\<close>

definition client_request :: "Client \<Rightarrow> string \<Rightarrow> bool \<Rightarrow> Request" where
  "client_request c path admin =
     \<lparr>r_Path = path,
      r_Authorization = (if admin \<and> AdminToken_k c \<noteq> '''' then ''Bearer '' @ AdminToken_k c else ''''),
      r_XDeviceID = DeviceID_k c, r_XForwardedFor = '''', r_RemoteAddr = '''', r_QueryDeviceID = '''', r_TLS = False\<rparr>"

definition doJSON :: "'w http \<Rightarrow> Client \<Rightarrow> string \<Rightarrow> call \<Rightarrow> bool \<Rightarrow> ('w, client_error, body) go" where
  "doJSON http c path call admin = (\<lambda>w.
     case http (client_request c path admin) call w of
       (None, w') \<Rightarrow> (Inl TransportFailed, w')
     | (Some (code, b), w') \<Rightarrow>
         (if code \<ge> 400 then
            (case b of ErrorBody e \<Rightarrow> if e \<noteq> '''' then Inl (ServerError code e) else Inl (HTTPStatus code)
             | _ \<Rightarrow> Inl (HTTPStatus code))
          else Inr b, w'))"

definition decode :: "(body \<Rightarrow> 'a option) \<Rightarrow> body \<Rightarrow> ('w, client_error, 'a) go" where
  "decode f b = (case f b of None \<Rightarrow> gerr DecodeFailed | Some x \<Rightarrow> gret x)"

definition client_Health :: "'w http \<Rightarrow> Client \<Rightarrow> ('w, client_error, HealthResponse) go" where
  "client_Health http c = gbind (doJSON http c ''/v1/health'' CHealth False)
     (decode (\<lambda>b. case b of HealthBody h \<Rightarrow> Some h | _ \<Rightarrow> None))"

definition client_Enroll :: "'w http \<Rightarrow> Client \<Rightarrow> EnrollRequest \<Rightarrow> ('w, client_error, EnrollResponse) go" where
  "client_Enroll http c req =
     (let useAdmin = (AdminToken_k c \<noteq> '''' \<and> VoucherCode_e req = '''') in
      gbind (doJSON http c ''/v1/enroll'' (CEnroll (Some req)) useAdmin)
        (decode (\<lambda>b. case b of EnrollBody e \<Rightarrow> Some e | _ \<Rightarrow> None)))"

definition client_CreateVoucher ::
    "'w http \<Rightarrow> Client \<Rightarrow> bytes \<Rightarrow> CreateVoucherRequest \<Rightarrow> ('w, client_error, CreateVoucherResponse) go" where
  "client_CreateVoucher http c rnd req = gbind (doJSON http c ''/v1/vouchers'' (CCreateVoucher rnd (Some req)) True)
     (decode (\<lambda>b. case b of VoucherBody v \<Rightarrow> Some v | _ \<Rightarrow> None))"

definition client_ListVouchers :: "'w http \<Rightarrow> Client \<Rightarrow> ('w, client_error, VoucherInfo list) go" where
  "client_ListVouchers http c = gbind (doJSON http c ''/v1/vouchers'' CListVouchers True)
     (decode (\<lambda>b. case b of VouchersBody vs \<Rightarrow> Some vs | _ \<Rightarrow> None))"

definition client_IssueKey :: "ed25519_lib \<Rightarrow> 'w http \<Rightarrow> Client \<Rightarrow> IssueRequest \<Rightarrow> ('w, client_error, IssueResponse) go" where
  "client_IssueKey E http c req0 =
     (let req = (if Profile_q req0 = '''' then req0\<lparr>Profile_q := ''strong''\<rparr> else req0);
          req = (if length (SignKey_k c) > 0 then req\<lparr>Signature_q :=
                   SignIssue E (SignKey_k c) (DeviceID_q req) (Nonce_q req) (ClientTime_q req) (Profile_q req)\<rparr>
                 else req)
      in gbind (doJSON http c ''/v1/key/issue'' (CIssue (Some req)) False)
           (decode (\<lambda>b. case b of IssueBody a \<Rightarrow> Some a | _ \<Rightarrow> None)))"

definition client_Status :: "'w http \<Rightarrow> Client \<Rightarrow> ('w, client_error, StatusResponse) go" where
  "client_Status http c = gbind (doJSON http c ''/v1/key/status'' CStatus False)
     (decode (\<lambda>b. case b of StatusBody s \<Rightarrow> Some s | _ \<Rightarrow> None))"

definition client_Revoke :: "'w http \<Rightarrow> Client \<Rightarrow> RevokeRequest \<Rightarrow> ('w, client_error, unit) go" where
  "client_Revoke http c req = gbind (doJSON http c ''/v1/revoke'' (CRevoke (Some req)) True) (\<lambda>_. gret ())"

text \<open>\<open>strings.NewReplacer(" ", "%20", "+", "%2B")\<close>, and the query string of \<open>CheckUpdate\<close>.\<close>

definition urlQueryEscape :: "string \<Rightarrow> string" where
  "urlQueryEscape s = concat (map (\<lambda>c. if c = CHR '' '' then ''%20'' else if c = CHR ''+'' then ''%2B'' else [c]) s)"

definition update_query :: "string \<Rightarrow> string \<Rightarrow> string \<Rightarrow> string" where
  "update_query current osName arch =
     ''/v1/update/check?current='' @ urlQueryEscape current @ ''&os='' @ urlQueryEscape osName @
     ''&arch='' @ urlQueryEscape arch"

section \<open>A transport without faults\<close>

text \<open>
  Every request reaches the server, at the times of the list, and every answer comes back. A
  request after the last time is lost.
\<close>

definition direct ::
    "'s Store \<Rightarrow> crypto_lib \<Rightarrow> ed25519_lib \<Rightarrow> (bytes \<Rightarrow> bytes) \<Rightarrow> (RateLimiter option \<times> 's Server \<times> time list) http" where
  "direct S L E sha256 = (\<lambda>r c (lim, st, times).
     case times of
       [] \<Rightarrow> (None, lim, st, [])
     | now # rest \<Rightarrow>
         (case HandlerWithLimit S L E sha256 now r c (lim, st) of (resp, lim', st') \<Rightarrow> (Some resp, lim', st', rest)))"

section \<open>Lemmas\<close>

text \<open>The option \<open>CAFile\<close> has no effect on whom the client trusts: the file is never read.\<close>

lemma CAFile_ignored:
  "TLSConfig_k opts = None \<Longrightarrow> \<not> Insecure_k opts \<Longrightarrow> client_transport opts \<in> {None, Some \<lparr>InsecureSkipVerify = False, RootCAs = None, MinVersion_t = 0x0303\<rparr>}"
  by (simp add: client_transport_def)

lemma HandlerWithLimit_off:
  "HandlerWithLimit S L E sha256 now r c (None, st) =
     (fst (serve S L E sha256 now r c st), None, snd (serve S L E sha256 now r c st))"
  by (simp add: HandlerWithLimit_def split: prod.split)

lemma direct_off:
  "direct S L E sha256 r c (None, st, now # rest) =
     (Some (fst (serve S L E sha256 now r c st)), None, snd (serve S L E sha256 now r c st), rest)"
  by (simp add: direct_def HandlerWithLimit_off)

lemma client_Health_direct:
  "client_Health (direct S L E sha256) c (None, st, now # rest) =
     (Inr \<lparr>Status_h = ''ok'', Time_h = Unix now, EpochID_h = EpochID now, TLS_h = TLSActive st\<rparr>, None, st, rest)"
  by (simp add: client_Health_def doJSON_def direct_off serve_def handleHealth_def client_request_def
      gbind_def decode_def)

text \<open>The request as it is signed and sent.\<close>

definition signed_request :: "ed25519_lib \<Rightarrow> Client \<Rightarrow> IssueRequest \<Rightarrow> IssueRequest" where
  "signed_request E c req = req\<lparr>Signature_q :=
     SignIssue E (SignKey_k c) (DeviceID_q req) (Nonce_q req) (ClientTime_q req) (Profile_q req)\<rparr>"

lemma client_IssueKey_direct:
  assumes "length (SignKey_k c) > 0" "Profile_q req \<noteq> ''''"
  shows "client_IssueKey E' (direct S L E sha256) c req (None, st, now # rest) =
    (case handleIssue S L E now (client_request c ''/v1/key/issue'' False) (Some (signed_request E' c req)) st of
       ((code, b), st') \<Rightarrow>
         (if code \<ge> 400 then
            (case b of ErrorBody e \<Rightarrow> if e \<noteq> '''' then Inl (ServerError code e) else Inl (HTTPStatus code)
             | _ \<Rightarrow> Inl (HTTPStatus code))
          else (case b of IssueBody a \<Rightarrow> Inr a | _ \<Rightarrow> Inl DecodeFailed), None, st', rest))"
  using assms
  by (auto simp: client_IssueKey_def signed_request_def Let_def doJSON_def direct_off serve_def gbind_def decode_def
      split: prod.splits body.splits)

end
