(* ===== verification/Node.thy ===== *)
theory Node
  imports Agent KeyStore KAClient TLSUtil
begin

text \<open>
  The node program, \<^verbatim>\<open>cmd/coe-node/main.go\<close>, with its configuration, \<^verbatim>\<open>internal/config/config.go\<close>: how a
  device reads its configuration and identity, enrolls, obtains its key from the key authority,
  stores it and hands it to the agent's hub, and how the hourly refresh replaces it. \<open>log.Fatalf\<close> is
  an error value. Flags are arguments; the identity file and the files of the key store are two
  disks, because the store's files are named by their base names. The network to the key
  authority is the argument \<open>http\<close> of the client.
\<close>

section \<open>Definitions\<close>

subsection \<open>config.go\<close>

text \<open>A \<open>Peer\<close> is a pair of device name and address.\<close>

type_synonym Peer = "string \<times> string"

type_synonym path = string

record NodeConfig =
  DeviceID_n :: string
  IdentityPath_n :: string
  StoreDir_n :: string
  KAURL_n :: string
  KACAFile_n :: string
  KAInsecure_n :: bool
  ListenAddr_n :: string
  APIAddr_n :: string
  APIToken_n :: string
  Peers_n :: "Peer list"
  Profile_n :: string
  AdminToken_n :: string
  VoucherCode_n :: string
  STUN_n :: "string list"
  TURNURLs_n :: "string list"
  TURNUser_n :: string
  TURNPass_n :: string
  SignalURL_n :: string

definition zero_NodeConfig :: NodeConfig where
  "zero_NodeConfig = \<lparr>DeviceID_n = '''', IdentityPath_n = '''', StoreDir_n = '''', KAURL_n = '''', KACAFile_n = '''',
     KAInsecure_n = False, ListenAddr_n = '''', APIAddr_n = '''', APIToken_n = '''', Peers_n = [], Profile_n = '''',
     AdminToken_n = '''', VoucherCode_n = '''', STUN_n = [], TURNURLs_n = [], TURNUser_n = '''', TURNPass_n = '''',
     SignalURL_n = ''''\<rparr>"

definition LoadNode :: "NodeConfig json \<Rightarrow> string \<Rightarrow> disk \<Rightarrow> store_error + NodeConfig" where
  "LoadNode J path d =
     (case os_ReadFile path d of
        None \<Rightarrow> Inl FileMissing
      | Some b \<Rightarrow> (case Unmarshal J b of
            None \<Rightarrow> Inl BadJSON
          | Some c \<Rightarrow> Inr (if Profile_n c = '''' then c\<lparr>Profile_n := ''strong''\<rparr> else c)))"

definition SaveNode :: "NodeConfig json \<Rightarrow> string \<Rightarrow> NodeConfig \<Rightarrow> (disk, store_error, unit) go" where
  "SaveNode J path c = (\<lambda>d. case os_WriteFile path (Marshal J c) d of
     (ok, d') \<Rightarrow> (if ok then Inr () else Inl FileWrite, d'))"

subsection \<open>Configuration of the program\<close>

datatype node_error =
    ConfigFailed store_error
  | NoDeviceID
  | BadPeer
  | IdentityFailed store_error
  | IdentityMismatch
  | ClientFailed tls_error
  | SignKeyFailed
  | EnrollNeedsCode
  | KAFailed client_error
  | StoreFailed store_error
  | ConnectFailed agent_error
  | NothingToServe

definition override :: "string \<Rightarrow> string \<Rightarrow> string" where
  "override flag v = (if flag \<noteq> '''' then flag else v)"

definition default_ka :: "NodeConfig \<Rightarrow> NodeConfig" where
  "default_ka cfg = cfg\<lparr>
     KAURL_n := (if KAURL_n cfg = '''' then ''https://127.0.0.1:8443'' else KAURL_n cfg),
     KACAFile_n := (if KACAFile_n cfg = '''' then ''data/ka/tls/server.crt'' else KACAFile_n cfg)\<rparr>"

definition default_paths :: "NodeConfig \<Rightarrow> NodeConfig" where
  "default_paths cfg = cfg\<lparr>
     IdentityPath_n := (if IdentityPath_n cfg = '''' then ''data/devices/'' @ DeviceID_n cfg @ ''/identity.json''
        else IdentityPath_n cfg),
     StoreDir_n := (if StoreDir_n cfg = '''' then ''data/devices/'' @ DeviceID_n cfg @ ''/keys''
        else StoreDir_n cfg)\<rparr>"

definition loadConfig ::
    "NodeConfig json \<Rightarrow> disk \<Rightarrow> path \<Rightarrow> string \<Rightarrow> path \<Rightarrow> path \<Rightarrow> string \<Rightarrow> string \<Rightarrow> string \<Rightarrow> string \<Rightarrow> string
     \<Rightarrow> node_error + NodeConfig" where
  "loadConfig J d cfgPath deviceID identity store ka listen api apiTok admin =
     (case (if cfgPath \<noteq> '''' then LoadNode J cfgPath d else Inr zero_NodeConfig) of
        Inl e \<Rightarrow> Inl (ConfigFailed e)
      | Inr cfg \<Rightarrow>
        (let cfg = default_ka (cfg\<lparr>DeviceID_n := override deviceID (DeviceID_n cfg),
               IdentityPath_n := override identity (IdentityPath_n cfg), StoreDir_n := override store (StoreDir_n cfg),
               KAURL_n := override ka (KAURL_n cfg), ListenAddr_n := override listen (ListenAddr_n cfg),
               APIAddr_n := override api (APIAddr_n cfg), APIToken_n := override apiTok (APIToken_n cfg),
               AdminToken_n := override admin (AdminToken_n cfg)\<rparr>)
         in if DeviceID_n cfg = '''' then Inl NoDeviceID else Inr (default_paths cfg)))"

fun parsePeer :: "string \<Rightarrow> (string \<times> string) option" where
  "parsePeer [] = None"
| "parsePeer (c # cs) = (if c = CHR ''@'' then Some ([], cs)
     else map_option (\<lambda>(i, a). (c # i, a)) (parsePeer cs))"

text \<open>The program has its own copy of the splitter, written as a loop.\<close>

definition node_splitCSV :: "string \<Rightarrow> string list" where
  "node_splitCSV s = fold (\<lambda>p out. let p = TrimSpace p in if p \<noteq> '''' then out @ [p] else out) (strings_Split (CHR '','') s) []"

definition loadICEFromEnv :: "(string \<Rightarrow> string) \<Rightarrow> NodeConfig \<Rightarrow> NodeConfig" where
  "loadICEFromEnv env cfg = cfg\<lparr>
     STUN_n := (if env ''COE_STUN'' \<noteq> '''' \<and> length (STUN_n cfg) = 0 then node_splitCSV (env ''COE_STUN'') else STUN_n cfg),
     TURNURLs_n := (if env ''COE_TURN_URLS'' \<noteq> '''' \<and> length (TURNURLs_n cfg) = 0
        then node_splitCSV (env ''COE_TURN_URLS'') else TURNURLs_n cfg),
     TURNUser_n := (if env ''COE_TURN_USER'' \<noteq> '''' \<and> TURNUser_n cfg = '''' then env ''COE_TURN_USER'' else TURNUser_n cfg),
     TURNPass_n := (if env ''COE_TURN_PASS'' \<noteq> '''' \<and> TURNPass_n cfg = '''' then env ''COE_TURN_PASS'' else TURNPass_n cfg),
     SignalURL_n := (if env ''COE_SIGNAL_URL'' \<noteq> '''' \<and> SignalURL_n cfg = '''' then env ''COE_SIGNAL_URL''
        else SignalURL_n cfg)\<rparr>"

text \<open>The values of the flags \<open>-ka\<close> and \<open>-ka-ca\<close> when they are not given.\<close>

definition flag_ka :: string where
  "flag_ka = ''https://127.0.0.1:8443''"

definition flag_ka_ca :: string where
  "flag_ka_ca = ''data/ka/tls/server.crt''"

text \<open>What \<open>main\<close> does to the configuration after \<open>loadConfig\<close>.\<close>

definition main_config :: "(string \<Rightarrow> string) \<Rightarrow> string \<Rightarrow> bool \<Rightarrow> string \<Rightarrow> string \<Rightarrow> NodeConfig \<Rightarrow> NodeConfig" where
  "main_config env kaCA kaInsecure voucher stun cfg =
     loadICEFromEnv env (cfg\<lparr>
       KACAFile_n := override kaCA (KACAFile_n cfg),
       KAInsecure_n := (kaInsecure \<or> KAInsecure_n cfg),
       VoucherCode_n := override voucher (VoucherCode_n cfg),
       STUN_n := (if stun \<noteq> '''' then node_splitCSV stun else STUN_n cfg)\<rparr>)"

subsection \<open>Keys from the key authority\<close>

record 'w node =
  nd_fs :: disk
  nd_keys :: disk
  nd_clock :: clock
  nd_net :: 'w

record node_lib =
  lib_ed :: ed25519_lib
  lib_identity :: "diskIdentity json"
  lib_record :: "store_record json"
  lib_certs :: "bytes \<Rightarrow> bool"
  lib_mkdir :: bool

text \<open>The local clock at the four places where \<open>issueKey\<close> reads it.\<close>

record issue_times =
  t_health :: time
  t_hint :: time
  t_send :: time
  t_answer :: time

definition issueKey ::
    "ed25519_lib \<Rightarrow> 'w http \<Rightarrow> issue_times \<Rightarrow> bytes \<Rightarrow> Client \<Rightarrow> NodeConfig \<Rightarrow> (clock \<times> 'w, client_error, IssueResponse) go" where
  "issueKey E http t nonce c cfg = (\<lambda>(ck, w).
     let (ck1, w1) = (case client_Health http c w of
           (Inr h, w1) \<Rightarrow> (if Time_h h > 0 then ApplyKATime (t_health t) (Time_h h) ck else ck, w1)
         | (Inl e, w1) \<Rightarrow> (ck, w1));
         req = \<lparr>DeviceID_q = DeviceID_n cfg, EpochHint_q = CurrentEpoch (t_hint t) ck1, Nonce_q = nonce,
                ClientTime_q = Unix (CorrectedNow (t_send t) ck1), Profile_q = Profile_n cfg, Signature_q = []\<rparr>
     in case client_IssueKey E http c req w1 of
          (Inl e, w2) \<Rightarrow> (Inl e, ck1, w2)
        | (Inr resp, w2) \<Rightarrow>
            (Inr resp, if KATime_s resp > 0 then ApplyKATime (t_answer t) (KATime_s resp) ck1 else ck1, w2))"

definition newKAClient :: "(bytes \<Rightarrow> bool) \<Rightarrow> NodeConfig \<Rightarrow> disk \<Rightarrow> tls_error + Client" where
  "newKAClient certs cfg d =
     (case (if KAInsecure_n cfg then ClientTLS certs '''' True d else ClientTLS certs (KACAFile_n cfg) False d) of
        Inl e \<Rightarrow> Inl e
      | Inr tlsCfg \<Rightarrow> Inr ((NewClientOpts (KAURL_n cfg) (DeviceID_n cfg) \<lparr>Insecure_k = False, CAFile_k = '''', TLSConfig_k = Some tlsCfg\<rparr>)
          \<lparr>AdminToken_k := AdminToken_n cfg\<rparr>))"

definition key_meta :: "IssueResponse \<Rightarrow> Meta" where
  "key_meta iss = \<lparr>EpochID_m = EpochID_s iss, KeySerial_m = KeySerial_s iss, NotBefore_m = NotBefore_s iss,
     NotAfter_m = NotAfter_s iss, GraceSec_m = i64_of_u64 (GraceSeconds_s iss), Profile_m = Profile_s iss,
     DeviceID_m = DeviceID_s iss\<rparr>"

definition key_creds :: "NodeConfig \<Rightarrow> Identity \<Rightarrow> IssueResponse \<Rightarrow> LocalCreds" where
  "key_creds cfg i iss = \<lparr>DeviceID_l = DeviceID_n cfg, IdentitySK_l = PrivateKey_i i, IdentityPK_l = PublicKey_i i,
     GeneralKey_l = GeneralKey_s iss, KeySerial_l = KeySerial_s iss, EpochID_l = EpochID_s iss,
     Profile_l = Profile_s iss\<rparr>"

subsection \<open>runAgent\<close>

text \<open>The identity, the effective profile and the client with its signing key.\<close>

definition node_login ::
    "node_lib \<Rightarrow> NodeConfig \<Rightarrow> ('w node, node_error, Identity \<times> NodeConfig \<times> Client) go" where
  "node_login lib cfg = (\<lambda>n.
     case LoadIdentity (lib_identity lib) (lib_mkdir lib) (IdentityPath_n cfg) (nd_fs n) of
       (Inl e, fs) \<Rightarrow> (Inl (IdentityFailed e), n\<lparr>nd_fs := fs\<rparr>)
     | (Inr i, fs) \<Rightarrow>
       (if DeviceID_i i \<noteq> DeviceID_n cfg then Inl IdentityMismatch
        else
          let cfg = cfg\<lparr>Profile_n := (if Profile_i i = '''' then ''strong'' else Profile_i i)\<rparr> in
          case newKAClient (lib_certs lib) cfg fs of
            Inl e \<Rightarrow> Inl (ClientFailed e)
          | Inr c \<Rightarrow>
            if length (SignPrivate_i i) > 0 then
              (case SignPrivateKey (lib_ed lib) i of
                 Inl _ \<Rightarrow> Inl SignKeyFailed
               | Inr sk \<Rightarrow> Inr (i, cfg, SetSignKey sk c))
            else Inr (i, cfg, c), n\<lparr>nd_fs := fs\<rparr>))"

definition node_enroll ::
    "node_lib \<Rightarrow> 'w http \<Rightarrow> Identity \<Rightarrow> NodeConfig \<Rightarrow> Client \<Rightarrow> ('w node, node_error, EnrollResponse) go" where
  "node_enroll lib http i cfg c = (\<lambda>n.
     if VoucherCode_n cfg = '''' \<and> AdminToken_n cfg = '''' then (Inl EnrollNeedsCode, n)
     else
       let c = (if VoucherCode_n cfg \<noteq> '''' then c\<lparr>AdminToken_k := ''''\<rparr> else c);
           req = \<lparr>DeviceID_e = DeviceID_i i, IdentityPK_e = PublicKey_i i, SignPK_e = SignPublic_i i, OrgID_e = OrgID_i i,
                  Label_e = '''', EnrollmentCounter_e = EnrollmentCounter_i i, Profile_e = Profile_n cfg,
                  VoucherCode_e = VoucherCode_n cfg\<rparr>
       in case client_Enroll http c req (nd_net n) of
            (Inl e, w) \<Rightarrow> (Inl (KAFailed e), n\<lparr>nd_net := w\<rparr>)
          | (Inr er, w) \<Rightarrow>
              (Inr er, n\<lparr>nd_net := w,
                 nd_fs := snd (SaveIdentity (lib_identity lib) (lib_mkdir lib) (IdentityPath_n cfg) i (nd_fs n))\<rparr>))"

text \<open>
  The start of the agent: a key is issued and stored, keys older than the previous epoch are
  wiped, and the hub gets the credentials, the peers and the ICE settings.
\<close>

definition node_hub :: "NodeConfig \<Rightarrow> Identity \<Rightarrow> IssueResponse \<Rightarrow> AgentHub" where
  "node_hub cfg i iss =
     SetICE \<lparr>STUN_b = STUN_n cfg, TURNURLs_b = TURNURLs_n cfg, TURNUser_b = TURNUser_n cfg, TURNPass_b = TURNPass_n cfg\<rparr>
       (LoadPeers (Peers_n cfg) (NewAgentHub (key_creds cfg i iss)))"

definition node_start ::
    "node_lib \<Rightarrow> 'w http \<Rightarrow> issue_times \<Rightarrow> bytes \<Rightarrow> Identity \<Rightarrow> NodeConfig \<Rightarrow> Client
     \<Rightarrow> ('w node, node_error, IssueResponse \<times> AgentHub) go" where
  "node_start lib http t nonce i cfg c = (\<lambda>n.
     case NewFileStore (lib_mkdir lib) of
       Inl e \<Rightarrow> (Inl (StoreFailed e), n)
     | Inr _ \<Rightarrow>
       (case issueKey (lib_ed lib) http t nonce c cfg (nd_clock n, nd_net n) of
          (Inl e, ck, w) \<Rightarrow> (Inl (KAFailed e), n\<lparr>nd_clock := ck, nd_net := w\<rparr>)
        | (Inr iss, ck, w) \<Rightarrow>
          (case PutGeneral (lib_record lib) (EpochID_s iss) (GeneralKey_s iss) (key_meta iss) (nd_keys n) of
             (Inl e, d) \<Rightarrow> (Inl (StoreFailed e), n\<lparr>nd_clock := ck, nd_net := w, nd_keys := d\<rparr>)
           | (Inr _, d) \<Rightarrow>
             (let d' = (if EpochID_s iss \<ge> 2 then snd (WipeBefore (EpochID_s iss - 1) (Some (os_ReadDir d)) d) else d)
              in (Inr (iss, node_hub cfg i iss), n\<lparr>nd_clock := ck, nd_net := w, nd_keys := d'\<rparr>)))))"

text \<open>The mode \<open>-peer\<close>: connect, send one message, wait for an answer, close.\<close>

definition one_shot ::
    "crypto_lib \<Rightarrow> codec \<Rightarrow> local_env \<Rightarrow> string \<Rightarrow> string \<Rightarrow> (AgentHub, node_error, InboxMsg option) go" where
  "one_shot L J w peer message = (\<lambda>h.
     case parsePeer peer of
       None \<Rightarrow> (Inl BadPeer, h)
     | Some (pid, addr) \<Rightarrow>
       (case Connect L J (env_now w) (env_dial w) pid addr h of
          (Inl e, h1) \<Rightarrow> (Inl (ConnectFailed e), h1)
        | (Inr _, h1) \<Rightarrow>
          (case hub_Send L J pid (bytes_of message) h1 of
             (Inl e, h2) \<Rightarrow> (Inl (ConnectFailed e), h2)
           | (Inr _, h2) \<Rightarrow>
             (case WaitInbox L J (takeWhile (\<lambda>(t, p). t < env_now w + 5000000000) (env_ticks w)) h2 of
                (m, h3) \<Rightarrow> (Inr m, CloseAll J h3)))))"

text \<open>How \<open>runAgent\<close> ends: in agent mode it starts serving with the hub and the key it was issued.\<close>

datatype node_outcome =
    Enrolled EnrollResponse
  | SentOnce "InboxMsg option"
  | Serving IssueResponse AgentHub

definition runAgent ::
    "node_lib \<Rightarrow> crypto_lib \<Rightarrow> codec \<Rightarrow> 'w http \<Rightarrow> local_env \<Rightarrow> issue_times \<Rightarrow> bytes \<Rightarrow> NodeConfig \<Rightarrow> bool \<Rightarrow> string \<Rightarrow> string
     \<Rightarrow> ('w node, node_error, node_outcome) go" where
  "runAgent lib L J http env t nonce cfg0 enroll peer message =
     gbind (node_login lib cfg0) (\<lambda>(i, cfg, c).
       if enroll then gbind (node_enroll lib http i cfg c) (\<lambda>er. gret (Enrolled er))
       else gbind (node_start lib http t nonce i cfg c) (\<lambda>(iss, hub).
         if peer \<noteq> '''' then glift (map_sum id SentOnce (fst (one_shot L J env peer message hub)))
         else if ListenAddr_n cfg = '''' \<and> APIAddr_n cfg = '''' then gerr NothingToServe
         else gret (Serving iss hub)))"

text \<open>One turn of the hourly refresh: the key in force, the hub and the node.\<close>

definition refresh ::
    "node_lib \<Rightarrow> 'w http \<Rightarrow> issue_times \<Rightarrow> bytes \<Rightarrow> Identity \<Rightarrow> NodeConfig \<Rightarrow> Client
     \<Rightarrow> IssueResponse \<times> AgentHub \<times> 'w node \<Rightarrow> IssueResponse \<times> AgentHub \<times> 'w node" where
  "refresh lib http t nonce i cfg c = (\<lambda>(cur, hub, n).
     case issueKey (lib_ed lib) http t nonce c cfg (nd_clock n, nd_net n) of
       (Inl e, ck, w) \<Rightarrow> (cur, hub, n\<lparr>nd_clock := ck, nd_net := w\<rparr>)
     | (Inr iss, ck, w) \<Rightarrow>
       (let n' = n\<lparr>nd_clock := ck, nd_net := w\<rparr> in
        if EpochID_s iss \<noteq> EpochID_s cur \<or> KeySerial_s iss \<noteq> KeySerial_s cur then
          (iss, SetCreds (key_creds cfg i iss) hub,
           n'\<lparr>nd_keys := snd (PutGeneral (lib_record lib) (EpochID_s iss) (GeneralKey_s iss) (key_meta iss) (nd_keys n))\<rparr>)
        else (cur, hub, n')))"

section \<open>Lemmas\<close>

lemma parsePeer_exact:
  "parsePeer s = Some (i, a) \<longleftrightarrow> s = i @ CHR ''@'' # a \<and> CHR ''@'' \<notin> set i"
proof (induction s arbitrary: i)
  case (Cons x s)
  then show ?case by (cases i) auto
qed simp

lemma node_splitCSV_splitCSV: "node_splitCSV = splitCSV"
proof
  have "fold (\<lambda>p out. let p = TrimSpace p in if p \<noteq> '''' then out @ [p] else out) ps out = out @ filter (\<lambda>p. p \<noteq> '''') (map TrimSpace ps)" for ps out
    by (induction ps arbitrary: out) (simp_all add: Let_def)
  then show "node_splitCSV s = splitCSV s" for s by (simp add: node_splitCSV_def splitCSV_def)
qed

lemma LoadNode_SaveNode:
  assumes "json_ok V J" "V c" "Profile_n c \<noteq> ''''" "SaveNode J path c d = (Inr (), d')"
  shows "LoadNode J path d' = Inr c"
proof -
  have "os_WriteFile path (Marshal J c) d = (True, d')"
    using assms(4) by (auto simp: SaveNode_def split: prod.splits if_splits)
  then show ?thesis using assms(1-3) read_write_same by (fastforce simp: LoadNode_def json_ok_def)
qed

text \<open>Unless it is told not to, the node trusts exactly the certificates of the configured file.\<close>

lemma newKAClient_verifies:
  assumes "newKAClient certs cfg d = Inr c" "\<not> KAInsecure_n cfg" "KACAFile_n cfg \<noteq> ''''"
  shows "\<exists>tls pem. TLS_k c = Some tls \<and> os_ReadFile (KACAFile_n cfg) d = Some pem \<and> RootCAs tls = Some pem \<and>
    \<not> InsecureSkipVerify tls \<and> MinVersion_t tls = 0x0303"
  using assms by (auto simp: newKAClient_def ClientTLS_def NewClientOpts_def client_transport_def Let_def split: sum.splits option.splits if_splits)

text \<open>A configuration that was accepted names the device and all the places the node uses.\<close>

lemma loadConfig_complete:
  assumes "loadConfig J d p deviceID identity store ka listen api apiTok admin = Inr cfg"
  shows "DeviceID_n cfg \<noteq> ''''" "IdentityPath_n cfg \<noteq> ''''" "StoreDir_n cfg \<noteq> ''''" "KAURL_n cfg \<noteq> ''''" "KACAFile_n cfg \<noteq> ''''"
  using assms
  by (auto simp: loadConfig_def Let_def default_paths_def default_ka_def split: sum.splits if_splits)

subsection \<open>Clocks\<close>

text \<open>After the health answer the local clock runs ahead of the authority's by the same seconds as before.\<close>

lemma synced_clock:
  assumes "0 < ka" "\<bar>ka - Unix t\<bar> \<le> 7200" "clockOffset ck = 0 \<or> ka \<noteq> Unix t"
  shows "Unix (CorrectedNow u (ApplyKATime t ka ck)) = Unix u + (ka - Unix t)"
proof (cases "ka = Unix t")
  case True
  then have "ApplyKATime t ka ck = ck" by (simp add: ApplyKATime_def Let_def Second_def wrap64_def)
  with True assms(3) show ?thesis by (simp add: CorrectedNow_def ClockOffset_def)
next
  case False
  define d where "d = ka - Unix t"
  have d: "1 \<le> \<bar>d\<bar>" "\<bar>d\<bar> \<le> 7200" using assms(2) False by (auto simp: d_def)
  then have w: "wrap64 d = d" "wrap64 (d * 1000000000) = d * 1000000000"
    by (auto intro!: wrap64_id simp: is_i64_def)
  have "clockOffset (ApplyKATime t ka ck) = d * 1000000000"
    using assms(1) d unfolding ApplyKATime_def Let_def Second_def Hour_def SetClockOffset_def d_def [symmetric]
    by (auto simp: w)
  then have "Unix (CorrectedNow u (ApplyKATime t ka ck)) = Unix u + d"
    by (simp add: CorrectedNow_def ClockOffset_def Unix_shift)
  then show ?thesis by (simp add: d_def)
qed

lemma CheckSkew_near:
  assumes "\<bar>c - s\<bar> \<le> 120"
  shows "CheckSkew c s = Inr ()"
proof -
  have "wrap64 (c - s) = c - s" using assms by (intro wrap64_id) (auto simp: is_i64_def)
  then show ?thesis using assms by (simp add: CheckSkew_Inr)
qed

lemma epoch_hint_near:
  assumes "sane_time a" "sane_time b" "\<bar>Unix a - Unix b\<bar> \<le> 120"
  shows "epoch_hint_ok (EpochID a) (EpochID b)"
proof -
  have u: "i64_of_u64 (EpochID a) = day_of a" "i64_of_u64 (EpochID b) = day_of b"
    using i64_of_u64_small [of "EpochID a"] i64_of_u64_small [of "EpochID b"]
      uint_EpochID [OF assms(1)] uint_EpochID [OF assms(2)] day_of_bounds [OF assms(1)] day_of_bounds [OF assms(2)]
    by simp_all
  have m: "0 \<le> Unix a mod 86400" "Unix a mod 86400 < 86400" "0 \<le> Unix b mod 86400" "Unix b mod 86400 < 86400"
    by simp_all
  have d: "\<bar>day_of a - day_of b\<bar> \<le> 1"
    using day_of_split [of a] day_of_split [of b] assms(3) m by linarith
  then have "is_i64 (day_of a - day_of b)" "is_i64 (day_of b - day_of a)" by (auto simp: is_i64_def)
  then show ?thesis using d by (auto simp: epoch_hint_ok_def Let_def u)
qed

text \<open>What the clocks have to satisfy for a key to be issued.\<close>

definition clocks_ok :: "issue_times \<Rightarrow> time \<Rightarrow> time \<Rightarrow> clock \<Rightarrow> bool" where
  "clocks_ok t T1 T2 ck \<longleftrightarrow>
     172800 \<le> Unix T1 \<and> Unix T1 \<le> Unix T2 \<and> Unix T2 < 2 ^ 61 \<and> \<bar>Unix T1 - Unix (t_health t)\<bar> \<le> 7200 \<and>
     (clockOffset ck = 0 \<or> Unix T1 \<noteq> Unix (t_health t)) \<and>
     \<bar>(Unix (t_hint t) - Unix (t_health t)) - (Unix T2 - Unix T1)\<bar> \<le> 120 \<and>
     \<bar>(Unix (t_send t) - Unix (t_health t)) - (Unix T2 - Unix T1)\<bar> \<le> 120"

lemma clocks_ok_accepted:
  assumes "clocks_ok t T1 T2 ck"
  defines "ck1 \<equiv> ApplyKATime (t_health t) (Unix T1) ck"
  shows "CheckSkew (Unix (CorrectedNow (t_send t) ck1)) (Unix T2) = Inr ()"
    and "epoch_hint_ok (CurrentEpoch (t_hint t) ck1) (EpochID T2)"
proof -
  have u: "Unix (CorrectedNow x ck1) = Unix x + (Unix T1 - Unix (t_health t))" for x
    unfolding ck1_def using assms(1) by (intro synced_clock) (auto simp: clocks_ok_def)
  show "CheckSkew (Unix (CorrectedNow (t_send t) ck1)) (Unix T2) = Inr ()"
    using assms(1) by (intro CheckSkew_near) (auto simp: u clocks_ok_def)
  have n: "\<bar>Unix (CorrectedNow (t_hint t) ck1) - Unix T2\<bar> \<le> 120"
    using assms(1) by (auto simp: u clocks_ok_def)
  moreover have "sane_time T2" "sane_time (CorrectedNow (t_hint t) ck1)"
    using assms(1) n by (auto simp: clocks_ok_def sane_time_def)
  ultimately show "epoch_hint_ok (CurrentEpoch (t_hint t) ck1) (EpochID T2)"
    unfolding CurrentEpoch_def by (intro epoch_hint_near)
qed

subsection \<open>Issuing a key over a transport without faults\<close>

text \<open>The device of a configuration, enrolled with the public half of the client's signing key.\<close>

definition enrolled_for :: "'s Store \<Rightarrow> ed25519_lib \<Rightarrow> Client \<Rightarrow> NodeConfig \<Rightarrow> DeviceRecord \<Rightarrow> 's Server \<Rightarrow> bool" where
  "enrolled_for S E c cfg rec st \<longleftrightarrow>
     st_Get S (DeviceID_n cfg) (Registry_f st) = Some rec \<and> \<not> Revoked rec \<and>
     SignPK rec = ed25519_Public E (SignKey_k c) \<and>
     TrimSpace (DeviceID_n cfg) = DeviceID_n cfg \<and> DeviceID_n cfg \<noteq> '''' \<and> DeviceID_k c = DeviceID_n cfg \<and>
     Profile_n cfg \<noteq> ''''"

lemma authenticate_enrolled:
  assumes "ed25519_correct E" "length seed = 32" "SignKey_k c = ed25519_NewKeyFromSeed E seed"
    and "enrolled_for S E c cfg rec st" "DeviceID_q req = DeviceID_n cfg" "Profile_q req = Profile_n cfg"
  shows "authenticateIssue S E (client_request c path False) (signed_request E c req) st =
    Inr (DeviceID_n cfg, rec, Profile_n cfg)"
proof -
  have "length (ed25519_Sign E (SignKey_k c) m) = 64 \<and> length (SignPK rec) = 32 \<and>
      ed25519_Verify E (SignPK rec) m (ed25519_Sign E (SignKey_k c) m)" for m
    using assms(1-4) by (auto simp: ed25519_correct_def enrolled_for_def Let_def)
  then show ?thesis
    using assms(4-6)
    by (auto simp: authenticateIssue_def Let_def client_request_def signed_request_def SignIssue_def VerifyIssue_def
        enrolled_for_def)
qed

lemma issueKey_direct:
  assumes "ed25519_correct E" "length seed = 32" "SignKey_k c = ed25519_NewKeyFromSeed E seed"
    and "enrolled_for S E c cfg rec st" "clocks_ok t T1 T2 ck"
    and "issue_key L (Master st) (Profile_n cfg) (EpochID T2) rec = Inr k"
    and "st_MarkIssued S (DeviceID_n cfg) (EpochID T2) (Registry_f st) = (Inr serial, g)"
  shows "\<exists>iss ck' st'. issueKey E (direct S L E sha) t nonce c cfg (ck, None, st, [T1, T2]) =
      (Inr iss, ck', None, st', []) \<and> DeviceID_s iss = DeviceID_n cfg \<and> EpochID_s iss = EpochID T2 \<and>
    KeySerial_s iss = serial \<and> GeneralKey_s iss = k \<and> Profile_s iss = Profile_n cfg \<and>
    (NotBefore_s iss, NotAfter_s iss) = EpochBounds (EpochID T2) \<and>
    GraceSeconds_s iss = u64_of_i64 DefaultGraceSeconds \<and> Registry_f st' = g"
proof -
  define ck1 where "ck1 = ApplyKATime (t_health t) (Unix T1) ck"
  define req where "req = \<lparr>DeviceID_q = DeviceID_n cfg, EpochHint_q = CurrentEpoch (t_hint t) ck1, Nonce_q = nonce,
    ClientTime_q = Unix (CorrectedNow (t_send t) ck1), Profile_q = Profile_n cfg, Signature_q = []\<rparr>"
  have pos: "0 < Unix T1" using assms(5) by (simp add: clocks_ok_def)
  have sel: "ClientTime_q (signed_request E c req) = Unix (CorrectedNow (t_send t) ck1)"
    "EpochHint_q (signed_request E c req) = CurrentEpoch (t_hint t) ck1"
    by (simp_all add: signed_request_def req_def)
  have auth: "authenticateIssue S E (client_request c ''/v1/key/issue'' False) (signed_request E c req) st =
      Inr (DeviceID_n cfg, rec, Profile_n cfg)"
    using assms(1-4) by (intro authenticate_enrolled) (simp_all add: req_def)
  obtain a st' where a: "handleIssue S L E T2 (client_request c ''/v1/key/issue'' False) (Some (signed_request E c req)) st =
      ((200, IssueBody a), st')"
    and b: "DeviceID_s a = DeviceID_n cfg" "EpochID_s a = EpochID T2" "KeySerial_s a = serial" "GeneralKey_s a = k"
      "Profile_s a = Profile_n cfg" "(NotBefore_s a, NotAfter_s a) = EpochBounds (EpochID T2)"
      "GraceSeconds_s a = u64_of_i64 DefaultGraceSeconds" "Registry_f st' = g"
    using handleIssue_ok [OF auth _ _ assms(6,7)] clocks_ok_accepted [OF assms(5)] unfolding sel ck1_def by auto
  have k: "length (SignKey_k c) > 0" using assms(1-3) by (auto simp: ed25519_correct_def Let_def)
  have "Profile_q req \<noteq> ''''" using assms(4) by (simp add: req_def enrolled_for_def)
  then have "client_IssueKey E (direct S L E sha) c req (None, st, [T2]) = (Inr a, None, st', [])"
    using k a by (simp add: client_IssueKey_direct)
  then have "fst (issueKey E (direct S L E sha) t nonce c cfg (ck, None, st, [T1, T2])) = Inr a \<and>
      snd (snd (issueKey E (direct S L E sha) t nonce c cfg (ck, None, st, [T1, T2]))) = (None, st', [])"
    using pos by (simp add: issueKey_def client_Health_direct Let_def ck1_def [symmetric] req_def [symmetric])
  with b show ?thesis
    by (metis prod.collapse)
qed

lemma hub_creds_node_hub [simp]: "hub_creds (node_hub cfg i iss) = key_creds cfg i iss"
  by (simp add: node_hub_def SetICE_def NewAgentHub_def)

lemma wf_key_meta:
  assumes "ascii (DeviceID_s iss)" "ascii (Profile_s iss)" "sane_time T"
    and "(NotBefore_s iss, NotAfter_s iss) = EpochBounds (EpochID T)"
    and "GraceSeconds_s iss = u64_of_i64 DefaultGraceSeconds"
  shows "wf_meta (key_meta iss)"
proof -
  have "is_i64 (NotBefore_s iss)" "is_i64 (NotAfter_s iss)"
    using assms(4) day_of_bounds [OF assms(3)] EpochBounds_EpochID [OF assms(3)] by (auto simp: is_i64_def)
  moreover have "is_i64 (i64_of_u64 (GraceSeconds_s iss))"
    using assms(5) i64_of_u64_u64_of_i64 [of DefaultGraceSeconds] by (simp add: is_i64_def DefaultGraceSeconds_def)
  ultimately show ?thesis using assms(1,2) by (simp add: wf_meta_def key_meta_def)
qed

text \<open>The key store after a key was put and the old ones were wiped.\<close>

lemma put_then_wipe:
  assumes "json_ok wf_record J" "wf_meta m" "key \<noteq> []" "script d = []" "2 \<le> e"
  shows "\<exists>d1. PutGeneral J e key m d = (Inr (), d1) \<and>
    (let d2 = snd (WipeBefore (e - 1) (Some (os_ReadDir d1)) d1) in
       GetGeneral J e d2 = Inr (key, m\<lparr>EpochID_m := e\<rparr>) \<and>
       (\<forall>f. f < e - 1 \<longrightarrow> GetGeneral J f d2 = Inl FileMissing))"
proof -
  obtain d1 where p: "PutGeneral J e key m d = (Inr (), d1)" and s: "script d1 = []"
    using assms(3,4) by (simp add: PutGeneral_def Protect_def os_WriteFile_def)
  let ?w = "WipeBefore (e - 1) (Some (os_ReadDir d1)) d1"
  have "e \<noteq> 0" using assms(5) by (auto simp: word_le_nat_alt)
  then have "\<not> e < e - 1" by (simp add: word_less_nat_alt unat_minus_one)
  moreover have "GetGeneral J e d1 = Inr (key, m\<lparr>EpochID_m := e\<rparr>)"
    using PutGeneral_read [OF assms(1,2) p] by simp
  moreover have "GetGeneral J f (snd ?w) = (if f < e - 1 then Inl FileMissing else GetGeneral J f d1)" for f
    using WipeBefore_read [OF s, of "e - 1" "fst ?w" "snd ?w" J f] by simp
  ultimately show ?thesis using p by (simp add: Let_def)
qed

text \<open>The start of a node whose device is enrolled.\<close>

lemma node_start_issues:
  assumes "ed25519_correct (lib_ed lib)" "length seed = 32" "SignKey_k c = ed25519_NewKeyFromSeed (lib_ed lib) seed"
    and "enrolled_for S (lib_ed lib) c cfg rec st" "clocks_ok t T1 T2 (nd_clock n)"
    and "issue_key L (Master st) (Profile_n cfg) (EpochID T2) rec = Inr k" "k \<noteq> []"
    and "st_MarkIssued S (DeviceID_n cfg) (EpochID T2) (Registry_f st) = (Inr serial, g)"
    and "nd_net n = (None, st, [T1, T2])" "script (nd_keys n) = []" "lib_mkdir lib" "json_ok wf_record (lib_record lib)"
    and "ascii (DeviceID_n cfg)" "ascii (Profile_n cfg)"
  shows "\<exists>iss hub n'. node_start lib (direct S L (lib_ed lib) sha) t nonce i cfg c n = (Inr (iss, hub), n') \<and>
    GeneralKey_s iss = k \<and> KeySerial_s iss = serial \<and> EpochID_s iss = EpochID T2 \<and>
    GetGeneral (lib_record lib) (EpochID T2) (nd_keys n') = Inr (k, key_meta iss) \<and>
    (\<forall>e. e < EpochID T2 - 1 \<longrightarrow> GetGeneral (lib_record lib) e (nd_keys n') = Inl FileMissing) \<and>
    hub_creds hub = key_creds cfg i iss \<and> Registry_f (fst (snd (nd_net n'))) = g"
proof -
  have sane: "sane_time T2" using assms(5) by (simp add: clocks_ok_def sane_time_def)
  have "2 \<le> day_of T2" using assms(5) by (auto simp: clocks_ok_def day_of_def)
  then have two: "2 \<le> EpochID T2" by (simp add: word_le_def uint_EpochID [OF sane])
  obtain iss ck' st' where i: "issueKey (lib_ed lib) (direct S L (lib_ed lib) sha) t nonce c cfg (nd_clock n, nd_net n) =
      (Inr iss, ck', None, st', [])"
    and f: "DeviceID_s iss = DeviceID_n cfg" "EpochID_s iss = EpochID T2" "KeySerial_s iss = serial" "GeneralKey_s iss = k"
      "Profile_s iss = Profile_n cfg" "(NotBefore_s iss, NotAfter_s iss) = EpochBounds (EpochID T2)"
      "GraceSeconds_s iss = u64_of_i64 DefaultGraceSeconds" "Registry_f st' = g"
    using issueKey_direct [OF assms(1-6,8)] unfolding assms(9) by blast
  have "wf_meta (key_meta iss)"
    using f(1,5) assms(13,14) by (intro wf_key_meta [OF _ _ sane f(6,7)]) simp_all
  from put_then_wipe [OF assms(12) this assms(7,10) two] obtain d1 where
    p: "PutGeneral (lib_record lib) (EpochID T2) k (key_meta iss) (nd_keys n) = (Inr (), d1)"
    and g: "let d2 = snd (WipeBefore (EpochID T2 - 1) (Some (os_ReadDir d1)) d1) in
       GetGeneral (lib_record lib) (EpochID T2) d2 = Inr (k, (key_meta iss)\<lparr>EpochID_m := EpochID T2\<rparr>) \<and>
       (\<forall>f. f < EpochID T2 - 1 \<longrightarrow> GetGeneral (lib_record lib) f d2 = Inl FileMissing)"
    by blast
  have "(key_meta iss)\<lparr>EpochID_m := EpochID T2\<rparr> = key_meta iss" by (simp add: key_meta_def f(2))
  then show ?thesis
    using i f p g two assms(11) by (simp add: node_start_def NewFileStore_def Let_def)
qed

section \<open>Properties\<close>

text \<open>
  C18: An enrolled device that is not revoked gets its key at the start: over any store that grants
  the serial, when its signing key belongs to the enrolled public key and its clock is within two
  hours of the authority's, the node obtains exactly the key the authority derives for it; the key
  is on disk with its metadata and in the credentials of the hub, and keys of epochs before the
  previous one are gone.
\<close>

theorem node_obtains_key:
  assumes "ed25519_correct (lib_ed lib)" "length seed = 32" "SignKey_k c = ed25519_NewKeyFromSeed (lib_ed lib) seed"
    and "enrolled_for S (lib_ed lib) c cfg rec st" "clocks_ok t T1 T2 (nd_clock n)"
    and "issue_key L (Master st) (Profile_n cfg) (EpochID T2) rec = Inr k" "k \<noteq> []"
    and "st_MarkIssued S (DeviceID_n cfg) (EpochID T2) (Registry_f st) = (Inr serial, g)"
    and "nd_net n = (None, st, [T1, T2])" "script (nd_keys n) = []" "lib_mkdir lib" "json_ok wf_record (lib_record lib)"
    and "ascii (DeviceID_n cfg)" "ascii (Profile_n cfg)"
  shows "\<exists>iss hub n'. node_start lib (direct S L (lib_ed lib) sha) t nonce i cfg c n = (Inr (iss, hub), n') \<and>
    GeneralKey_s iss = k \<and> KeySerial_s iss = serial \<and> EpochID_s iss = EpochID T2 \<and>
    GetGeneral (lib_record lib) (EpochID T2) (nd_keys n') = Inr (k, key_meta iss) \<and>
    (\<forall>e. e < EpochID T2 - 1 \<longrightarrow> GetGeneral (lib_record lib) e (nd_keys n') = Inl FileMissing) \<and>
    hub_creds hub = key_creds cfg i iss \<and> Registry_f (fst (snd (nd_net n'))) = g"
  using node_start_issues [OF assms] .

definition sample_config :: NodeConfig where
  "sample_config = zero_NodeConfig\<lparr>DeviceID_n := ''dev'', Profile_n := ''strong''\<rparr>"

definition sample_client :: Client where
  "sample_client = \<lparr>BaseURL_k = '''', DeviceID_k = ''dev'', AdminToken_k = '''', SignKey_k = replicate 64 3, TLS_k = None\<rparr>"

definition sample_lib :: node_lib where
  "sample_lib = \<lparr>lib_ed = toy_ed25519, lib_identity = identity_json, lib_record = record_json, lib_certs = (\<lambda>_. True),
     lib_mkdir = True\<rparr>"

definition sample_node :: "int \<Rightarrow> (RateLimiter option \<times> sql_db Server \<times> time list) node" where
  "sample_node off = \<lparr>nd_fs = \<lparr>files = [], script = []\<rparr>, nd_keys = \<lparr>files = [], script = []\<rparr>,
     nd_clock = \<lparr>clockOffset = off\<rparr>, nd_net = (None, server_with (sample_db signing_device), [sample_now, sample_now])\<rparr>"

text \<open>A local clock that differs from the authority's by a constant.\<close>

definition shifted_times :: "int \<Rightarrow> issue_times" where
  "shifted_times d = \<lparr>t_health = sample_now + d, t_hint = sample_now + d, t_send = sample_now + d, t_answer = sample_now + d\<rparr>"

lemma sample_enrolled:
  "SignKey_k sample_client = ed25519_NewKeyFromSeed toy_ed25519 (replicate 32 3)"
  "enrolled_for (sql_Store id) toy_ed25519 sample_client sample_config signing_device
     (server_with (sample_db signing_device))"
proof -
  show "SignKey_k sample_client = ed25519_NewKeyFromSeed toy_ed25519 (replicate 32 3)"
    by (simp add: sample_client_def toy_ed25519_def flip: replicate_add)
  have "sql_Get ''dev'' (sample_db signing_device) = Some signing_device"
    using sample_state(4) [of signing_device] by (simp add: signing_device_sel)
  then show "enrolled_for (sql_Store id) toy_ed25519 sample_client sample_config signing_device
     (server_with (sample_db signing_device))"
    by (simp add: enrolled_for_def sql_Store_def sample_client_def sample_config_def zero_NodeConfig_def
        signing_device_sel toy_ed25519_def TrimSpace_def is_space_def)
qed

definition sample_disk_identity :: diskIdentity where
  "sample_disk_identity = \<lparr>DeviceID_d = ''dev'', EnrollmentCounter_d = 1, PublicKey_d = replicate 32 2,
     SignPublic_d = replicate 32 3, EncPrivateKey_d = [], EncSignKey_d = [], PrivateKey_d = replicate 32 5,
     SignPrivate_d = replicate 64 3, OrgID_d = '''', Profile_d = ''strong''\<rparr>"

lemma sample_day_key:
  "\<exists>k. issue_key xor_lib (replicate 32 9) ''strong'' (EpochID sample_now) signing_device = Inr k \<and> k \<noteq> []"
  by (simp add: issue_key_def DeriveGeneralKey_def HKDF_def xor_lib_def)

lemma sample_ready:
  obtains k db where
    "issue_key xor_lib (Master (server_with (sample_db signing_device))) (Profile_n sample_config) (EpochID sample_now) signing_device = Inr k"
    "k \<noteq> []" "st_MarkIssued (sql_Store id) (DeviceID_n sample_config) (EpochID sample_now)
       (Registry_f (server_with (sample_db signing_device))) = (Inr 8, db)"
proof -
  obtain k where k: "issue_key xor_lib (replicate 32 9) ''strong'' (EpochID sample_now) signing_device = Inr k" "k \<noteq> []"
    using sample_day_key by blast
  obtain db where "sql_MarkIssued ''dev'' (EpochID sample_now) (sample_db signing_device) = (Inr 8, db)"
    using sample_sql_mark by blast
  with k that show thesis by (auto simp: sample_config_def sql_Store_def)
qed

lemma sample_lib_sel:
  "lib_ed sample_lib = toy_ed25519" "lib_record sample_lib = record_json" "lib_mkdir sample_lib"
  by (simp_all add: sample_lib_def)

lemma sample_node_sel:
  "nd_net (sample_node 0) = (None, server_with (sample_db signing_device), [sample_now, sample_now])" "script (nd_keys (sample_node 0)) = []"
  "clocks_ok (shifted_times (3600 * 10 ^ 9)) sample_now sample_now (nd_clock (sample_node 0))"
  by (simp_all add: sample_node_def clocks_ok_def shifted_times_def sample_now_def Unix_def)

lemma sample_config_ascii: "ascii (DeviceID_n sample_config)" "ascii (Profile_n sample_config)"
  by (simp_all add: ascii_def sample_config_def)

theorem node_obtains_key_witness:
  "\<exists>iss hub n'. node_start sample_lib (direct (sql_Store id) xor_lib toy_ed25519 id) (shifted_times (3600 * 10 ^ 9)) [1]
     (identity_of_disk sample_disk_identity) sample_config sample_client (sample_node 0) = (Inr (iss, hub), n') \<and>
     KeySerial_s iss = 8"
proof (rule sample_ready)
  fix k db
  assume k: "issue_key xor_lib (Master (server_with (sample_db signing_device))) (Profile_n sample_config) (EpochID sample_now) signing_device = Inr k"
    "k \<noteq> []" "st_MarkIssued (sql_Store id) (DeviceID_n sample_config) (EpochID sample_now)
       (Registry_f (server_with (sample_db signing_device))) = (Inr 8, db)"
  show ?thesis
    using node_obtains_key [of sample_lib "replicate 32 3", unfolded sample_lib_sel(1,2), OF toy_ed25519_correct _ sample_enrolled
        sample_node_sel(3) k sample_node_sel(1,2) sample_lib_sel(3) record_json_ok sample_config_ascii] by fastforce
qed

text \<open>
  C40: A node whose system clock is set right after a correction was learned is locked out: while
  the local second equals the authority's, the old correction stays in force, the request is
  refused with \<open>clock_skew\<close>, and neither the clock state nor the store changes, so the next attempt
  fails in the same way.
\<close>

theorem clock_fix_locks_node_out:
  assumes "ed25519_correct E" "length seed = 32" "SignKey_k c = ed25519_NewKeyFromSeed E seed"
    and "enrolled_for S E c cfg rec st" "clockOffset ck = off * 1000000000" "120 < \<bar>off\<bar>" "\<bar>off\<bar> \<le> 7200"
    and "0 < Unix T1" "Unix (t_health t) = Unix T1" "Unix (t_send t) = Unix T2"
  shows "\<exists>st'. issueKey E (direct S L E sha) t nonce c cfg (ck, None, st, [T1, T2]) =
    (Inl (ServerError 400 ''clock_skew''), ck, None, st', []) \<and> Registry_f st' = Registry_f st"
proof -
  define req where "req = \<lparr>DeviceID_q = DeviceID_n cfg, EpochHint_q = CurrentEpoch (t_hint t) ck, Nonce_q = nonce,
    ClientTime_q = Unix (CorrectedNow (t_send t) ck), Profile_q = Profile_n cfg, Signature_q = []\<rparr>"
  have u: "Unix (CorrectedNow (t_send t) ck) = Unix T2 + off"
    using assms(5,10) by (simp add: CorrectedNow_def ClockOffset_def Unix_shift)
  have stale: "ApplyKATime (t_health t) (Unix T1) ck = ck"
    using assms(9) by (simp add: ApplyKATime_def Let_def Second_def wrap64_def)
  have "wrap64 off = off" using assms(7) by (intro wrap64_id) (auto simp: is_i64_def)
  then have skew: "CheckSkew (ClientTime_q (signed_request E c req)) (Unix T2) \<noteq> Inr ()"
    using assms(6,7) by (auto simp: CheckSkew_Inr signed_request_def req_def u)
  have auth: "authenticateIssue S E (client_request c ''/v1/key/issue'' False) (signed_request E c req) st =
      Inr (DeviceID_n cfg, rec, Profile_n cfg)"
    using assms(1-4) by (intro authenticate_enrolled) (simp_all add: req_def)
  have k: "length (SignKey_k c) > 0" using assms(1-3) by (auto simp: ed25519_correct_def Let_def)
  have p: "Profile_q req \<noteq> ''''" using assms(4) by (simp add: req_def enrolled_for_def)
  obtain st' where h: "handleIssue S L E T2 (client_request c ''/v1/key/issue'' False) (Some (signed_request E c req)) st =
      (writeErr 400 ''clock_skew'', st')" "Registry_f st' = Registry_f st"
    using skew auth by (simp add: handleIssue_def Let_def)
  then have "client_IssueKey E (direct S L E sha) c req (None, st, [T2]) =
      (Inl (ServerError 400 ''clock_skew''), None, st', [])"
    using k p by (simp add: client_IssueKey_direct writeErr_def)
  then show ?thesis
    using assms(8) h(2) by (simp add: issueKey_def client_Health_direct Let_def stale req_def [symmetric])
qed

theorem clock_fix_locks_node_out_witness:
  "fst (issueKey toy_ed25519 (direct (sql_Store id) xor_lib toy_ed25519 id) (shifted_times 0) [1] sample_client sample_config
     (\<lparr>clockOffset = 3600 * 1000000000\<rparr>, None, server_with (sample_db signing_device), [sample_now, sample_now])) =
   Inl (ServerError 400 ''clock_skew'')"
proof -
  have t: "Unix (t_health (shifted_times 0)) = Unix sample_now" "Unix (t_send (shifted_times 0)) = Unix sample_now"
    "0 < Unix sample_now"
    by (simp_all add: shifted_times_def sample_now_def Unix_def)
  show ?thesis
    using clock_fix_locks_node_out [OF toy_ed25519_correct _ sample_enrolled, of "\<lparr>clockOffset = 3600 * 1000000000\<rparr>" 3600
        sample_now "shifted_times 0" sample_now xor_lib id "[1]"] t by auto
qed

text \<open>
  The hourly refresh changes the key in force only to a key the authority has just answered,
  with the credentials of the hub following it, and keeps both when the request fails; but it
  wipes nothing: every key of another epoch stays readable in the store for as long as the node
  runs.
\<close>

lemma refresh_never_wipes:
  assumes "json_ok wf_record (lib_record lib)"
    and "refresh lib http t nonce i cfg c (cur, hub, n) = (cur', hub', n')"
    and "\<And>iss ck w. issueKey (lib_ed lib) http t nonce c cfg (nd_clock n, nd_net n) = (Inr iss, ck, w) \<Longrightarrow> wf_meta (key_meta iss)"
    and "hub_creds hub = key_creds cfg i cur"
  shows "hub_creds hub' = key_creds cfg i cur' \<and>
    (cur' = cur \<or> fst (issueKey (lib_ed lib) http t nonce c cfg (nd_clock n, nd_net n)) = Inr cur') \<and>
    (\<forall>f. f \<noteq> EpochID_s cur' \<longrightarrow> GetGeneral (lib_record lib) f (nd_keys n') = GetGeneral (lib_record lib) f (nd_keys n))"
proof (cases "issueKey (lib_ed lib) http t nonce c cfg (nd_clock n, nd_net n)")
  case (fields r ck w)
  show ?thesis
  proof (cases r)
    case (Inl e)
    then show ?thesis using assms(2,4) fields by (auto simp: refresh_def)
  next
    case (Inr iss)
    have "GetGeneral (lib_record lib) f (snd (PutGeneral (lib_record lib) (EpochID_s iss) (GeneralKey_s iss) (key_meta iss) (nd_keys n))) =
        GetGeneral (lib_record lib) f (nd_keys n)" if "f \<noteq> EpochID_s iss" for f
      using PutGeneral_read [OF assms(1) assms(3) surjective_pairing, of iss ck w] fields Inr that by blast
    then show ?thesis
      using assms(2,4) fields Inr by (auto simp: refresh_def Let_def SetCreds_def split: if_splits)
  qed
qed

lemma default_sel [simp]:
  "KAURL_n (default_paths c) = KAURL_n c" "KACAFile_n (default_paths c) = KACAFile_n c"
  "KAURL_n (default_ka c) = (if KAURL_n c = '''' then ''https://127.0.0.1:8443'' else KAURL_n c)"
  by (simp_all add: default_paths_def default_ka_def)

lemma main_config_sel [simp]:
  "KAURL_n (main_config env ca ins v stun c) = KAURL_n c" "KACAFile_n (main_config env ca ins v stun c) = override ca (KACAFile_n c)"
  by (simp_all add: main_config_def loadICEFromEnv_def)

lemma override_set: "flag \<noteq> '''' \<Longrightarrow> override flag v = flag"
  by (simp add: override_def)

lemma loadConfig_KAURL:
  assumes "loadConfig J d p deviceID identity store ka listen api apiTok admin = Inr cfg" "ka \<noteq> ''''"
  shows "KAURL_n cfg = ka"
proof (cases "if p \<noteq> '''' then LoadNode J p d else Inr zero_NodeConfig")
  case (Inr c)
  with assms(1) show ?thesis
    by (simp only: loadConfig_def sum.case Let_def sum.simps split: if_split_asm)
      (hypsubst, simp add: override_set [OF assms(2)] assms(2))+
qed (use assms(1) in \<open>simp only: loadConfig_def sum.case Inl_Inr_False\<close>)

text \<open>
  The configuration file cannot choose the key authority: because the flags \<open>-ka\<close> and \<open>-ka-ca\<close>
  have values even when they are not given, the URL and the certificate file of the configuration
  are replaced by these values at every start.
\<close>

theorem ka_settings_ignored:
  assumes "loadConfig J d cfgPath deviceID identity store flag_ka listen api apiTok admin = Inr cfg"
  shows "KAURL_n (main_config env flag_ka_ca ins voucher stun cfg) = flag_ka \<and>
    KACAFile_n (main_config env flag_ka_ca ins voucher stun cfg) = flag_ka_ca"
  using loadConfig_KAURL [OF assms] by (simp add: flag_ka_def flag_ka_ca_def override_def)

theorem ka_settings_ignored_witness:
  "\<exists>cfg. loadConfig \<lparr>Marshal = \<lambda>_. [], Unmarshal = \<lambda>_. Some (zero_NodeConfig\<lparr>DeviceID_n := ''dev'', KAURL_n := ''https://ka.example''\<rparr>)\<rparr>
      \<lparr>files = [(''c'', [])], script = []\<rparr> ''c'' '''' '''' '''' flag_ka '''' '''' '''' '''' = Inr cfg \<and>
    KAURL_n (main_config (\<lambda>_. '''') flag_ka_ca False '''' '''' cfg) = flag_ka"
proof -
  let ?J = "\<lparr>Marshal = \<lambda>_. [], Unmarshal = \<lambda>_. Some (zero_NodeConfig\<lparr>DeviceID_n := ''dev'', KAURL_n := ''https://ka.example''\<rparr>)\<rparr> :: NodeConfig json"
  let ?d = "\<lparr>files = [(''c'', [])], script = []\<rparr> :: disk"
  have "LoadNode ?J ''c'' ?d = Inr (zero_NodeConfig\<lparr>DeviceID_n := ''dev'', KAURL_n := ''https://ka.example'', Profile_n := ''strong''\<rparr>)"
    by (simp add: LoadNode_def os_ReadFile_def zero_NodeConfig_def)
  then obtain cfg where *: "loadConfig ?J ?d ''c'' '''' '''' '''' flag_ka '''' '''' '''' '''' = Inr cfg"
    by (simp add: loadConfig_def Let_def default_ka_def override_def)
  from ka_settings_ignored [OF *] * show ?thesis by blast
qed

end
