(* ===== verification/Onboarding.thy ===== *)
theory Onboarding
  imports Node
begin

text \<open>
  The way of a new device into the system, across the administrator's client, the server with its
  SQL store, the node's enrollment and the node's start: the lemmas that follow the state of the
  server through these calls.
\<close>

section \<open>A working database\<close>

lemma db_Exec_works: "stmts db = [] \<Longrightarrow> db_Exec stmt db = (case stmt db of None \<Rightarrow> (False, db) | Some db' \<Rightarrow> (True, db'))"
proof -
  assume "stmts db = []"
  then have "next_outcome (stmts db) = (True, [])" "db\<lparr>stmts := []\<rparr> = db" by simp_all
  then show ?thesis by (simp add: db_Exec_def Let_def split: option.split)
qed

section \<open>The administrator creates a voucher\<close>

text \<open>The code and the id that the server draws from the random bytes.\<close>

definition drawn_code :: "bytes \<Rightarrow> string" where
  "drawn_code rb = hex_EncodeToString (take 16 rb)"

definition drawn_id :: "bytes \<Rightarrow> string" where
  "drawn_id rb = hex_EncodeToString (take 8 (drop 16 rb))"

definition fresh_voucher :: "(bytes \<Rightarrow> bytes) \<Rightarrow> Voucher \<Rightarrow> sql_db \<Rightarrow> bool" where
  "fresh_voucher sha v db \<longleftrightarrow> (\<forall>row \<in> set (t_vouchers db). ID_v row \<noteq> ID_v v \<and> CodeHash_v row \<noteq> CodeHash_v v)"

lemma hex_nonempty: "bs \<noteq> [] \<Longrightarrow> hex_EncodeToString bs \<noteq> ''''"
  by (cases bs) (simp_all add: hex_EncodeToString_def)

lemma voucher_created:
  assumes "AdminTok st \<noteq> ''''" "AdminToken_k ca = AdminTok st" "Code_cv creq = ''''" "24 \<le> length rb"
    and "stmts (Registry_f st) = []"
    and nv: "nv = new_voucher sha T0 (drawn_id rb) (drawn_code rb) creq" and "fresh_voucher sha nv (Registry_f st)"
  shows "\<exists>v st'. client_CreateVoucher (direct (sql_Store sha) L E sha) ca rb creq (None, st, T0 # ts) = (Inr v, None, st', ts) \<and>
    Code_cr v = drawn_code rb \<and> Registry_f st' = (Registry_f st)\<lparr>t_vouchers := t_vouchers (Registry_f st) @ [nv]\<rparr> \<and>
    Master st' = Master st \<and> AdminTok st' = AdminTok st"
proof -
  let ?r = "client_request ca ''/v1/vouchers'' True"
  have adm: "adminOK st ?r" using assms(1,2) by (simp add: adminOK_def client_request_def)
  have g: "GenerateVoucherCode rb = (Some (drawn_code rb), drop 16 rb)"
    using assms(4) by (simp add: GenerateVoucherCode_def drawn_code_def)
  have i: "ID_v nv = drawn_id rb" "drawn_id rb \<noteq> ''''"
    using assms(4) hex_nonempty [of "take 8 (drop 16 rb)"] by (auto simp: nv new_voucher_def drawn_id_def Let_def)
  have a: "sql_AddVoucher nv (Registry_f st) = (Inr (), (Registry_f st)\<lparr>t_vouchers := t_vouchers (Registry_f st) @ [nv]\<rparr>)"
    using assms(5,7) i by (auto simp: sql_AddVoucher_def db_Exec_works fresh_voucher_def)
  have len: "\<not> length (drop 16 rb) < 8" using assms(4) by simp
  have v: "new_voucher sha T0 (hex_EncodeToString (take 8 (drop 16 rb))) (drawn_code rb) creq = nv"
    by (simp add: nv drawn_id_def)
  have "handleCreateVoucher (sql_Store sha) sha T0 rb ?r (Some creq) st =
      ((201, VoucherBody \<lparr>ID_cr = ID_v nv, Code_cr = drawn_code rb, MaxUses_cr = MaxUses_v nv, ExpiresAt_cr = ExpiresAt_v nv,
         Label_cr = Label_cv creq, Profile_cr = Profile_v nv, OrgID_cr = OrgID_cv creq\<rparr>),
       audit T0 (no_event\<lparr>Endpoint_a := ''/v1/vouchers'', ResultCode_a := 201, SrcIP_a := r_RemoteAddr ?r,
         Error_a := ''created:'' @ ID_v nv\<rparr>)
         (st\<lparr>Registry_f := (Registry_f st)\<lparr>t_vouchers := t_vouchers (Registry_f st) @ [nv]\<rparr>\<rparr>))"
    using adm g a assms(3) len by (simp add: handleCreateVoucher_def Let_def v sql_Store_def)
  then show ?thesis
    by (simp add: client_CreateVoucher_def doJSON_def direct_off serve_def gbind_def decode_def audit_def)
qed

section \<open>The device enrolls with the code\<close>

lemma find_append_new: "\<forall>x \<in> set xs. \<not> P x \<Longrightarrow> P y \<Longrightarrow> find P (xs @ [y]) = Some y"
  by (induction xs) auto

lemma voucher_redeemed:
  assumes "stmts db = []" "t_vouchers db = vs @ [nv]" "\<forall>row \<in> set vs. CodeHash_v row \<noteq> CodeHash_v nv"
    and "CodeHash_v nv = HashVoucherCode sha code" "voucher_check now nv = None"
  shows "\<exists>db'. sql_RedeemVoucher sha now code db = (Inr (voucher_used nv), db') \<and>
    t_devices db' = t_devices db \<and> stmts db' = [] \<and> t_meta db' = t_meta db"
proof -
  have "find (\<lambda>v. CodeHash_v v = HashVoucherCode sha code) (t_vouchers db) = Some nv"
    using assms(2-4) by (simp add: find_append_new)
  then show ?thesis using assms(1,5) by (simp add: sql_RedeemVoucher_def db_Exec_works Let_def)
qed

lemma device_enrolled_new:
  assumes "stmts db = []" "getLocked (DeviceID_e req) db = None" "enroll_check req = None"
  shows "sql_Enroll req db = (Inr (enroll_new req), db\<lparr>t_devices := t_devices db @ [enroll_new req]\<rparr>)"
proof -
  have "\<not> (\<exists>row \<in> set (t_devices db). DeviceID row = DeviceID_e req)"
    using assms(2) by (auto simp: getLocked_def find_None_iff)
  then show ?thesis using assms by (simp add: sql_Enroll_def Let_def db_Exec_works enroll_new_def)
qed

definition node_request :: "Identity \<Rightarrow> NodeConfig \<Rightarrow> EnrollRequest" where
  "node_request i cfg = \<lparr>DeviceID_e = DeviceID_i i, IdentityPK_e = PublicKey_i i, SignPK_e = SignPublic_i i, OrgID_e = OrgID_i i,
     Label_e = '''', EnrollmentCounter_e = EnrollmentCounter_i i, Profile_e = Profile_n cfg, VoucherCode_e = VoucherCode_n cfg\<rparr>"

lemma node_enrolled:
  assumes "AdminTok st \<noteq> ''''" "VoucherCode_n cfg \<noteq> ''''" "nd_net n = (None, st, T1 # ts)"
    and "stmts (Registry_f st) = []" "t_vouchers (Registry_f st) = vs @ [nv]"
    and "\<forall>row \<in> set vs. CodeHash_v row \<noteq> CodeHash_v nv" "CodeHash_v nv = HashVoucherCode sha (VoucherCode_n cfg)"
    and "voucher_check T1 nv = None" "getLocked (DeviceID_i i) (Registry_f st) = None"
    and "enroll_check (node_request i cfg) = None"
  shows "\<exists>er n' st'. node_enroll lib (direct (sql_Store sha) L E sha) i cfg c n = (Inr er, n') \<and>
    nd_net n' = (None, st', ts) \<and> nd_keys n' = nd_keys n \<and> nd_clock n' = nd_clock n \<and>
    getLocked (DeviceID_i i) (Registry_f st') = Some (enroll_new (voucher_defaults (voucher_used nv) (node_request i cfg))) \<and>
    stmts (Registry_f st') = [] \<and> t_meta (Registry_f st') = t_meta (Registry_f st) \<and> Master st' = Master st"
proof -
  let ?c = "c\<lparr>AdminToken_k := ''''\<rparr>" and ?req = "voucher_defaults (voucher_used nv) (node_request i cfg)"
  let ?r = "client_request ?c ''/v1/enroll'' False"
  have adm: "\<not> adminOK st ?r" using assms(1) by (simp add: adminOK_def client_request_def)
  obtain db where db: "sql_RedeemVoucher sha T1 (VoucherCode_n cfg) (Registry_f st) = (Inr (voucher_used nv), db)"
    "t_devices db = t_devices (Registry_f st)" "stmts db = []" "t_meta db = t_meta (Registry_f st)"
    using voucher_redeemed [OF assms(4-8)] by blast
  have e: "sql_Enroll ?req db = (Inr (enroll_new ?req), db\<lparr>t_devices := t_devices db @ [enroll_new ?req]\<rparr>)"
    using db assms(9,10) by (intro device_enrolled_new) (simp_all add: getLocked_def node_request_def)
  let ?db = "db\<lparr>t_devices := t_devices db @ [enroll_new ?req]\<rparr>"
  have v: "VoucherCode_e (node_request i cfg) = VoucherCode_n cfg" by (simp add: node_request_def)
  obtain b st' where h: "handleEnroll (sql_Store sha) T1 ?r (Some (node_request i cfg)) st = ((201, EnrollBody b), st')"
    "Registry_f st' = ?db" "Master st' = Master st"
    using adm db(1) e assms(2) by (simp add: handleEnroll_def finish_enroll_def sql_Store_def Let_def v)
  have g: "getLocked (DeviceID_i i) ?db = Some (enroll_new ?req)"
  proof -
    have "\<forall>row \<in> set (t_devices db). DeviceID row \<noteq> DeviceID_i i"
      using assms(9) db(2) by (auto simp: getLocked_def find_None_iff)
    then show ?thesis
      by (simp add: getLocked_def find_append_new enroll_new_def node_request_def voucher_defaults_def)
  qed
  have "client_Enroll (direct (sql_Store sha) L E sha) ?c (node_request i cfg) (None, st, T1 # ts) = (Inr b, None, st', ts)"
    using h(1) by (simp add: client_Enroll_def doJSON_def direct_off serve_def gbind_def decode_def Let_def)
  then show ?thesis
    using assms(2,3) g h(2,3) db(3,4) by (simp add: node_enroll_def Let_def node_request_def [symmetric])
qed

section \<open>The first serial number\<close>

lemma first_serial:
  assumes "stmts db = []" "getLocked d db = Some rec" "\<not> Revoked rec" "LastSerial rec = 0"
    and "bindable e" "bindable (stored_serial db + 1)"
  shows "\<exists>g. sql_MarkIssued d e db = (Inr (stored_serial db + 1), g)"
  using assms
  by (simp add: sql_MarkIssued_def already_issued_def gbind_def nextSerialLocked_def db_Exec_works Let_def)

section \<open>From the voucher to the key\<close>

text \<open>A device with its identity, its configuration and its client, ready to enroll.\<close>

definition ready_device :: "ed25519_lib \<Rightarrow> bytes \<Rightarrow> Identity \<Rightarrow> NodeConfig \<Rightarrow> Client \<Rightarrow> bool" where
  "ready_device E seed i cfg c \<longleftrightarrow> length seed = 32 \<and> SignKey_k c = ed25519_NewKeyFromSeed E seed \<and>
     SignPublic_i i = ed25519_Public E (SignKey_k c) \<and> length (PublicKey_i i) = 32 \<and> DeviceID_i i = DeviceID_n cfg \<and>
     DeviceID_k c = DeviceID_n cfg \<and> TrimSpace (DeviceID_n cfg) = DeviceID_n cfg \<and> DeviceID_n cfg \<noteq> '''' \<and>
     Profile_n cfg \<noteq> '''' \<and> ascii (DeviceID_n cfg) \<and> ascii (Profile_n cfg)"

lemma onboarding:
  fixes i cfg sha nv code
  defines "req \<equiv> node_request i (cfg\<lparr>VoucherCode_n := code\<rparr>)"
  defines "rec \<equiv> enroll_new (voucher_defaults (voucher_used nv) req)"
  assumes "ed25519_correct (lib_ed lib)" "ready_device (lib_ed lib) seed i cfg c"
    and admin: "AdminTok st \<noteq> ''''" "AdminToken_k ca = AdminTok st" "stmts (Registry_f st) = []"
      "Code_cv creq = ''''" "24 \<le> length rb" "code = drawn_code rb" "nv = new_voucher sha T0 (drawn_id rb) code creq"
      "fresh_voucher sha nv (Registry_f st)" "voucher_check T1 nv = None"
    and dev: "getLocked (DeviceID_n cfg) (Registry_f st) = None" "clocks_ok t T2 T3 (nd_clock n)"
      "issue_key L (Master st) (Profile_n cfg) (EpochID T3) rec = Inr k" "k \<noteq> []"
      "bindable (stored_serial (Registry_f st) + 1)"
    and node: "script (nd_keys n) = []" "lib_mkdir lib" "json_ok wf_record (lib_record lib)"
  shows "\<exists>v w1 er n1 iss hub n2.
    client_CreateVoucher (direct (sql_Store sha) L (lib_ed lib) sha) ca rb creq (None, st, [T0, T1, T2, T3]) = (Inr v, w1) \<and>
    Code_cr v = code \<and>
    node_enroll lib (direct (sql_Store sha) L (lib_ed lib) sha) i (cfg\<lparr>VoucherCode_n := code\<rparr>) c (n\<lparr>nd_net := w1\<rparr>) = (Inr er, n1) \<and>
    node_start lib (direct (sql_Store sha) L (lib_ed lib) sha) t nonce i cfg c n1 = (Inr (iss, hub), n2) \<and>
    GeneralKey_s iss = k \<and> KeySerial_s iss = stored_serial (Registry_f st) + 1 \<and>
    GetGeneral (lib_record lib) (EpochID T3) (nd_keys n2) = Inr (k, key_meta iss) \<and> hub_creds hub = key_creds cfg i iss"
proof -
  let ?H = "direct (sql_Store sha) L (lib_ed lib) sha" and ?cfg = "cfg\<lparr>VoucherCode_n := code\<rparr>"
  note r = assms(4) [unfolded ready_device_def]
  obtain v st1 where v: "client_CreateVoucher ?H ca rb creq (None, st, [T0, T1, T2, T3]) = (Inr v, None, st1, [T1, T2, T3])"
    "Code_cr v = code" "Registry_f st1 = (Registry_f st)\<lparr>t_vouchers := t_vouchers (Registry_f st) @ [nv]\<rparr>"
    "Master st1 = Master st" "AdminTok st1 = AdminTok st"
    using voucher_created [OF admin(1,2,4,5,3) admin(7) [unfolded admin(6)] admin(8), of L "lib_ed lib" "[T1, T2, T3]"] admin(6) by auto
  have "take 16 rb \<noteq> []" using admin(5) by (cases rb) auto
  then have code: "VoucherCode_n ?cfg \<noteq> ''''" using hex_nonempty [of "take 16 rb"] admin(6) by (simp add: drawn_code_def)
  have hash: "\<forall>row \<in> set (t_vouchers (Registry_f st)). CodeHash_v row \<noteq> CodeHash_v nv"
    "CodeHash_v nv = HashVoucherCode sha (VoucherCode_n ?cfg)"
    using admin(7,8) by (auto simp: fresh_voucher_def new_voucher_def Let_def)
  have "length (SignPublic_i i) = 32" using assms(3) r by (auto simp: ed25519_correct_def Let_def)
  then have chk: "enroll_check (node_request i ?cfg) = None" using r by (simp add: enroll_check_def node_request_def)
  obtain er n1 st2 where e: "node_enroll lib ?H i ?cfg c (n\<lparr>nd_net := (None, st1, [T1, T2, T3])\<rparr>) = (Inr er, n1)"
    "nd_net n1 = (None, st2, [T2, T3])" "nd_keys n1 = nd_keys n" "nd_clock n1 = nd_clock n"
    "getLocked (DeviceID_n cfg) (Registry_f st2) = Some rec" "stmts (Registry_f st2) = []"
    "t_meta (Registry_f st2) = t_meta (Registry_f st)" "Master st2 = Master st"
    using node_enrolled [of st1 ?cfg "n\<lparr>nd_net := (None, st1, [T1, T2, T3])\<rparr>" T1 "[T2, T3]" "t_vouchers (Registry_f st)" nv sha i lib L "lib_ed lib" c]
      admin(1,3,9) v(3-5) code hash dev(1) chk r
    by (auto simp: getLocked_def rec_def req_def)
  have ser: "stored_serial (Registry_f st2) = stored_serial (Registry_f st)" using e(7) by (simp add: stored_serial_def)
  have sane: "sane_time T3" using dev(2) by (simp add: clocks_ok_def sane_time_def)
  have "bindable (EpochID T3)" using day_of_bounds [OF sane] by (simp add: bindable_def uint_EpochID [OF sane])
  then obtain g where m: "sql_MarkIssued (DeviceID_n cfg) (EpochID T3) (Registry_f st2) = (Inr (stored_serial (Registry_f st) + 1), g)"
    using first_serial [OF e(6,5), of "EpochID T3"] dev(5) ser by (auto simp: rec_def enroll_new_def)
  have "SignPK rec = SignPublic_i i" "\<not> Revoked rec"
    by (simp_all add: rec_def enroll_new_def req_def node_request_def voucher_defaults_def)
  then have enr: "enrolled_for (sql_Store sha) (lib_ed lib) c cfg rec st2"
    using r e(5) by (simp add: enrolled_for_def sql_Store_def sql_Get_def)
  have m': "st_MarkIssued (sql_Store sha) (DeviceID_n cfg) (EpochID T3) (Registry_f st2) = (Inr (stored_serial (Registry_f st) + 1), g)"
    using m by (simp add: sql_Store_def)
  obtain iss hub n2 where "node_start lib ?H t nonce i cfg c n1 = (Inr (iss, hub), n2)" "GeneralKey_s iss = k"
    "KeySerial_s iss = stored_serial (Registry_f st) + 1" "GetGeneral (lib_record lib) (EpochID T3) (nd_keys n2) = Inr (k, key_meta iss)"
    "hub_creds hub = key_creds cfg i iss"
    using node_start_issues [OF assms(3) _ _ enr dev(2) [folded e(4)] dev(3) [folded e(8)] dev(4) m' e(2) node(1) [folded e(3)] node(2,3), of seed sha nonce i]
      r by auto
  with v e(1) show ?thesis by blast
qed

end
