(* ===== verification/Programs.thy ===== *)
theory Programs
  imports Onboarding
begin

text \<open>
  The command line programs around the node and the key authority: \<^verbatim>\<open>cmd/coe-keygen/main.go\<close>, which
  makes a device's identity, \<^verbatim>\<open>cmd/coe-cli/main.go\<close>, which talks to the node's local interface, and
  \<^verbatim>\<open>cmd/coe-admin/main.go\<close>, the administrator's client. Flags and arguments are function arguments,
  \<open>log.Fatal\<close> and \<open>os.Exit\<close> are values, printing is left out. \<open>crypto/rand\<close> is the list of bytes to
  come.
\<close>

section \<open>Definitions\<close>

subsection \<open>coe-keygen\<close>

text \<open>\<open>ed25519.GenerateKey\<close> reads a seed and makes the key from it, as documented.\<close>

definition GenerateSignKey :: "ed25519_lib \<Rightarrow> (bytes, crypto_error, bytes \<times> bytes) go" where
  "GenerateSignKey E = gbind (rand_Read 32) (\<lambda>seed.
     let sk = ed25519_NewKeyFromSeed E seed in gret (ed25519_Public E sk, sk))"

datatype keygen_error = NoDeviceFlag | KeyFailed crypto_error | SaveFailedK store_error

definition new_identity :: "string \<Rightarrow> string \<Rightarrow> string \<Rightarrow> bytes \<times> bytes \<Rightarrow> bytes \<times> bytes \<Rightarrow> Identity" where
  "new_identity deviceID org profile x s = \<lparr>DeviceID_i = deviceID, EnrollmentCounter_i = 1, PrivateKey_i = fst x,
     PublicKey_i = snd x, SignPrivate_i = snd s, SignPublic_i = fst s, EncPrivateKey_i = [], EncSignKey_i = [],
     LegacyPrivateKey_i = [], LegacySignKey_i = [], OrgID_i = org, Profile_i = profile\<rparr>"

text \<open>
  \<open>filepath.Join\<close> on a system with \<open>/\<close> as separator, for elements whose first one is relative: the
  elements that are not empty are joined, and the path is cleaned.
\<close>

definition strings_Join :: "string list \<Rightarrow> string \<Rightarrow> string" where
  "strings_Join xs sep = (case xs of [] \<Rightarrow> '''' | x # xs \<Rightarrow> x @ concat (map ((@) sep) xs))"

fun clean_parts :: "string list \<Rightarrow> string list \<Rightarrow> string list" where
  "clean_parts st [] = rev st"
| "clean_parts st (p # ps) =
     (if p = '''' \<or> p = ''.'' then clean_parts st ps
      else if p = ''..'' \<and> st \<noteq> [] \<and> hd st \<noteq> ''..'' then clean_parts (tl st) ps
      else clean_parts (p # st) ps)"

definition filepath_Join :: "string list \<Rightarrow> string" where
  "filepath_Join es =
     (case clean_parts [] (strings_Split (CHR ''/'') (strings_Join (filter (\<lambda>e. e \<noteq> '''') es) ''/'')) of
        [] \<Rightarrow> ''.''
      | ps \<Rightarrow> strings_Join ps ''/'')"

definition keygen_path :: "string \<Rightarrow> string \<Rightarrow> string" where
  "keygen_path deviceID out =
     (if out = '''' then filepath_Join [''data'', ''devices'', deviceID, ''identity.json''] else out)"

definition coe_keygen ::
    "crypto_lib \<Rightarrow> ed25519_lib \<Rightarrow> diskIdentity json \<Rightarrow> bool \<Rightarrow> string \<Rightarrow> string \<Rightarrow> string \<Rightarrow> string
     \<Rightarrow> (bytes \<times> disk, keygen_error, Identity) go" where
  "coe_keygen L E J mkdir_ok deviceID out profile org = (\<lambda>(q, fs).
     if deviceID = '''' then (Inl NoDeviceFlag, q, fs)
     else case GenerateX25519 L q of
       (Inl e, q1) \<Rightarrow> (Inl (KeyFailed e), q1, fs)
     | (Inr x, q1) \<Rightarrow>
       (case GenerateSignKey E q1 of
          (Inl e, q2) \<Rightarrow> (Inl (KeyFailed e), q2, fs)
        | (Inr s, q2) \<Rightarrow>
          (let i = new_identity deviceID org profile x s in
           case SaveIdentity J mkdir_ok (keygen_path deviceID out) i fs of
             (Inl e, fs') \<Rightarrow> (Inl (SaveFailedK e), q2, fs')
           | (Inr _, fs') \<Rightarrow> (Inr i, q2, fs'))))"

subsection \<open>coe-cli\<close>

datatype cli_result = CliUsage | CliFatal | CliCalls "local_call list"

text \<open>The query of the inbox command: the last \<open>--wait=\<close> counts, \<open>--keep\<close> only without one.\<close>

definition cli_inbox :: "string list \<Rightarrow> local_call" where
  "cli_inbox args =
     (let wait = fold (\<lambda>a w. if strip_prefix ''--wait='' a \<noteq> None then the (strip_prefix ''--wait='' a) else w) args '''';
          clear = (''--keep'' \<notin> set args)
      in if wait \<noteq> '''' then LInbox wait '''' else if \<not> clear then LInbox '''' ''0'' else LInbox '''' '''')"

definition cli_parse :: "string list \<Rightarrow> cli_result" where
  "cli_parse args =
     (case args of
        [] \<Rightarrow> CliUsage
      | cmd # as \<Rightarrow>
        if cmd = ''health'' then CliCalls [LHealth]
        else if cmd = ''status'' then CliCalls [LStatus]
        else if cmd = ''peers'' then
          (if length as \<ge> 1 \<and> as ! 0 = ''add'' then
             (if length as < 3 then CliFatal else CliCalls [LPeersPost (Some (as ! 1, as ! 2))])
           else CliCalls [LPeersGet])
        else if cmd = ''connect'' then
          (if length as < 1 then CliFatal
           else CliCalls [LConnect (Some (as ! 0, if length as \<ge> 2 then as ! 1 else ''''))])
        else if cmd = ''webrtc'' then
          (if length as < 3 then CliFatal
           else CliCalls [LConnectWebRTC (Some (as ! 1, as ! 2, as ! 0, 60))])
        else if cmd = ''sessions'' then CliCalls [LSessions]
        else if cmd = ''send'' then
          (if length as < 2 then CliFatal else CliCalls [LSend (Some (as ! 0, strings_Join (drop 1 as) '' ''))])
        else if cmd = ''inbox'' then CliCalls [cli_inbox as]
        else if cmd = ''chat'' then
          (if length as < 3 then CliFatal
           else CliCalls [LConnect (Some (as ! 0, as ! 1)), LSend (Some (as ! 0, strings_Join (drop 2 as) '' '')),
             LInbox ''3s'' ''''])
        else CliUsage)"

text \<open>
  The calls one after the other, each with its environment; an answer of 400 or more ends the
  program with status 1.
\<close>

fun cli_run ::
    "crypto_lib \<Rightarrow> codec \<Rightarrow> LocalAPI \<Rightarrow> string \<Rightarrow> (local_env \<times> local_call) list \<Rightarrow> AgentHub \<Rightarrow> (nat \<times> local_body list) \<times> AgentHub" where
  "cli_run L J a token [] h = ((0, []), h)"
| "cli_run L J a token ((w, c) # cs) h =
     (case local_serve L J w a (if token \<noteq> '''' then ''Bearer '' @ token else '''') c h of
        ((code, b), h1) \<Rightarrow>
          if code \<ge> 400 then ((1, []), h1)
          else (case cli_run L J a token cs h1 of ((status, bs), h2) \<Rightarrow> ((status, b # bs), h2)))"

subsection \<open>coe-admin\<close>

text \<open>\<open>fmt.Sscanf\<close> with \<open>%d\<close> into an \<open>int\<close>: the old value stays when there is no number or it does not fit.\<close>

definition scan_int :: "string \<Rightarrow> i64 \<Rightarrow> i64" where
  "scan_int s old =
     (let r = dropWhile is_blank s;
          neg = (r \<noteq> [] \<and> hd r = CHR ''-'');
          r = (if r \<noteq> [] \<and> (hd r = CHR ''-'' \<or> hd r = CHR ''+'') then tl r else r);
          ds = takeWhile is_digit r;
          v = (if neg then - int (dec_value ds) else int (dec_value ds))
      in if ds = [] \<or> \<not> is_i64 v then old else v)"

record voucher_flags =
  vf_maxUses :: i64
  vf_ttl :: i64
  vf_label :: string
  vf_org :: string

fun voucher_args :: "string list \<Rightarrow> voucher_flags \<Rightarrow> voucher_flags" where
  "voucher_args [] f = f"
| "voucher_args [a] f = f"
| "voucher_args (a # b # as) f =
     (if a = ''-max-uses'' then voucher_args as (f\<lparr>vf_maxUses := scan_int b (vf_maxUses f)\<rparr>)
      else if a = ''-ttl-hours'' then voucher_args as (f\<lparr>vf_ttl := scan_int b (vf_ttl f)\<rparr>)
      else if a = ''-label'' then voucher_args as (f\<lparr>vf_label := b\<rparr>)
      else if a = ''-org'' then voucher_args as (f\<lparr>vf_org := b\<rparr>)
      else voucher_args (b # as) f)"

datatype admin_outcome =
    VoucherMade CreateVoucherResponse
  | VoucherList "VoucherInfo list"
  | RevokedDevice string
  | HealthShown HealthResponse
  | AdminFatal "client_error option"
  | AdminTLS tls_error
  | AdminUsage

definition voucher_order :: "voucher_flags \<Rightarrow> CreateVoucherRequest" where
  "voucher_order f = \<lparr>Label_cv = vf_label f, OrgID_cv = vf_org f, Profile_cv = ''strong'', MaxUses_cv = vf_maxUses f,
     TTLHours_cv = vf_ttl f, Code_cv = ''''\<rparr>"

definition admin_result :: "('a \<Rightarrow> admin_outcome) \<Rightarrow> client_error + 'a \<Rightarrow> admin_outcome" where
  "admin_result f r = (case r of Inl e \<Rightarrow> AdminFatal (Some e) | Inr x \<Rightarrow> f x)"

text \<open>The bytes are the random numbers that the server draws for a voucher.\<close>

definition admin_command :: "'w http \<Rightarrow> Client \<Rightarrow> bytes \<Rightarrow> string \<Rightarrow> string list \<Rightarrow> 'w \<Rightarrow> admin_outcome \<times> 'w" where
  "admin_command http c rb cmd as w =
     (if cmd = ''voucher'' \<or> cmd = ''voucher-create'' then
        apfst (admin_result VoucherMade) (client_CreateVoucher http c rb (voucher_order (voucher_args as
          \<lparr>vf_maxUses = 1, vf_ttl = 168, vf_label = '''', vf_org = ''''\<rparr>)) w)
      else if cmd = ''voucher-list'' then apfst (admin_result VoucherList) (client_ListVouchers http c w)
      else if cmd = ''revoke'' then
        (case as of
           [] \<Rightarrow> (AdminFatal None, w)
         | d # _ \<Rightarrow> apfst (admin_result (\<lambda>_. RevokedDevice d))
             (client_Revoke http c \<lparr>DeviceID_rr = d, Reason_rr = ''admin''\<rparr> w))
      else if cmd = ''health'' then apfst (admin_result HealthShown) (client_Health http c w)
      else (AdminUsage, w))"

definition admin_tls :: "(bytes \<Rightarrow> bool) \<Rightarrow> disk \<Rightarrow> string \<Rightarrow> bool \<Rightarrow> tls_error + tls_Config" where
  "admin_tls certs fs kaCA insecure =
     (case ClientTLS certs kaCA insecure fs of
        Inr cfg \<Rightarrow> Inr cfg
      | Inl e \<Rightarrow>
          if insecure then Inr \<lparr>InsecureSkipVerify = True, RootCAs = None, MinVersion_t = 0x0303\<rparr>
          else if kaCA = '''' then Inr \<lparr>InsecureSkipVerify = False, RootCAs = None, MinVersion_t = 0x0303\<rparr>
          else Inl e)"

definition coe_admin ::
    "(bytes \<Rightarrow> bool) \<Rightarrow> disk \<Rightarrow> (tls_Config \<Rightarrow> 'w http) \<Rightarrow> string \<Rightarrow> string \<Rightarrow> bool \<Rightarrow> string \<Rightarrow> bytes \<Rightarrow> string list
     \<Rightarrow> 'w \<Rightarrow> admin_outcome \<times> 'w" where
  "coe_admin certs fs http kaURL kaCA insecure adminTok rb args w =
     (case args of
        [] \<Rightarrow> (AdminUsage, w)
      | cmd # as \<Rightarrow>
        (case admin_tls certs fs kaCA insecure of
           Inl e \<Rightarrow> (AdminTLS e, w)
         | Inr tlsCfg \<Rightarrow> admin_command (http tlsCfg)
             ((NewClientOpts kaURL '''' \<lparr>Insecure_k = False, CAFile_k = '''', TLSConfig_k = Some tlsCfg\<rparr>)\<lparr>AdminToken_k := adminTok\<rparr>) rb cmd as w))"

section \<open>Lemmas\<close>

lemma GenerateX25519_pk:
  assumes "x25519_total L" "GenerateX25519 L q = (Inr (sk, pk), q')"
  shows "length pk = 32"
proof -
  have q: "32 \<le> length q" "curve25519_X25519 L (take 32 q) (curve25519_Basepoint L) = Some pk"
    using assms(2) by (auto simp: GenerateX25519_def gbind_def rand_Read_def split: if_splits option.splits)
  moreover have "length (take 32 q) = 32" using q(1) by simp
  ultimately obtain pk' where "keypair L (take 32 q) pk'" using assms(1) unfolding x25519_total_def by blast
  with q(2) show ?thesis by (simp add: keypair_def)
qed

lemma GenerateSignKey_seed:
  assumes "GenerateSignKey E q = (Inr (pk, sk), q')"
  shows "\<exists>seed. length seed = 32 \<and> sk = ed25519_NewKeyFromSeed E seed \<and> pk = ed25519_Public E sk"
  using assms
  by (auto simp: GenerateSignKey_def gbind_def rand_Read_def Let_def split: if_splits intro!: exI [of _ "take 32 q"])

lemma newKAClient_sel:
  assumes "newKAClient certs cfg d = Inr c"
  shows "DeviceID_k c = DeviceID_n cfg" "SignKey_k c = []"
  using assms by (auto simp: newKAClient_def NewClientOpts_def split: sum.splits)

lemma newKAClient_ok: "KAInsecure_n cfg \<or> KACAFile_n cfg = '''' \<Longrightarrow> \<exists>c. newKAClient certs cfg d = Inr c"
  by (auto simp: newKAClient_def ClientTLS_def Let_def)

text \<open>Reading an identity back that was saved.\<close>

lemma LoadIdentity_saved:
  assumes "json_ok ascii_identity J" "SaveIdentity J m path i fs = (Inr (), fs')"
    and "ascii (DeviceID_i i)" "ascii (OrgID_i i)" "ascii (Profile_i i)"
    and "i = new_identity deviceID org profile x s"
  shows "LoadIdentity J m' path fs' = (Inr i, fs')"
proof -
  obtain d where d: "os_ReadFile path fs' = Some (Marshal J d)" "PrivateKey_d d = []" "SignPrivate_d d = []"
    "DeviceID_d d = DeviceID_i i" "OrgID_d d = OrgID_i i" "Profile_d d = Profile_i i"
    "identity_of_disk d = i\<lparr>EncPrivateKey_i := [], EncSignKey_i := [], LegacyPrivateKey_i := [], LegacySignKey_i := []\<rparr>"
    by (rule SaveIdentity_InrD [OF assms(2)])
  have "identity_of_disk d = i" using d(7) by (simp add: assms(6) new_identity_def)
  moreover have "Unmarshal J (Marshal J d) = Some d" using assms(1,3-5) d(4-6) by (simp add: json_ok_def ascii_identity_def)
  ultimately show ?thesis using d(1-3) by (simp add: LoadIdentity_def Let_def)
qed

lemma length_sign_key: "ed25519_correct E \<Longrightarrow> length seed = 32 \<Longrightarrow> length (ed25519_NewKeyFromSeed E seed) = 64"
  by (auto simp: ed25519_correct_def Let_def)

text \<open>The default paths of \<open>coe-keygen\<close> and of the node agree for a name that is one part of a path.\<close>

lemma keygen_default_path:
  assumes "CHR ''/'' \<notin> set deviceID" "deviceID \<noteq> ''''" "deviceID \<noteq> ''.''" "deviceID \<noteq> ''..''"
  shows "keygen_path deviceID '''' = ''data/devices/'' @ deviceID @ ''/identity.json''"
proof -
  have "strings_Split (CHR ''/'') (''data/devices/'' @ deviceID @ ''/identity.json'') =
      [''data'', ''devices'', deviceID, ''identity.json'']"
    using strings_Split_append [OF assms(1), of "''identity.json''"] by (simp add: strings_Split_none)
  then show ?thesis using assms by (simp add: keygen_path_def filepath_Join_def strings_Join_def)
qed

text \<open>The administrator's program checks the server's certificate unless it is told not to.\<close>

lemma admin_tls_verifies:
  assumes "admin_tls certs fs kaCA False = Inr cfg"
  shows "\<not> InsecureSkipVerify cfg \<and> (kaCA \<noteq> '''' \<longrightarrow> RootCAs cfg = os_ReadFile kaCA fs)"
  using assms by (auto simp: admin_tls_def ClientTLS_def Let_def split: sum.splits option.splits if_splits)

section \<open>Properties\<close>

text \<open>
  An identity made by \<open>coe-keygen\<close> is ready for use: when the program has written it and a node
  is configured with this device name and path, the node loads the identity, and its name, its
  keys and its client satisfy everything that enrolling and obtaining a key require.
\<close>

theorem keygen_ready:
  assumes "ed25519_correct (lib_ed lib)" "x25519_total L" "json_ok ascii_identity (lib_identity lib)"
    and "coe_keygen L (lib_ed lib) (lib_identity lib) m deviceID out profile org (q, fs) = (Inr i, q', fs')"
    and "TrimSpace deviceID = deviceID" "ascii deviceID" "ascii org" "ascii profile"
    and "DeviceID_n cfg = deviceID" "IdentityPath_n cfg = keygen_path deviceID out" "nd_fs n = fs'"
    and "KAInsecure_n cfg \<or> KACAFile_n cfg = ''''"
  shows "\<exists>cfg' c seed. node_login lib cfg n = (Inr (i, cfg', c), n) \<and> ready_device (lib_ed lib) seed i cfg' c"
proof -
  obtain x s q1 where x: "GenerateX25519 L q = (Inr x, q1)" and s: "GenerateSignKey (lib_ed lib) q1 = (Inr s, q')"
    and i: "i = new_identity deviceID org profile x s" and d: "deviceID \<noteq> ''''"
    and sv: "SaveIdentity (lib_identity lib) m (keygen_path deviceID out) i fs = (Inr (), fs')"
    using assms(4) by (auto simp: coe_keygen_def Let_def split: if_splits prod.splits sum.splits)
  obtain seed where seed: "length seed = 32" "snd s = ed25519_NewKeyFromSeed (lib_ed lib) seed" "fst s = ed25519_Public (lib_ed lib) (snd s)"
    using GenerateSignKey_seed [of "lib_ed lib" q1 "fst s" "snd s" q'] s by auto
  have pk: "length (PublicKey_i i) = 32" using GenerateX25519_pk [OF assms(2), of q "fst x" "snd x" q1] x by (simp add: i new_identity_def)
  have ld: "LoadIdentity (lib_identity lib) (lib_mkdir lib) (IdentityPath_n cfg) (nd_fs n) = (Inr i, fs')"
    using LoadIdentity_saved [OF assms(3) sv _ _ _ i] assms(6-8,10,11) by (simp add: i new_identity_def)
  let ?cfg = "cfg\<lparr>Profile_n := (if profile = '''' then ''strong'' else profile)\<rparr>"
  obtain c where c: "newKAClient (lib_certs lib) ?cfg fs' = Inr c"
    using newKAClient_ok [of ?cfg] assms(12) by auto
  have k: "length (snd s) = 64" using length_sign_key [OF assms(1) seed(1)] seed(2) by simp
  then have sk: "SignPrivateKey (lib_ed lib) i = Inr (snd s)"
    by (simp add: SignPrivateKey_def SignSKFromBytes_def i new_identity_def)
  have sel: "DeviceID_i i = deviceID" "Profile_i i = profile" "SignPrivate_i i = snd s" by (simp_all add: i new_identity_def)
  have "node_login lib cfg n = (Inr (i, ?cfg, SetSignKey (snd s) c), n)"
    using ld c sk k assms(9,11) sel by (cases "profile = ''''") (simp_all add: node_login_def Let_def)
  moreover have "ready_device (lib_ed lib) seed i ?cfg (SetSignKey (snd s) c)"
    using seed pk newKAClient_sel(1) [OF c] assms(5,6,8,9) d
    by (simp add: ready_device_def SetSignKey_def i new_identity_def ascii_def)
  ultimately show ?thesis by blast
qed

lemma SaveIdentity_empty_disk:
  "\<exists>fs'. SaveIdentity J True p j \<lparr>files = [], script = []\<rparr> = (Inr (), fs')"
proof -
  obtain a b where "protect_if_present (PrivateKey_i j) = Inr a" "protect_if_present (SignPrivate_i j) = Inr b"
    using protect_if_present_ok by metis
  then show ?thesis by (simp add: SaveIdentity_def os_WriteFile_def)
qed

theorem keygen_ready_witness:
  "\<exists>i q' fs' cfg' c seed. coe_keygen xor_lib toy_ed25519 identity_json True ''dev'' ''id'' ''strong'' ''default''
       (replicate 64 5, \<lparr>files = [], script = []\<rparr>) = (Inr i, q', fs') \<and>
     node_login sample_lib (sample_config\<lparr>IdentityPath_n := ''id''\<rparr>) (sample_node 0\<lparr>nd_fs := fs'\<rparr>) =
       (Inr (i, cfg', c), sample_node 0\<lparr>nd_fs := fs'\<rparr>) \<and> ready_device toy_ed25519 seed i cfg' c"
proof -
  obtain pk where pk: "curve25519_X25519 xor_lib (replicate 32 5) (curve25519_Basepoint xor_lib) = Some pk"
    using xor_lib_laws(1) unfolding x25519_total_def keypair_def by (metis length_replicate)
  have x: "GenerateX25519 xor_lib (replicate 64 5) = (Inr (replicate 32 5, pk), replicate 32 5)"
    using pk by (simp add: GenerateX25519_def gbind_def rand_Read_def)
  obtain y where y: "GenerateSignKey toy_ed25519 (replicate 32 5) = (Inr y, [])"
    by (simp add: GenerateSignKey_def gbind_def rand_Read_def Let_def)
  obtain fs' where f: "SaveIdentity identity_json True (keygen_path ''dev'' ''id'')
      (new_identity ''dev'' ''default'' ''strong'' (replicate 32 5, pk) y) \<lparr>files = [], script = []\<rparr> = (Inr (), fs')"
    using SaveIdentity_empty_disk by blast
  define i where "i = new_identity ''dev'' ''default'' ''strong'' (replicate 32 5, pk) y"
  define q' where "q' = ([] :: bytes)"
  have k: "coe_keygen xor_lib toy_ed25519 identity_json True ''dev'' ''id'' ''strong'' ''default''
       (replicate 64 5, \<lparr>files = [], script = []\<rparr>) = (Inr i, q', fs')"
    using x y f by (simp add: coe_keygen_def Let_def i_def q'_def)
  have cfg: "TrimSpace ''dev'' = ''dev''" "ascii ''dev''" "ascii ''default''" "ascii ''strong''" "keygen_path ''dev'' ''id'' = ''id''"
    "DeviceID_n (sample_config\<lparr>IdentityPath_n := ''id''\<rparr>) = ''dev''" "KACAFile_n (sample_config\<lparr>IdentityPath_n := ''id''\<rparr>) = ''''"
    by (simp_all add: sample_config_def zero_NodeConfig_def keygen_path_def TrimSpace_def is_space_def ascii_def)
  have lib: "lib_ed sample_lib = toy_ed25519" "lib_identity sample_lib = identity_json" by (simp_all add: sample_lib_def)
  show ?thesis
    using keygen_ready [of sample_lib xor_lib True "''dev''" "''id''" "''strong''" "''default''" "replicate 64 5"
        "\<lparr>files = [], script = []\<rparr>" i q' fs' "sample_config\<lparr>IdentityPath_n := ''id''\<rparr>" "sample_node 0\<lparr>nd_fs := fs'\<rparr>",
        unfolded lib, OF toy_ed25519_correct xor_lib_laws(1) identity_json_ok k] k
      by (fastforce simp: cfg)
qed

text \<open>With a wrong token the first call already ends the program, and nothing changes in the agent.\<close>

lemma cli_wrong_token:
  assumes "Token_o a \<noteq> ''''" "token \<noteq> Token_o a"
  shows "cli_run L J a token ((w, c) # cs) h = ((1, []), h)"
  using assms by (simp add: local_serve_def auth_def)

text \<open>What \<open>coe-cli send\<close> asks for, for every list of words.\<close>

lemma cli_send_words: "cli_parse (''send'' # d # x # xs) = CliCalls [LSend (Some (d, x @ concat (map ((@) '' '') xs)))]"
  by (simp add: cli_parse_def strings_Join_def fun_eq_iff)

end
