(* ===== verification/MasterKey.thy ===== *)
theory MasterKey
  imports Ice Files
begin

text \<open>
  The master key file: how the key authority loads or creates it (\<open>loadOrCreateMaster\<close> of
  \<^verbatim>\<open>cmd/ka/main.go\<close>) and how the deployment check judges it (\<open>checkMasterFile\<close> of
  \<^verbatim>\<open>cmd/ka-check/main.go\<close>). Reading fails only when the file does not exist; \<open>os.MkdirAll\<close> and
  the random bytes are arguments.
\<close>

section \<open>Definitions\<close>

datatype master_error = BadHex | BadMasterFile | MasterMkdir | MasterRand | MasterWrite

definition loadOrCreateMaster :: "bool \<Rightarrow> bytes \<Rightarrow> string \<Rightarrow> (disk, master_error, bytes) go" where
  "loadOrCreateMaster mkdir_ok rand path = (\<lambda>d.
     case os_ReadFile path d of
       Some b \<Rightarrow>
         (let s = TrimSpace (string_of b) in
          if length s = 64 then
            (case hex_DecodeString s of None \<Rightarrow> (Inl BadHex, d) | Some key \<Rightarrow> (Inr key, d))
          else if length b = 32 then (Inr b, d)
          else if length (bytes_of s) = 32 then (Inr (bytes_of s), d)
          else (Inl BadMasterFile, d))
     | None \<Rightarrow>
         if \<not> mkdir_ok then (Inl MasterMkdir, d)
         else if length rand < 32 then (Inl MasterRand, d)
         else let key = take 32 rand in
           case os_WriteFile path (bytes_of (hex_EncodeToString key @ [CHR 0x0A])) d of
             (False, d') \<Rightarrow> (Inl MasterWrite, d')
           | (True, d') \<Rightarrow> (Inr key, d'))"

subsection \<open>Results of the deployment check\<close>

text \<open>
  A detail is kept as its format string; the values that \<open>fmt.Sprintf\<close> puts into it are left out.
\<close>

datatype severity = sevReq | sevWarn | sevInfo

record checkResult =
  ID_c :: string
  Severity_c :: severity
  OK_c :: bool
  Detail_c :: string

definition check_ok :: "string \<Rightarrow> severity \<Rightarrow> string \<Rightarrow> checkResult" where
  "check_ok i sev detail = \<lparr>ID_c = i, Severity_c = sev, OK_c = True, Detail_c = detail\<rparr>"

definition check_fail :: "string \<Rightarrow> severity \<Rightarrow> string \<Rightarrow> checkResult" where
  "check_fail i sev detail = \<lparr>ID_c = i, Severity_c = sev, OK_c = False, Detail_c = detail\<rparr>"

definition failed :: "checkResult \<Rightarrow> bool" where
  "failed r \<longleftrightarrow> Severity_c r = sevReq \<and> \<not> OK_c r"

definition checkMasterFile :: "string \<Rightarrow> disk \<Rightarrow> checkResult list" where
  "checkMasterFile path d =
     (case os_ReadFile path d of
        None \<Rightarrow> [check_fail ''master_file'' sevReq ''%v'']
      | Some b \<Rightarrow>
        (let s = TrimSpace (string_of b) in
         [if length s = 64 then check_ok ''master_file'' sevReq ''32-byte key as hex present''
          else if length b = 32 then check_ok ''master_file'' sevReq ''32 raw bytes present''
          else check_fail ''master_file'' sevReq ''unexpected length (want 32 raw or 64 hex)'',
          check_ok ''master_perms'' sevWarn ''mode=%v - ensure ACL limited to KA service account'']))"

section \<open>Lemmas\<close>

lemma hex_value_digit: "n < 16 \<Longrightarrow> hex_value (hex_digit n) = Some n"
proof -
  assume "n < 16"
  then have "n \<in> set [0..<16]" by simp
  then show ?thesis by (simp add: upt_conv_Cons hex_value_def hex_digit_def) (elim disjE; simp)
qed

lemma hex_digit_mod: "hex_digit n = hex_digit (n mod 16)"
  by (simp add: hex_digit_def)

lemma hex_Decode_Encode: "hex_DecodeString (hex_EncodeToString bs) = Some bs"
proof (induction bs)
  case (Cons b bs)
  have lt: "unat b div 16 < 16" "unat b mod 16 < 16" using unat_byte_less [of b] by auto
  have "16 * (unat b div 16) + unat b mod 16 = unat b" by simp
  then have "word_of_nat (16 * (unat b div 16) + unat b mod 16) = b" by simp
  then show ?case
    using Cons hex_value_digit [OF lt(1)] hex_value_digit [OF lt(2)] hex_digit_mod [of "unat b"]
    by (simp add: hex_EncodeToString_def)
qed (simp add: hex_EncodeToString_def)

lemma length_hex_Encode [simp]: "length (hex_EncodeToString bs) = 2 * length bs"
  by (induction bs) (simp_all add: hex_EncodeToString_def)

lemma length_hex_Decode: "hex_DecodeString s = Some bs \<Longrightarrow> length s = 2 * length bs"
  by (induction s arbitrary: bs rule: hex_DecodeString.induct) (auto split: option.splits)

lemma hex_digit_char: "c \<in> set (hex_EncodeToString bs) \<Longrightarrow> c \<in> set ''0123456789abcdef''"
proof (induction bs)
  case (Cons b bs)
  have "hex_digit n \<in> set ''0123456789abcdef''" for n
    unfolding hex_digit_def by (rule nth_mem) simp
  then show ?case using Cons by (auto simp: hex_EncodeToString_def)
qed (simp add: hex_EncodeToString_def)

lemma hex_not_space: "c \<in> set (hex_EncodeToString bs) \<Longrightarrow> \<not> is_space c"
  using hex_digit_char [of c bs] by (auto simp: is_space_def)

lemma TrimSpace_hex_line:
  assumes "bs \<noteq> []"
  shows "TrimSpace (hex_EncodeToString bs @ [CHR 0x0A]) = hex_EncodeToString bs"
proof -
  let ?h = "hex_EncodeToString bs"
  have ne: "?h \<noteq> []" using assms by (cases bs) (simp_all add: hex_EncodeToString_def)
  have no: "\<not> is_space (hd ?h)" "\<not> is_space (last ?h)"
    using hex_not_space [OF hd_in_set [OF ne]] hex_not_space [OF last_in_set [OF ne]] by simp_all
  have nl: "is_space (CHR 0x0A)" by (simp add: is_space_def)
  have "dropWhile is_space (?h @ [CHR 0x0A]) = ?h @ [CHR 0x0A]" using ne no(1) by (cases ?h) auto
  moreover have "dropWhile is_space (rev ?h) = rev ?h" using ne no(2) by (cases ?h rule: rev_cases) auto
  ultimately show ?thesis using nl by (simp add: TrimSpace_def)
qed

lemma load_existing:
  assumes "os_ReadFile path d = Some b" and "loadOrCreateMaster m r path d = (Inr key, d')"
  shows "length key = 32 \<and> d' = d \<and> loadOrCreateMaster m' r' path d = (Inr key, d)"
  using assms length_hex_Decode [of "TrimSpace (string_of b)" key]
  by (auto simp: loadOrCreateMaster_def Let_def split: option.splits if_splits)

lemma load_written:
  assumes "os_ReadFile path d = Some (bytes_of (hex_EncodeToString key @ [CHR 0x0A]))" and "length key = 32"
  shows "loadOrCreateMaster m r path d = (Inr key, d)"
proof -
  have "TrimSpace (string_of (bytes_of (hex_EncodeToString key @ [CHR 0x0A]))) = hex_EncodeToString key"
    unfolding string_of_bytes_of using assms(2) by (intro TrimSpace_hex_line) auto
  then show ?thesis
    using assms by (simp add: loadOrCreateMaster_def Let_def hex_Decode_Encode del: bytes_of_append)
qed

text \<open>Once a key has been returned, the file holds it, on this disk and on every disk with the same file.\<close>

lemma master_on_file:
  assumes "loadOrCreateMaster m rand path d = (Inr key, d')"
  shows "length key = 32 \<and> (\<exists>b. os_ReadFile path d' = Some b \<and>
    (\<forall>d2 m2 r2. os_ReadFile path d2 = Some b \<longrightarrow> loadOrCreateMaster m2 r2 path d2 = (Inr key, d2)))"
proof (cases "os_ReadFile path d")
  case (Some b)
  have k: "length key = 32" "d' = d" using load_existing [OF Some assms] by blast+
  have "loadOrCreateMaster m2 r2 path d2 = (Inr key, d2)" if "os_ReadFile path d2 = Some b" for d2 m2 r2
    using assms Some that by (auto simp: loadOrCreateMaster_def Let_def split: option.splits if_splits)
  with k Some show ?thesis by blast
next
  case None
  then have k: "key = take 32 rand" "32 \<le> length rand"
    and w: "os_WriteFile path (bytes_of (hex_EncodeToString key @ [CHR 0x0A])) d = (True, d')"
    using assms by (auto simp: loadOrCreateMaster_def Let_def split: if_splits prod.splits bool.splits)
  then show ?thesis using load_written read_write_same [OF w] by auto
qed

section \<open>Properties\<close>

text \<open>
  The master key is stable: whenever loading or creating it succeeds, the key has 32 bytes,
  and every later start on the same disk returns the same key, whatever random bytes it is
  given, and leaves the file alone.
\<close>

theorem master_key_stable:
  assumes "loadOrCreateMaster m rand path d = (Inr key, d')"
  shows "length key = 32 \<and> loadOrCreateMaster m' rand' path d' = (Inr key, d')"
  using master_on_file [OF assms] by blast

theorem master_key_stable_witness:
  "loadOrCreateMaster True [] ''m'' (snd (loadOrCreateMaster True (replicate 32 5) ''m'' \<lparr>files = [], script = []\<rparr>)) =
     (Inr (replicate 32 5), snd (loadOrCreateMaster True (replicate 32 5) ''m'' \<lparr>files = [], script = []\<rparr>))"
proof -
  have "loadOrCreateMaster True (replicate 32 5) ''m'' \<lparr>files = [], script = []\<rparr> =
      (Inr (replicate 32 5), snd (loadOrCreateMaster True (replicate 32 5) ''m'' \<lparr>files = [], script = []\<rparr>))"
    by (simp add: loadOrCreateMaster_def os_ReadFile_def os_WriteFile_def Let_def)
  from master_key_stable [OF this, of True "[]"] show ?thesis by blast
qed

text \<open>
  An interrupted first start leaves a weak key behind: when the write of a new master key
  stops after 32 bytes, that start fails, but the next one takes the half-written file for a
  raw key, whose bytes are all hexadecimal digits.
\<close>

theorem truncated_master_accepted:
  assumes "os_ReadFile path d = None" "script d = StopsAfter 32 # os" "32 \<le> length rand"
  shows "\<exists>d' key. loadOrCreateMaster True rand path d = (Inl MasterWrite, d') \<and>
    loadOrCreateMaster m rand' path d' = (Inr key, d') \<and> set (string_of key) \<subseteq> set ''0123456789abcdef''"
proof -
  let ?h = "hex_EncodeToString (take 32 rand)"
  let ?b = "take 32 (bytes_of (?h @ [CHR 0x0A]))"
  let ?d = "d\<lparr>files := AList.update path ?b (files d), script := os\<rparr>"
  have len: "length ?h = 64" using assms(3) by simp
  have b: "?b = bytes_of (take 32 ?h)" using len by (simp add: bytes_of_def take_map)
  have hex: "set (take 32 ?h) \<subseteq> set ''0123456789abcdef''" using hex_digit_char set_take_subset by fastforce
  have t: "length (TrimSpace (take 32 ?h)) \<noteq> 64"
    using length_dropWhile_le [of is_space "take 32 ?h"]
      length_dropWhile_le [of is_space "rev (dropWhile is_space (take 32 ?h))"] len by (simp add: TrimSpace_def)
  have "loadOrCreateMaster True rand path d = (Inl MasterWrite, ?d)"
    using assms by (simp add: loadOrCreateMaster_def os_WriteFile_def Let_def)
  moreover have "loadOrCreateMaster m rand' path ?d = (Inr ?b, ?d)"
  proof -
    have "os_ReadFile path ?d = Some (bytes_of (take 32 ?h))" unfolding b by (simp add: os_ReadFile_def)
    moreover have "length (bytes_of (take 32 ?h)) = 32" using len by (simp add: bytes_of_def)
    ultimately show ?thesis using t unfolding b by (simp add: loadOrCreateMaster_def Let_def)
  qed
  moreover have "set (string_of ?b) \<subseteq> set ''0123456789abcdef''" using hex by (simp only: b string_of_bytes_of)
  ultimately show ?thesis by blast
qed

theorem truncated_master_accepted_witness:
  "\<exists>d' key. loadOrCreateMaster True (replicate 32 5) ''m'' \<lparr>files = [], script = [StopsAfter 32]\<rparr> = (Inl MasterWrite, d') \<and>
    loadOrCreateMaster True [] ''m'' d' = (Inr key, d')"
  using truncated_master_accepted [of "''m''" "\<lparr>files = [], script = [StopsAfter 32]\<rparr>" "[]" "replicate 32 5" True "[]"]
  by (auto simp: os_ReadFile_def)

text \<open>
  The deployment check and the server disagree on the master file: 64 characters that are not
  hexadecimal pass the check and stop the server, and 32 raw characters followed by a newline
  fail the check and are accepted by the server.
\<close>

theorem master_check_disagrees:
  "\<not> (\<exists>r \<in> set (checkMasterFile ''m'' \<lparr>files = [(''m'', bytes_of (replicate 64 CHR ''z''))], script = []\<rparr>). failed r) \<and>
   fst (loadOrCreateMaster True r ''m'' \<lparr>files = [(''m'', bytes_of (replicate 64 CHR ''z''))], script = []\<rparr>) = Inl BadHex \<and>
   (\<exists>r \<in> set (checkMasterFile ''m'' \<lparr>files = [(''m'', bytes_of (replicate 32 CHR ''z'' @ [CHR 0x0A]))], script = []\<rparr>). failed r) \<and>
   fst (loadOrCreateMaster True r ''m'' \<lparr>files = [(''m'', bytes_of (replicate 32 CHR ''z'' @ [CHR 0x0A]))], script = []\<rparr>) =
     Inr (bytes_of (replicate 32 CHR ''z''))"
proof -
  have t: "TrimSpace (replicate 64 CHR ''z'') = replicate 64 CHR ''z''"
    "TrimSpace (replicate 32 CHR ''z'' @ [CHR 0x0A]) = replicate 32 CHR ''z''" by code_simp+
  have h: "hex_DecodeString (replicate 64 CHR ''z'') = None" by code_simp
  have len: "length (bytes_of s) = length s" for s by (simp add: bytes_of_def)
  show ?thesis by (simp add: checkMasterFile_def failed_def check_ok_def check_fail_def loadOrCreateMaster_def os_ReadFile_def
      t h len Let_def del: bytes_of_append)
qed

end
