(* ===== verification/KACheck.thy ===== *)
theory KACheck
  imports MasterKey TLSUtil Epoch
begin

text \<open>
  The deployment check, \<^verbatim>\<open>cmd/ka-check/main.go\<close>: the list of results that \<open>main\<close> collects and the exit
  status it ends with. What the checks find out about the world is a \<open>check_world\<close>: the files of the
  host, the answer to the health request, the state of a TLS connection, UDP dialling, the clock.
  The flags are a record. Printing is left out; it does not change the results.
\<close>

section \<open>Definitions\<close>

record check_flags =
  f_url :: string
  f_ca :: string
  f_insecure :: bool
  f_adminTok :: string
  f_masterFile :: string
  f_registry :: string
  f_stun :: string
  f_turn :: string

text \<open>The decoded health answer; fields that are missing in the JSON are zero.\<close>

record health_body =
  hb_code :: nat
  hb_Status :: string
  hb_EpochID :: u64
  hb_TLS :: bool
  hb_Time :: i64

record peer_cert =
  pc_NotAfter :: time
  pc_Subject :: string
  pc_Issuer :: string

record tls_state =
  ts_Version :: nat
  ts_PeerCertificates :: "peer_cert list"

record check_world =
  w_disk :: disk
  w_certs :: "bytes \<Rightarrow> bool"
  w_spki :: "bytes \<Rightarrow> string option"
  w_health :: "tls_Config \<Rightarrow> string \<Rightarrow> health_body option"
  w_tls :: "string \<Rightarrow> tls_Config \<Rightarrow> tls_state option"
  w_registry :: "bytes \<Rightarrow> nat option"
  w_udp :: "string \<Rightarrow> bool"
  w_now :: time

subsection \<open>What is used of package strings\<close>

definition TrimPrefix :: "string \<Rightarrow> string \<Rightarrow> string" where
  "TrimPrefix s p = (if HasPrefix s p then drop (length p) s else s)"

definition TrimSuffix :: "string \<Rightarrow> string \<Rightarrow> string" where
  "TrimSuffix s p = (if HasPrefix (rev s) (rev p) then take (length s - length p) s else s)"

definition TrimRight :: "string \<Rightarrow> char \<Rightarrow> string" where
  "TrimRight s c = rev (dropWhile (\<lambda>x. x = c) (rev s))"

subsection \<open>The checks\<close>

definition check_url :: "check_flags \<Rightarrow> checkResult list" where
  "check_url f = [if HasPrefix (ToLower (f_url f)) ''https://'' then check_ok ''tls_url'' sevReq ''URL uses https://''
     else check_fail ''tls_url'' sevReq ''URL must be https:// (got %s)'']"

definition check_verify :: "check_flags \<Rightarrow> checkResult list" where
  "check_verify f = [if f_insecure f then check_fail ''tls_verify'' sevReq ''-insecure set: TLS verification disabled''
     else check_ok ''tls_verify'' sevReq ''TLS verification enabled'']"

text \<open>The verification settings and what is reported about the CA file.\<close>

definition check_ca :: "check_flags \<Rightarrow> check_world \<Rightarrow> tls_Config \<times> checkResult list" where
  "check_ca f w =
     (let cfg = \<lparr>InsecureSkipVerify = False, RootCAs = None, MinVersion_t = 0x0303\<rparr> in
      if f_insecure f then (cfg\<lparr>InsecureSkipVerify := True\<rparr>, [])
      else if f_ca f \<noteq> '''' then
        (case os_ReadFile (f_ca f) (w_disk w) of
           None \<Rightarrow> (cfg, [check_fail ''ca_file'' sevReq ''read CA: %v''])
         | Some pem \<Rightarrow>
           if \<not> w_certs w pem then (cfg, [check_fail ''ca_file'' sevReq ''no PEM certs in %s''])
           else (cfg\<lparr>RootCAs := Some pem\<rparr>,
             check_ok ''ca_file'' sevReq ''loaded CA from %s'' #
             (case w_spki w pem of None \<Rightarrow> [] | Some s \<Rightarrow> [check_ok ''spki_sha256'' sevInfo s])))
      else (cfg, [check_ok ''ca_file'' sevWarn ''using system roots (set -ca for pin/self-signed)'']))"

definition check_skew :: "time \<Rightarrow> i64 \<Rightarrow> checkResult list" where
  "check_skew now t =
     (if t > 0 then
        let delta = wrap64 (Unix now - t); delta = (if delta < 0 then wrap64 (- delta) else delta)
        in [if delta \<le> 120 then check_ok ''clock_skew'' sevReq ''skew=%ds (limit 120)''
            else check_fail ''clock_skew'' sevReq ''skew=%ds exceeds 120s'']
      else [])"

definition check_health :: "check_flags \<Rightarrow> check_world \<Rightarrow> tls_Config \<Rightarrow> checkResult list" where
  "check_health f w tlsCfg =
     (case w_health w tlsCfg (TrimRight (f_url f) (CHR ''/'') @ ''/v1/health'') of
        None \<Rightarrow> [check_fail ''health'' sevReq ''GET /v1/health: %v'']
      | Some b \<Rightarrow>
        [if hb_code b = 200 \<and> hb_Status b = ''ok'' then check_ok ''health'' sevReq ''status=ok epoch=%d''
         else check_fail ''health'' sevReq ''status=%d body=%+v''] @
        (if hb_TLS b \<or> HasPrefix (f_url f) ''https'' then [check_ok ''server_tls_flag'' sevInfo ''tls reported or https URL'']
         else []) @
        check_skew (w_now w) (hb_Time b))"

text \<open>Whole days until the end of the certificate, truncated toward zero.\<close>

definition days_left :: "time \<Rightarrow> time \<Rightarrow> int" where
  "days_left now notAfter = go_div (notAfter - now) 86400000000000"

definition check_cert :: "time \<Rightarrow> peer_cert \<Rightarrow> checkResult list" where
  "check_cert now c =
     (let days = days_left now (pc_NotAfter c) in
      [if days < 14 then check_fail ''cert_expiry'' sevReq ''cert expires in %d days (%s)''
       else if days < 30 then check_ok ''cert_expiry'' sevWarn ''cert expires in %d days (%s)''
       else check_ok ''cert_expiry'' sevReq ''valid %d days left'',
       if pc_Subject c = pc_Issuer c
       then check_ok ''cert_public'' sevWarn ''self-signed / private CA - OK for lab, use public CA in prod''
       else check_ok ''cert_public'' sevInfo ''issuer=%s''])"

definition check_tls :: "check_flags \<Rightarrow> check_world \<Rightarrow> tls_Config \<Rightarrow> checkResult list" where
  "check_tls f w tlsCfg =
     (if HasPrefix (f_url f) ''https://'' \<and> \<not> f_insecure f then
        let hostPort = TrimSuffix (TrimPrefix (f_url f) ''https://'') ''/'';
            hostPort = (if \<not> Contains hostPort '':'' then hostPort @ '':443'' else hostPort)
        in case w_tls w hostPort tlsCfg of
             None \<Rightarrow> [check_fail ''tls_handshake'' sevReq ''%v'']
           | Some st \<Rightarrow>
             [if ts_Version st < 0x0303 then check_fail ''tls_version'' sevReq ''TLS version too old: 0x%x''
              else check_ok ''tls_version'' sevReq ''TLS OK (0x%x)''] @
             (case ts_PeerCertificates st of [] \<Rightarrow> [] | c # _ \<Rightarrow> check_cert (w_now w) c) @
             [check_ok ''tls_handshake'' sevReq ''handshake ok'']
      else [])"

definition check_admin :: "check_flags \<Rightarrow> checkResult list" where
  "check_admin f =
     [if f_adminTok f = '''' then check_ok ''admin_token_set'' sevWarn ''no -admin-token (skip admin probes)''
      else if f_adminTok f = ''dev-admin-token''
      then check_fail ''admin_token_set'' sevReq ''admin token still default 'dev-admin-token' ''
      else if length (f_adminTok f) < 16 then check_ok ''admin_token_set'' sevWarn ''admin token short (<16 chars)''
      else check_ok ''admin_token_set'' sevReq ''non-default admin token present'']"

definition checkRegistry :: "string \<Rightarrow> check_world \<Rightarrow> checkResult list" where
  "checkRegistry path w =
     (case os_ReadFile path (w_disk w) of
        None \<Rightarrow> [check_fail ''registry'' sevReq ''%v'']
      | Some b \<Rightarrow>
        (case w_registry w b of
           None \<Rightarrow> [check_fail ''registry'' sevReq ''json: %v'']
         | Some n \<Rightarrow> [check_ok ''registry'' sevInfo ''%d enrolled devices'']))"

definition check_files :: "check_flags \<Rightarrow> check_world \<Rightarrow> checkResult list" where
  "check_files f w =
     (if f_masterFile f \<noteq> '''' then checkMasterFile (f_masterFile f) (w_disk w)
      else [check_ok ''master_file'' sevInfo ''skipped (pass -master-file on KA host)'']) @
     (if f_registry f \<noteq> '''' then checkRegistry (f_registry f) w else [])"

definition udp_hostPort :: "string \<Rightarrow> string" where
  "udp_hostPort raw =
     (let h = TrimPrefix (TrimPrefix (TrimPrefix (TrimPrefix (TrimSpace raw) ''stuns:'') ''stun:'') ''turns:'') ''turn:'';
          h = takeWhile (\<lambda>c. c \<noteq> CHR ''?'') h
      in if \<not> Contains h '':'' then h @ '':3478'' else h)"

definition checkUDPEndpoint :: "string \<Rightarrow> string \<Rightarrow> check_world \<Rightarrow> checkResult list" where
  "checkUDPEndpoint i raw w =
     [if w_udp w (udp_hostPort raw) then check_ok i sevWarn ''udp path open to %s (not full STUN/TURN handshake)''
      else check_fail i sevWarn ''udp dial %s: %v'']"

definition check_ice :: "check_flags \<Rightarrow> check_world \<Rightarrow> checkResult list" where
  "check_ice f w =
     (if f_stun f \<noteq> '''' then checkUDPEndpoint ''stun_udp'' (f_stun f) w
      else [check_ok ''stun_udp'' sevInfo ''skipped (pass -stun)'']) @
     (if f_turn f \<noteq> '''' then checkUDPEndpoint ''turn_udp'' (hd (strings_Split (CHR '','') (f_turn f))) w
      else [check_ok ''turn_udp'' sevInfo ''skipped (pass -turn or COE_TURN_URLS)''])"

subsection \<open>main\<close>

definition check_results :: "check_flags \<Rightarrow> check_world \<Rightarrow> checkResult list" where
  "check_results f w =
     (case check_ca f w of (tlsCfg, ca) \<Rightarrow>
        check_url f @ check_verify f @ ca @ check_health f w tlsCfg @ check_tls f w tlsCfg @ check_admin f @
        check_files f w @ check_ice f w)"

definition reqFail :: "checkResult list \<Rightarrow> nat" where
  "reqFail rs = length (filter failed rs)"

definition warns :: "checkResult list \<Rightarrow> nat" where
  "warns rs = length (filter (\<lambda>r. Severity_c r = sevWarn \<and> \<not> OK_c r) rs) +
     length (filter (\<lambda>r. Severity_c r = sevWarn \<and> OK_c r \<and> Contains (ToLower (Detail_c r)) ''self-signed'') rs)"

definition countReqOK :: "checkResult list \<Rightarrow> nat" where
  "countReqOK rs = length (filter (\<lambda>r. Severity_c r = sevReq \<and> OK_c r) rs)"

definition exit_code :: "check_flags \<Rightarrow> check_world \<Rightarrow> nat" where
  "exit_code f w = (if reqFail (check_results f w) > 0 then 1 else 0)"

section \<open>Lemmas\<close>

lemma exit_code_0: "exit_code f w = 0 \<longleftrightarrow> filter failed (check_results f w) = []"
  by (simp add: exit_code_def reqFail_def)

lemma check_simps [simp]:
  "failed (check_ok i s d) = False" "failed (check_fail i s d) = (s = sevReq)"
  by (simp_all add: failed_def check_ok_def check_fail_def)

lemma check_skew_passes:
  "filter failed (check_skew now t) = [] \<longleftrightarrow> t \<le> 0 \<or> \<bar>wrap64 (Unix now - t)\<bar> \<le> 120 \<or> wrap64 (Unix now - t) = - (2 ^ 63)"
proof -
  let ?d = "wrap64 (Unix now - t)"
  have r: "is_i64 ?d" by (rule wrap64_range)
  have "?d < 0 \<Longrightarrow> ?d \<noteq> - (2 ^ 63) \<Longrightarrow> wrap64 (- ?d) = - ?d" using r by (intro wrap64_id) (auto simp: is_i64_def)
  moreover have "wrap64 (- (- (2 ^ 63))) = - (2 ^ 63)" by (simp add: wrap64_def)
  ultimately have "(if ?d < 0 then wrap64 (- ?d) else ?d) = (if ?d = - (2 ^ 63) then - (2 ^ 63) else \<bar>?d\<bar>)"
    by (cases "?d = - (2 ^ 63)") auto
  then show ?thesis unfolding check_skew_def Let_def by auto
qed

lemma check_cert_passes: "filter failed (check_cert now c) = [] \<longleftrightarrow> 14 \<le> days_left now (pc_NotAfter c)"
  by (auto simp: check_cert_def Let_def)

lemma check_admin_passes: "filter failed (check_admin f) = [] \<longleftrightarrow> f_adminTok f \<noteq> ''dev-admin-token''"
  by (auto simp: check_admin_def)

lemma checkUDP_passes [simp]: "filter failed (checkUDPEndpoint i raw w) = []"
  by (simp add: checkUDPEndpoint_def)

text \<open>The settings under which the health request and the handshake were made.\<close>

lemma check_ca_passes:
  assumes "filter failed (snd (check_ca f w)) = []" "\<not> f_insecure f"
  shows "\<not> InsecureSkipVerify (fst (check_ca f w)) \<and> MinVersion_t (fst (check_ca f w)) = 0x0303 \<and>
    (f_ca f \<noteq> '''' \<longrightarrow> RootCAs (fst (check_ca f w)) = os_ReadFile (f_ca f) (w_disk w) \<and> RootCAs (fst (check_ca f w)) \<noteq> None)"
  using assms by (auto simp: check_ca_def Let_def split: option.splits if_splits)

text \<open>The address that the handshake check dials.\<close>

definition tls_target :: "string \<Rightarrow> string" where
  "tls_target url = (let h = TrimSuffix (TrimPrefix url ''https://'') ''/'' in if \<not> Contains h '':'' then h @ '':443'' else h)"

lemma check_tls_passes:
  assumes "filter failed (check_tls f w cfg) = []" "HasPrefix (f_url f) ''https://''" "\<not> f_insecure f"
  shows "\<exists>st. w_tls w (tls_target (f_url f)) cfg = Some st \<and> 0x0303 \<le> ts_Version st \<and>
    (\<forall>c cs. ts_PeerCertificates st = c # cs \<longrightarrow> 14 \<le> days_left (w_now w) (pc_NotAfter c))"
  using assms by (auto simp: check_tls_def tls_target_def Let_def check_cert_passes split: option.splits list.splits if_splits)

lemma check_health_passes:
  assumes "filter failed (check_health f w cfg) = []"
  shows "\<exists>b. w_health w cfg (TrimRight (f_url f) (CHR ''/'') @ ''/v1/health'') = Some b \<and> hb_code b = 200 \<and>
    hb_Status b = ''ok'' \<and> filter failed (check_skew (w_now w) (hb_Time b)) = []"
  using assms by (auto simp: check_health_def split: option.splits if_splits)

lemma results_split:
  assumes "exit_code f w = 0"
  shows "filter failed (check_url f) = []" "filter failed (check_verify f) = []" "filter failed (snd (check_ca f w)) = []"
    "filter failed (check_health f w (fst (check_ca f w))) = []" "filter failed (check_tls f w (fst (check_ca f w))) = []"
    "filter failed (check_admin f) = []" "filter failed (check_files f w) = []"
  using assms by (simp_all add: exit_code_0 check_results_def split_beta)

section \<open>Properties\<close>


definition good_world :: check_world where
  "good_world = \<lparr>w_disk = \<lparr>files = [], script = []\<rparr>, w_certs = (\<lambda>_. True), w_spki = (\<lambda>_. None),
     w_health = (\<lambda>_ _. Some \<lparr>hb_code = 200, hb_Status = ''ok'', hb_EpochID = 100, hb_TLS = True, hb_Time = 8640000\<rparr>),
     w_tls = (\<lambda>_ _. Some \<lparr>ts_Version = 0x0304, ts_PeerCertificates =
       [\<lparr>pc_NotAfter = 8640000000000000 + 40 * 86400000000000, pc_Subject = ''s'', pc_Issuer = ''i''\<rparr>]\<rparr>),
     w_registry = (\<lambda>_. None), w_udp = (\<lambda>_. False), w_now = 8640000000000000\<rparr>"

definition good_flags :: "string \<Rightarrow> check_flags" where
  "good_flags url = \<lparr>f_url = url, f_ca = '''', f_insecure = False, f_adminTok = '''', f_masterFile = '''',
     f_registry = '''', f_stun = '''', f_turn = ''''\<rparr>"

lemma good_exit: "exit_code (good_flags ''https://ka'') good_world = 0"
  by (simp add: exit_code_0 check_results_def check_url_def check_verify_def check_ca_def check_health_def check_tls_def
      check_admin_def check_files_def check_ice_def check_cert_passes check_skew_passes good_flags_def good_world_def
      Let_def HasPrefix_def ToLower_def TrimSuffix_def TrimPrefix_def days_left_def go_div_def Unix_def wrap64_def)


text \<open>
  A URL with an upper-case scheme counts as https and skips every check of the handshake, so the
  exit status is 0 whatever TLS version and certificate the server has.
\<close>

lemma uppercase_scheme_skips_tls:
  "exit_code (good_flags ''HTTPS://ka'') (good_world\<lparr>w_tls := t\<rparr>) = 0"
proof -
  have "HasPrefix (ToLower ''HTTPS://ka'') ''https://''" "\<not> HasPrefix ''HTTPS://ka'' ''https://''"
    "\<not> HasPrefix ''HTTPS://ka'' ''https''" by code_simp+
  then show ?thesis
    by (simp add: exit_code_0 check_results_def check_url_def check_verify_def check_ca_def check_health_def check_tls_def
        check_admin_def check_files_def check_ice_def check_skew_passes good_flags_def good_world_def Let_def Unix_def wrap64_def)
qed

end
