(* ===== verification/Mailbox.thy ===== *)
theory Mailbox
  imports Prelude
begin

text \<open>
  The contract that the queues of the program share: the queues of the signalling exchange and the
  byte stream of a data channel both are mailboxes.
\<close>

section \<open>The contract of a mailbox\<close>

text \<open>
  A mailbox has a content to which each event appends at the end and from which it takes at the
  front; over a run, nothing is lost, duplicated or reordered.
\<close>

locale mailbox =
  fixes step :: "'h \<Rightarrow> 'e \<Rightarrow> 'h \<Rightarrow> bool"
    and run :: "'h \<Rightarrow> 'e list \<Rightarrow> 'h \<Rightarrow> bool"
    and content :: "'h \<Rightarrow> 'm list"
    and puts :: "'e \<Rightarrow> 'm list"
    and takes :: "'e \<Rightarrow> 'm list"
    and tame :: "'e \<Rightarrow> bool"
  assumes flow: "step h e h' \<Longrightarrow> tame e \<Longrightarrow> takes e @ content h' = content h @ puts e"
    and run_induct: "run h es h' \<Longrightarrow> P [] h \<Longrightarrow>
      (\<And>fs g e g'. P fs g \<Longrightarrow> step g e g' \<Longrightarrow> P (fs @ [e]) g') \<Longrightarrow> P es h'"
begin

lemma fifo:
  assumes "run h es h'" and "\<forall>e \<in> set es. tame e"
  shows "concat (map takes es) @ content h' = content h @ concat (map puts es)"
proof -
  have "(\<forall>e \<in> set es. tame e) \<longrightarrow> concat (map takes es) @ content h' = content h @ concat (map puts es)"
    using assms(1)
  proof (rule run_induct)
    fix fs g e g'
    assume IH: "(\<forall>e \<in> set fs. tame e) \<longrightarrow> concat (map takes fs) @ content g = content h @ concat (map puts fs)"
      and st: "step g e g'"
    show "(\<forall>e \<in> set (fs @ [e]). tame e) \<longrightarrow>
        concat (map takes (fs @ [e])) @ content g' = content h @ concat (map puts (fs @ [e]))"
    proof
      assume t: "\<forall>e \<in> set (fs @ [e]). tame e"
      then have "takes e @ content g' = content g @ puts e" using flow [OF st] by simp
      then have "concat (map takes (fs @ [e])) @ content g' = (concat (map takes fs) @ content g) @ puts e" by simp
      also have "\<dots> = content h @ concat (map puts (fs @ [e]))" using IH t by simp
      finally show "concat (map takes (fs @ [e])) @ content g' = content h @ concat (map puts (fs @ [e]))" .
    qed
  qed simp
  with assms(2) show ?thesis by blast
qed

end

end
