(* ===== verification/Signal.thy ===== *)
theory Signal
  imports Epoch Mailbox
begin

text \<open>
  The signalling exchange, \<^verbatim>\<open>internal/signal\<close>: rooms of two devices, a queue of at most 32
  envelopes per device and room, and the HTTP handlers that send to and poll from them
  (types.go, hub.go, server.go). A Go channel is the list of its buffered values; a receiver that
  waits in \<open>Subscribe\<close> gets the first value that enters its queue. What other requests publish
  while a poll is waiting is an argument, a list of envelopes with their arrival times; the
  interleaving of any number of requests is the step relation \<open>signal_step\<close>, one step per
  section under the lock and per channel operation.
\<close>

section \<open>Definitions\<close>

subsection \<open>types.go\<close>

record Envelope =
  Type_x :: string
  From_x :: string
  To_x :: string
  Room_x :: string
  SDP_x :: string
  ICE_x :: string
  Error_x :: string

definition RoomID :: "string \<Rightarrow> string \<Rightarrow> string" where
  "RoomID a b = (if a < b then a @ ''|'' @ b else b @ ''|'' @ a)"

subsection \<open>hub.go\<close>

type_synonym room = "(string \<times> Envelope list) list"

record Hub =
  rooms :: "(string \<times> room) list"

datatype signal_error = QueueFull

definition NewHub :: Hub where
  "NewHub = \<lparr>rooms = []\<rparr>"

definition set_room :: "string \<Rightarrow> room \<Rightarrow> Hub \<Rightarrow> Hub" where
  "set_room i r h = h\<lparr>rooms := AList.update i r (rooms h)\<rparr>"

definition hub_room :: "string \<Rightarrow> Hub \<Rightarrow> room \<times> Hub" where
  "hub_room i h = (case map_of (rooms h) i of Some r \<Rightarrow> (r, h) | None \<Rightarrow> ([], set_room i [] h))"

definition ensureQueue :: "room \<Rightarrow> string \<Rightarrow> Envelope list \<times> room" where
  "ensureQueue r deviceID =
     (case map_of r deviceID of Some ch \<Rightarrow> (ch, r) | None \<Rightarrow> ([], AList.update deviceID [] r))"

text \<open>\<open>select { case ch <- env: ... default: ... }\<close> on a channel of capacity 32.\<close>

definition chan_send :: "Envelope \<Rightarrow> Envelope list \<Rightarrow> Envelope list option" where
  "chan_send env ch = (if length ch < 32 then Some (ch @ [env]) else None)"

definition publish_room :: "Envelope \<Rightarrow> string" where
  "publish_room env = (if Room_x env = '''' \<and> To_x env \<noteq> '''' \<and> From_x env \<noteq> ''''
     then RoomID (From_x env) (To_x env) else Room_x env)"

definition broadcast :: "Envelope \<Rightarrow> room \<Rightarrow> room" where
  "broadcast env r = map (\<lambda>(i, ch). if i = From_x env then (i, ch)
     else (i, case chan_send env ch of Some ch' \<Rightarrow> ch' | None \<Rightarrow> ch)) r"

definition Publish :: "Envelope \<Rightarrow> Hub \<Rightarrow> (signal_error + unit) \<times> Hub" where
  "Publish env0 h0 =
     (let roomID = publish_room env0; env = env0\<lparr>Room_x := roomID\<rparr>; (r, h) = hub_room roomID h0 in
      if To_x env = '''' then (Inr (), set_room roomID (broadcast env r) h)
      else let (ch, r1) = ensureQueue r (To_x env) in
        case chan_send env ch of
          Some ch' \<Rightarrow> (Inr (), set_room roomID (AList.update (To_x env) ch' r1) h)
        | None \<Rightarrow> (Inl QueueFull, set_room roomID r1 h))"

text \<open>The first part of \<open>Subscribe\<close> and of \<open>Drain\<close>, under the lock: the queue exists afterwards.\<close>

definition register :: "string \<Rightarrow> string \<Rightarrow> Hub \<Rightarrow> Hub" where
  "register roomID deviceID h0 =
     (let (r, h) = hub_room roomID h0 in set_room roomID (snd (ensureQueue r deviceID)) h)"

definition hub_queue :: "string \<Rightarrow> string \<Rightarrow> Hub \<Rightarrow> Envelope list" where
  "hub_queue roomID deviceID h =
     (case map_of (rooms h) roomID of
        None \<Rightarrow> []
      | Some r \<Rightarrow> (case map_of r deviceID of None \<Rightarrow> [] | Some ch \<Rightarrow> ch))"

text \<open>A receive on the channel, \<open>None\<close> when it would block.\<close>

definition receive :: "string \<Rightarrow> string \<Rightarrow> Hub \<Rightarrow> (Envelope \<times> Hub) option" where
  "receive roomID deviceID h =
     (case map_of (rooms h) roomID of
        None \<Rightarrow> None
      | Some r \<Rightarrow> (case map_of r deviceID of
            Some (env # ch) \<Rightarrow> Some (env, set_room roomID (AList.update deviceID ch r) h)
          | _ \<Rightarrow> None))"

fun wait_receive :: "string \<Rightarrow> string \<Rightarrow> i64 \<Rightarrow> (i64 \<times> Envelope) list \<Rightarrow> Hub \<Rightarrow> Envelope option \<times> Hub" where
  "wait_receive roomID deviceID wait arrivals h =
     (case receive roomID deviceID h of
        Some (env, h') \<Rightarrow> (Some env, h')
      | None \<Rightarrow> (case arrivals of
            [] \<Rightarrow> (None, h)
          | (t, env) # rest \<Rightarrow>
              if t < wait then wait_receive roomID deviceID wait rest (snd (Publish env h)) else (None, h)))"

declare wait_receive.simps [simp del]

definition Subscribe :: "string \<Rightarrow> string \<Rightarrow> i64 \<Rightarrow> (i64 \<times> Envelope) list \<Rightarrow> Hub \<Rightarrow> Envelope option \<times> Hub" where
  "Subscribe roomID deviceID wait arrivals h =
     wait_receive roomID deviceID wait arrivals (register roomID deviceID h)"

fun drain_loop :: "string \<Rightarrow> string \<Rightarrow> nat \<Rightarrow> Hub \<Rightarrow> Envelope list \<times> Hub" where
  "drain_loop roomID deviceID 0 h = ([], h)"
| "drain_loop roomID deviceID (Suc n) h =
     (case receive roomID deviceID h of
        None \<Rightarrow> ([], h)
      | Some (env, h1) \<Rightarrow> (case drain_loop roomID deviceID n h1 of (out, h2) \<Rightarrow> (env # out, h2)))"

definition Drain :: "string \<Rightarrow> string \<Rightarrow> int \<Rightarrow> Hub \<Rightarrow> Envelope list \<times> Hub" where
  "Drain roomID deviceID max_n h = drain_loop roomID deviceID (nat max_n) (register roomID deviceID h)"

subsection \<open>server.go\<close>

datatype signal_body =
    SignalError string
  | SignalOK
  | Messages "Envelope list"

definition handleSend :: "Envelope option \<Rightarrow> Hub \<Rightarrow> (nat \<times> signal_body) \<times> Hub" where
  "handleSend body h =
     (case body of
        None \<Rightarrow> ((400, SignalError ''bad_request''), h)
      | Some env0 \<Rightarrow>
        if From_x env0 = '''' \<or> Type_x env0 = '''' then ((400, SignalError ''bad_request''), h)
        else let env = (if Room_x env0 = '''' \<and> To_x env0 \<noteq> ''''
                        then env0\<lparr>Room_x := RoomID (From_x env0) (To_x env0)\<rparr> else env0) in
          if Room_x env = '''' then ((400, SignalError ''room_or_to_required''), h)
          else case Publish env h of
            (Inl _, h') \<Rightarrow> ((503, SignalError ''queue_full''), h')
          | (Inr _, h') \<Rightarrow> ((200, SignalOK), h'))"

text \<open>\<open>time.ParseDuration\<close> is the argument \<open>parse\<close>; durations are in nanoseconds.\<close>

definition poll_wait :: "(string \<Rightarrow> i64 option) \<Rightarrow> string \<Rightarrow> i64" where
  "poll_wait parse waitStr =
     (if waitStr \<noteq> '''' then
        (case parse waitStr of
           Some d \<Rightarrow> if 0 < d \<and> d < 60000000000 then d else 25000000000
         | None \<Rightarrow> 25000000000)
      else 25000000000)"

definition handlePoll ::
    "(string \<Rightarrow> i64 option) \<Rightarrow> string \<Rightarrow> string \<Rightarrow> string \<Rightarrow> (i64 \<times> Envelope) list \<Rightarrow> Hub
     \<Rightarrow> (nat \<times> signal_body) \<times> Hub" where
  "handlePoll parse q_room q_from q_wait arrivals h =
     (if q_room = '''' \<or> q_from = '''' then ((400, SignalError ''room_and_from_required''), h)
      else let wait = poll_wait parse q_wait in
        case Drain q_room q_from 16 h of
          (msgs, h1) \<Rightarrow>
            if msgs = [] then
              (case Subscribe q_room q_from wait arrivals h1 of
                 (Some env, h2) \<Rightarrow> ((200, Messages (msgs @ [env])), h2)
               | (None, h2) \<Rightarrow> ((200, Messages msgs), h2))
            else ((200, Messages msgs), h1))"

subsection \<open>Interleaved requests\<close>

datatype signal_event =
    Published Envelope "signal_error + unit"
  | Registered string string
  | Received string string Envelope
  | TimedOut string string

inductive signal_step :: "Hub \<Rightarrow> signal_event \<Rightarrow> Hub \<Rightarrow> bool" where
  publish: "Publish env h = (res, h') \<Longrightarrow> signal_step h (Published env res) h'"
| registered: "signal_step h (Registered r d) (register r d h)"
| received: "receive r d h = Some (env, h') \<Longrightarrow> signal_step h (Received r d env) h'"
| timed_out: "signal_step h (TimedOut r d) h"

inductive_simps signal_step_simps:
  "signal_step h (Published env res) h'" "signal_step h (Registered r d) h'"
  "signal_step h (Received r d env) h'" "signal_step h (TimedOut r d) h'"

inductive signal_run :: "Hub \<Rightarrow> signal_event list \<Rightarrow> Hub \<Rightarrow> bool" where
  run_Nil: "signal_run h [] h"
| run_snoc: "signal_run h es h1 \<Longrightarrow> signal_step h1 e h2 \<Longrightarrow> signal_run h (es @ [e]) h2"

text \<open>What the events of a run put into and take out of the queue of a device in a room.\<close>

definition sent_to :: "string \<Rightarrow> string \<Rightarrow> signal_event \<Rightarrow> Envelope list" where
  "sent_to r d e = (case e of
     Published env (Inr _) \<Rightarrow>
       (if publish_room env = r \<and> To_x env = d then [env\<lparr>Room_x := r\<rparr>] else [])
   | _ \<Rightarrow> [])"

definition received_by :: "string \<Rightarrow> string \<Rightarrow> signal_event \<Rightarrow> Envelope list" where
  "received_by r d e = (case e of Received r' d' env \<Rightarrow> if r' = r \<and> d' = d then [env] else [] | _ \<Rightarrow> [])"

definition broadcasts_in :: "string \<Rightarrow> signal_event \<Rightarrow> bool" where
  "broadcasts_in r e = (case e of Published env _ \<Rightarrow> To_x env = '''' \<and> publish_room env = r | _ \<Rightarrow> False)"

section \<open>Lemmas\<close>

lemma hub_queue_set_room [simp]:
  "hub_queue i d (set_room j r h) =
     (if i = j then (case map_of r d of None \<Rightarrow> [] | Some ch \<Rightarrow> ch) else hub_queue i d h)"
  by (simp add: hub_queue_def set_room_def)

lemma hub_queue_room:
  assumes "hub_room i h = (r, h')"
  shows "hub_queue j d h' = hub_queue j d h" "(case map_of r d of None \<Rightarrow> [] | Some ch \<Rightarrow> ch) = hub_queue i d h"
  using assms by (auto simp: hub_room_def hub_queue_def set_room_def split: option.splits if_splits)

lemma ensureQueue_sel:
  assumes "ensureQueue r d = (ch, r')"
  shows "ch = (case map_of r d of None \<Rightarrow> [] | Some ch \<Rightarrow> ch)"
    "(case map_of r' x of None \<Rightarrow> [] | Some ch \<Rightarrow> ch) = (case map_of r x of None \<Rightarrow> [] | Some ch \<Rightarrow> ch)"
  using assms by (auto simp: ensureQueue_def split: option.splits if_splits)

lemma hub_queue_register [simp]: "hub_queue i d (register j x h) = hub_queue i d h"
proof -
  obtain r h' where r: "hub_room j h = (r, h')" by fastforce
  obtain ch r' where e: "ensureQueue r x = (ch, r')" by fastforce
  show ?thesis
    using hub_queue_room [OF r] ensureQueue_sel(2) [OF e, of d] r e by (auto simp: register_def)
qed

text \<open>A directed message joins the end of its queue, or is refused when 32 are waiting there.\<close>

lemma Publish_directed:
  assumes "To_x env \<noteq> ''''"
  shows "fst (Publish env h) = (if length (hub_queue (publish_room env) (To_x env) h) < 32 then Inr () else Inl QueueFull)"
    and "hub_queue i d (snd (Publish env h)) =
      hub_queue i d h @ sent_to i d (Published env (fst (Publish env h)))"
proof -
  let ?i = "publish_room env" and ?t = "To_x env"
  obtain r h' where r: "hub_room ?i h = (r, h')" by fastforce
  obtain ch r' where e: "ensureQueue r ?t = (ch, r')" by fastforce
  have ch: "ch = hub_queue ?i ?t h"
    using ensureQueue_sel(1) [OF e] hub_queue_room(2) [OF r] by simp
  show 1: "fst (Publish env h) = (if length (hub_queue ?i ?t h) < 32 then Inr () else Inl QueueFull)"
    using assms r e ch by (simp add: Publish_def chan_send_def Let_def)
  have "(case map_of r' d of None \<Rightarrow> [] | Some ch \<Rightarrow> ch) = hub_queue ?i d h"
    using ensureQueue_sel(2) [OF e, of d] hub_queue_room(2) [OF r, of d] by simp
  then show "hub_queue i d (snd (Publish env h)) = hub_queue i d h @ sent_to i d (Published env (fst (Publish env h)))"
    using assms r e ch 1 hub_queue_room(1) [OF r, of i d]
    by (auto simp: Publish_def chan_send_def sent_to_def Let_def)
qed

lemma map_of_broadcast:
  "map_of (broadcast env r) d = map_option (\<lambda>ch. if d = From_x env then ch
     else (case chan_send env ch of Some ch' \<Rightarrow> ch' | None \<Rightarrow> ch)) (map_of r d)"
  by (induction r) (auto simp: broadcast_def split: option.split)

text \<open>A broadcast touches the room's existing queues only, and drops what does not fit.\<close>

lemma Publish_broadcast:
  assumes "To_x env = ''''"
  shows "fst (Publish env h) = Inr ()"
    and "hub_queue i d (snd (Publish env h)) = hub_queue i d h \<or>
      i = publish_room env \<and> d \<noteq> From_x env \<and> length (hub_queue i d h) < 32 \<and>
      hub_queue i d (snd (Publish env h)) = hub_queue i d h @ [env\<lparr>Room_x := i\<rparr>]"
proof -
  let ?i = "publish_room env"
  obtain r h' where r: "hub_room ?i h = (r, h')" by fastforce
  show "fst (Publish env h) = Inr ()" using assms r by (simp add: Publish_def Let_def)
  show "hub_queue i d (snd (Publish env h)) = hub_queue i d h \<or>
      i = publish_room env \<and> d \<noteq> From_x env \<and> length (hub_queue i d h) < 32 \<and>
      hub_queue i d (snd (Publish env h)) = hub_queue i d h @ [env\<lparr>Room_x := i\<rparr>]"
    using assms r hub_queue_room(1) [OF r, of i d] hub_queue_room(2) [OF r, of d]
    by (auto simp: Publish_def map_of_broadcast chan_send_def Let_def split: option.splits)
qed

lemma receive_queue:
  "receive i d h = None \<longleftrightarrow> hub_queue i d h = []"
  "receive i d h = Some (env, h') \<Longrightarrow> hub_queue i d h = env # hub_queue i d h' \<and>
     (\<forall>j x. (j, x) \<noteq> (i, d) \<longrightarrow> hub_queue j x h' = hub_queue j x h)"
  by (auto simp: receive_def hub_queue_def set_room_def split: option.splits list.splits if_splits)

lemma received_by_simps [simp]:
  "received_by i d (Published env res) = []" "received_by i d (Registered r x) = []"
  "received_by i d (TimedOut r x) = []" "received_by i d (Received r x env) = (if r = i \<and> x = d then [env] else [])"
  by (simp_all add: received_by_def)

lemma sent_to_simps [simp]:
  "sent_to i d (Registered r x) = []" "sent_to i d (TimedOut r x) = []" "sent_to i d (Received r x env) = []"
  by (simp_all add: sent_to_def)

lemma drain_loop_queue:
  "fst (drain_loop i d n h) = take n (hub_queue i d h) \<and>
   hub_queue j x (snd (drain_loop i d n h)) = (if (j, x) = (i, d) then drop n (hub_queue i d h) else hub_queue j x h)"
proof (induction n arbitrary: h)
  case (Suc n)
  show ?case
  proof (cases "receive i d h")
    case None
    then show ?thesis using receive_queue(1) [of i d h] by simp
  next
    case (Some p)
    then obtain env h1 where "receive i d h = Some (env, h1)" by (cases p) auto
    then have "hub_queue i d h = env # hub_queue i d h1" "(j, x) \<noteq> (i, d) \<Longrightarrow> hub_queue j x h1 = hub_queue j x h"
      and "drain_loop i d (Suc n) h = (env # fst (drain_loop i d n h1), snd (drain_loop i d n h1))"
      using receive_queue(2) [of i d h env h1] by (simp_all add: split_beta)
    then show ?thesis using Suc.IH [of h1] by (simp split: if_split)
  qed
qed simp

lemma Drain_queue:
  "fst (Drain i d n h) = take (nat n) (hub_queue i d h)"
  "hub_queue j x (snd (Drain i d n h)) = (if (j, x) = (i, d) then drop (nat n) (hub_queue i d h) else hub_queue j x h)"
  using drain_loop_queue [of i d "nat n" "register i d h"] by (simp_all add: Drain_def)

lemma signal_run_append:
  assumes "signal_run h1 fs h2" and "signal_run h es h1"
  shows "signal_run h (es @ fs) h2"
  using assms
proof (induction rule: signal_run.induct)
  case (run_snoc h1 fs h2 e h3)
  then show ?case using signal_run.run_snoc [of h "es @ fs" h2 e h3] by simp
qed simp

lemma signal_run_step: "signal_step h e h' \<Longrightarrow> signal_run h [e] h'"
  using run_snoc [OF run_Nil] by fastforce

text \<open>Every handler is a run of the step relation, and a poll answers with what it received.\<close>

lemma drain_loop_run:
  "\<exists>es. signal_run h es (snd (drain_loop i d n h)) \<and>
     concat (map (received_by i d) es) = fst (drain_loop i d n h)"
proof (induction n arbitrary: h)
  case 0
  then show ?case by (auto intro!: exI [of _ "[]"] run_Nil)
next
  case (Suc n)
  show ?case
  proof (cases "receive i d h")
    case None
    then show ?thesis by (auto intro!: exI [of _ "[]"] run_Nil)
  next
    case (Some p)
    then obtain env h1 where r: "receive i d h = Some (env, h1)" by (cases p) auto
    obtain es where es: "signal_run h1 es (snd (drain_loop i d n h1))"
      "concat (map (received_by i d) es) = fst (drain_loop i d n h1)"
      using Suc.IH by blast
    have "signal_run h ([Received i d env] @ es) (snd (drain_loop i d n h1))"
      by (rule signal_run_append [OF es(1) signal_run_step [OF received [OF r]]])
    then show ?thesis using es r by (auto intro!: exI [of _ "Received i d env # es"] simp: split_beta)
  qed
qed

lemma wait_receive_run:
  "\<exists>es. signal_run h es (snd (wait_receive i d w as h)) \<and>
     concat (map (received_by i d) es) = (case fst (wait_receive i d w as h) of None \<Rightarrow> [] | Some env \<Rightarrow> [env])"
proof (induction i d w as h rule: wait_receive.induct)
  case (1 i d w as h)
  show ?case
  proof (cases "receive i d h")
    case (Some p)
    then obtain env h1 where r: "receive i d h = Some (env, h1)" by (cases p) auto
    then show ?thesis
      by (subst (1 2) wait_receive.simps)
        (auto intro!: exI [of _ "[Received i d env]"] signal_run_step received)
  next
    case None
    show ?thesis
    proof (cases "\<exists>t env rest. as = (t, env) # rest \<and> t < w")
      case False
      then have "wait_receive i d w as h = (None, h)"
        using None by (subst wait_receive.simps) (auto split: list.splits)
      then show ?thesis by (auto intro!: exI [of _ "[]"] run_Nil)
    next
      case True
      then obtain t env rest where as: "as = (t, env) # rest" "t < w" by blast
      let ?h = "snd (Publish env h)"
      have eq: "wait_receive i d w as h = wait_receive i d w rest ?h"
        using None as by (subst wait_receive.simps) simp
      obtain es where es: "signal_run ?h es (snd (wait_receive i d w rest ?h))"
        "concat (map (received_by i d) es) = (case fst (wait_receive i d w rest ?h) of None \<Rightarrow> [] | Some env \<Rightarrow> [env])"
        using 1 None as by blast
      have "signal_run h ([Published env (fst (Publish env h))] @ es) (snd (wait_receive i d w rest ?h))"
        by (rule signal_run_append [OF es(1) signal_run_step]) (simp add: signal_step_simps)
      then show ?thesis
        using es(2) unfolding eq by (auto intro!: exI [of _ "Published env (fst (Publish env h)) # es"])
    qed
  qed
qed

lemma handlePoll_run:
  assumes "handlePoll P i d w as h = ((200, Messages ms), h')"
  shows "\<exists>es. signal_run h es h' \<and> concat (map (received_by i d) es) = ms"
proof -
  let ?h1 = "register i d h" and ?w = "poll_wait P w"
  let ?h2 = "snd (drain_loop i d 16 ?h1)" and ?ms = "fst (drain_loop i d 16 ?h1)"
  have ne: "i \<noteq> ''''" "d \<noteq> ''''" using assms by (auto simp: handlePoll_def)
  obtain es where es: "signal_run ?h1 es ?h2" "concat (map (received_by i d) es) = ?ms"
    using drain_loop_run by blast
  have reg: "signal_run g [Registered i d] (register i d g)" for g by (rule signal_run_step) (rule registered)
  have run: "signal_run h ([Registered i d] @ es) ?h2" by (rule signal_run_append [OF es(1) reg])
  have dr: "Drain i d 16 h = (?ms, ?h2)" by (simp add: Drain_def)
  show ?thesis
  proof (cases "?ms = []")
    case False
    then show ?thesis
      using assms ne run es(2) dr
      by (intro exI [of _ "[Registered i d] @ es"]) (simp add: handlePoll_def Let_def split_beta del: drain_loop.simps)
  next
    case True
    let ?r = "wait_receive i d ?w as (register i d ?h2)"
    obtain fs where fs: "signal_run (register i d ?h2) fs (snd ?r)"
      "concat (map (received_by i d) fs) = (case fst ?r of None \<Rightarrow> [] | Some env \<Rightarrow> [env])"
      using wait_receive_run by blast
    have all: "signal_run h (([Registered i d] @ es) @ ([Registered i d] @ fs)) (snd ?r)"
      by (rule signal_run_append [OF signal_run_append [OF fs(1) reg] run])
    have "ms = (case fst ?r of None \<Rightarrow> [] | Some env \<Rightarrow> [env])" "h' = snd ?r"
      using assms ne True dr by (simp_all add: handlePoll_def Let_def Subscribe_def split_beta split: option.splits)
    then show ?thesis
      using all fs(2) es(2) True
      by (intro exI [of _ "([Registered i d] @ es) @ ([Registered i d] @ fs)"]) simp
  qed
qed

section \<open>Each queue is a mailbox\<close>

interpretation mb: mailbox signal_step signal_run "hub_queue r d" "sent_to r d" "received_by r d"
  "\<lambda>e. \<not> broadcasts_in r e" for r d
proof
  fix h h' e
  assume "signal_step h e h'" "\<not> broadcasts_in r e"
  then show "received_by r d e @ hub_queue r d h' = hub_queue r d h @ sent_to r d e"
  proof (cases rule: signal_step.cases)
    case (publish env res)
    show ?thesis
    proof (cases "To_x env = ''''")
      case True
      with publish \<open>\<not> broadcasts_in r e\<close> have "publish_room env \<noteq> r" by (simp add: broadcasts_in_def)
      then show ?thesis
        using Publish_broadcast(2) [OF True, of r d h] publish by (auto simp: sent_to_def)
    next
      case False
      then show ?thesis using Publish_directed(2) [OF False, of r d h] publish by simp
    qed
  next
    case (received i x env)
    then show ?thesis using receive_queue(2) [of i x h env h'] by auto
  qed auto
next
  fix h es h' and P :: "signal_event list \<Rightarrow> Hub \<Rightarrow> bool"
  assume "signal_run h es h'" "P [] h" "\<And>fs g e g'. P fs g \<Longrightarrow> signal_step g e g' \<Longrightarrow> P (fs @ [e]) g'"
  then show "P es h'" by (induction rule: signal_run.induct) auto
qed

lemma hub_queue_NewHub [simp]: "hub_queue r d NewHub = []"
  by (simp add: hub_queue_def NewHub_def)

lemma signal_step_bounded:
  assumes "signal_step h e h'" and "\<forall>r d. length (hub_queue r d h) \<le> 32"
  shows "length (hub_queue r d h') \<le> 32"
  using assms(1)
proof (cases rule: signal_step.cases)
  case (publish env res)
  show ?thesis
  proof (cases "To_x env = ''''")
    case True
    then show ?thesis using Publish_broadcast(2) [OF True, of r d h] publish assms(2) by auto
  next
    case False
    show ?thesis
      using Publish_directed(1) [OF False, of h] Publish_directed(2) [OF False, of r d h] publish assms(2)
      by (auto simp: sent_to_def split: if_splits)
  qed
next
  case (received i x env)
  have "length (hub_queue r d h') \<le> length (hub_queue r d h)"
    using receive_queue(2) [OF received(2)] by (cases "(r, d) = (i, x)") auto
  with assms(2) show ?thesis by (meson le_trans)
qed (use assms(2) in auto)

lemma signal_run_bounded:
  assumes "signal_run h es h'" and "\<forall>r d. length (hub_queue r d h) \<le> 32"
  shows "\<forall>r d. length (hub_queue r d h') \<le> 32"
  using assms by (induction rule: signal_run.induct) (auto intro: signal_step_bounded)

definition sample_env :: Envelope where
  "sample_env = \<lparr>Type_x = ''offer'', From_x = ''a'', To_x = ''b'', Room_x = '''', SDP_x = ''v=0'', ICE_x = '''',
     Error_x = ''''\<rparr>"

lemma sample_env_room: "publish_room sample_env = ''a|b''" "To_x sample_env = ''b''"
  by (simp_all add: publish_room_def sample_env_def RoomID_def)

lemma sample_Publish: "fst (Publish sample_env NewHub) = Inr ()"
  "hub_queue ''a|b'' ''b'' (snd (Publish sample_env NewHub)) = [sample_env\<lparr>Room_x := ''a|b''\<rparr>]"
  using Publish_directed(1) [of sample_env NewHub] Publish_directed(2) [of sample_env "''a|b''" "''b''" NewHub]
  by (simp_all add: sample_env_room sent_to_def)

section \<open>Properties\<close>

text \<open>
  C28: The exchange delivers in order and without loss: whatever the interleaving of sends and
  polls, as long as nothing is broadcast in the room, the envelopes a device has received there
  followed by those still queued for it are exactly those accepted for it, in order.
\<close>

theorem signal_fifo:
  assumes "signal_run NewHub es h" and "\<forall>e \<in> set es. \<not> broadcasts_in r e"
  shows "concat (map (received_by r d) es) @ hub_queue r d h = concat (map (sent_to r d) es)"
  using mb.fifo [OF assms, of d] by simp

theorem signal_fifo_witness:
  "\<exists>h. signal_run NewHub [Published sample_env (Inr ()), Received ''a|b'' ''b'' (sample_env\<lparr>Room_x := ''a|b''\<rparr>)] h \<and>
     hub_queue ''a|b'' ''b'' h = []"
proof -
  let ?h = "snd (Publish sample_env NewHub)" and ?e = "sample_env\<lparr>Room_x := ''a|b''\<rparr>"
  have 1: "signal_run NewHub [Published sample_env (Inr ())] ?h"
    using sample_Publish(1) by (intro signal_run_step) (simp add: signal_step_simps prod_eq_iff)
  obtain p where "receive ''a|b'' ''b'' ?h = Some p"
    using receive_queue(1) [of "''a|b''" "''b''" ?h] sample_Publish(2) by (cases "receive ''a|b'' ''b'' ?h") auto
  then obtain h where 2: "receive ''a|b'' ''b'' ?h = Some (?e, h)"
    using receive_queue(2) [of "''a|b''" "''b''" ?h "fst p" "snd p"] sample_Publish(2) by (cases p) auto
  have run: "signal_run NewHub [Published sample_env (Inr ()), Received ''a|b'' ''b'' ?e] h"
    using run_snoc [OF 1 received [OF 2]] by simp
  have "\<forall>e \<in> set [Published sample_env (Inr ()), Received ''a|b'' ''b'' ?e]. \<not> broadcasts_in ''a|b'' e"
    by (simp add: broadcasts_in_def sample_env_room)
  then show ?thesis
    using signal_fifo [OF run, of "''a|b''" "''b''"] run by (auto simp: sent_to_def sample_env_room)
qed

text \<open>
  C29: Queues are bounded and refusals are exact: in every reachable state no queue holds more
  than 32 envelopes, a directed envelope is refused exactly when its queue is full, and a
  refused envelope leaves every queue as it was.
\<close>

theorem signal_queue_bounded:
  assumes "signal_run NewHub es h" and "To_x env \<noteq> ''''" and "Publish env h = (res, h')"
  shows "length (hub_queue r d h) \<le> 32 \<and>
    (res = Inl QueueFull \<longleftrightarrow> length (hub_queue (publish_room env) (To_x env) h) = 32) \<and>
    (res = Inl QueueFull \<longrightarrow> hub_queue r d h' = hub_queue r d h)"
proof -
  have "length (hub_queue i x h) \<le> 32" for i x
    using signal_run_bounded [OF assms(1)] by simp
  then show ?thesis
    using Publish_directed(1) [OF assms(2), of h] Publish_directed(2) [OF assms(2), of r d h] assms(3)
    by (auto simp: sent_to_def not_less intro: le_antisym)
qed

theorem signal_queue_bounded_witness:
  "length (hub_queue ''a|b'' ''b'' NewHub) \<le> 32 \<and>
   (fst (Publish sample_env NewHub) = Inl QueueFull \<longleftrightarrow> length (hub_queue ''a|b'' ''b'' NewHub) = 32)"
  using signal_queue_bounded [OF run_Nil, of sample_env "fst (Publish sample_env NewHub)" "snd (Publish sample_env NewHub)"
      "''a|b''" "''b''"]
  by (simp add: sample_env_room)

text \<open>
  Two devices meet: what one device sends to another without naming a room is what the
  other gets from its next poll of the room of the two, after what was already waiting there,
  and whichever of the two names comes first.
\<close>

theorem signal_rendezvous:
  assumes "Type_x env \<noteq> ''''" "From_x env \<noteq> ''''" "To_x env \<noteq> ''''" "Room_x env = ''''"
    and "length (hub_queue (RoomID (From_x env) (To_x env)) (To_x env) h) < 16"
    and "handleSend (Some env) h = (resp, h1)"
  shows "resp = (200, SignalOK) \<and>
    fst (handlePoll parse (RoomID (To_x env) (From_x env)) (To_x env) w arrivals h1) =
      (200, Messages (hub_queue (RoomID (From_x env) (To_x env)) (To_x env) h @
         [env\<lparr>Room_x := RoomID (From_x env) (To_x env)\<rparr>]))"
proof -
  let ?r = "RoomID (From_x env) (To_x env)" and ?d = "To_x env"
  let ?e = "env\<lparr>Room_x := ?r\<rparr>"
  have r: "?r \<noteq> ''''" "RoomID (To_x env) (From_x env) = ?r" by (auto simp: RoomID_def)
  have pr: "publish_room ?e = ?r" using r by (simp add: publish_room_def)
  have ok: "fst (Publish ?e h) = Inr ()" using Publish_directed(1) [of ?e h] assms(3,5) pr by simp
  then have resp: "resp = (200, SignalOK)" "h1 = snd (Publish ?e h)"
    using assms r by (auto simp: handleSend_def Let_def split: prod.splits sum.splits)
  have q: "hub_queue ?r ?d h1 = hub_queue ?r ?d h @ [?e]"
    using Publish_directed(2) [of ?e ?r ?d h] assms(3) ok pr resp(2) by (simp add: sent_to_def)
  then have "fst (Drain ?r ?d 16 h1) = hub_queue ?r ?d h @ [?e]"
    using Drain_queue(1) [of ?r ?d 16 h1] assms(5) by simp
  then show ?thesis
    using resp r assms(3) by (simp add: handlePoll_def Let_def split_beta)
qed

theorem signal_rendezvous_witness:
  "fst (handlePoll (\<lambda>_. None) ''a|b'' ''b'' '''' [] (snd (handleSend (Some sample_env) NewHub))) =
     (200, Messages [sample_env\<lparr>Room_x := ''a|b''\<rparr>])"
  using signal_rendezvous [of sample_env NewHub "fst (handleSend (Some sample_env) NewHub)"
      "snd (handleSend (Some sample_env) NewHub)" "\<lambda>_. None" "''''" "[]"]
  by (simp add: sample_env_def RoomID_def)

end
