(* ===== verification/Desktop.thy ===== *)
theory Desktop
  imports KACheck Agent Signal
begin

text \<open>
  Two small servers: the desktop page's proxy to the node's local interface, \<^verbatim>\<open>cmd/coe-tray/main.go\<close>,
  and the signalling program, \<^verbatim>\<open>cmd/coe-signal/main.go\<close>, with the routes of \<^verbatim>\<open>internal/signal/server.go\<close>
  behind its cross-origin headers. The page itself is a constant. The HTTP client of the proxy is an
  argument; so is whether a method and a URL make a request. Sockets, the browser and printing are
  left out.
\<close>

section \<open>Definitions\<close>

subsection \<open>coe-tray\<close>

type_synonym headers = "(string \<times> string) list"

record tray_request =
  tr_Method :: string
  tr_Path :: string
  tr_RawQuery :: string
  tr_ContentType :: string
  tr_Authorization :: string
  tr_Body :: "bytes option"

record out_request =
  or_Method :: string
  or_URL :: string
  or_Authorization :: string
  or_ContentType :: string
  or_Body :: "bytes option"

datatype tray_answer =
    TrayIndex
  | TrayNotFound
  | TrayError nat
  | TrayReply nat headers bytes

definition proxy_url :: "string \<Rightarrow> tray_request \<Rightarrow> string" where
  "proxy_url apiBase r =
     (let path = TrimPrefix (tr_Path r) ''/proxy'';
          path = (if path = '''' then ''/'' else path);
          url = apiBase @ path
      in if tr_RawQuery r \<noteq> '''' then url @ ''?'' @ tr_RawQuery r else url)"

definition proxy_request :: "string \<Rightarrow> string \<Rightarrow> tray_request \<Rightarrow> out_request" where
  "proxy_request apiBase token r =
     \<lparr>or_Method = tr_Method r, or_URL = proxy_url apiBase r,
      or_Authorization = (if token \<noteq> '''' then ''Bearer '' @ token else ''''), or_ContentType = tr_ContentType r,
      or_Body = (if tr_Method r \<noteq> ''GET'' \<and> tr_Method r \<noteq> ''HEAD'' then tr_Body r else None)\<rparr>"

definition proxy ::
    "(string \<Rightarrow> string \<Rightarrow> bool) \<Rightarrow> (out_request \<Rightarrow> 'w \<Rightarrow> (nat \<times> headers \<times> bytes) option \<times> 'w) \<Rightarrow> string \<Rightarrow> string \<Rightarrow> tray_request
     \<Rightarrow> 'w \<Rightarrow> tray_answer \<times> 'w" where
  "proxy new_ok http apiBase token r w =
     (let q = proxy_request apiBase token r in
      if \<not> new_ok (or_Method q) (or_URL q) then (TrayError 500, w)
      else case http q w of
        (None, w') \<Rightarrow> (TrayError 502, w')
      | (Some (code, hs, b), w') \<Rightarrow> (TrayReply code (filter (\<lambda>(k, v). ToLower k \<noteq> ''content-length'') hs) b, w'))"

definition serveIndex :: "tray_request \<Rightarrow> tray_answer" where
  "serveIndex r = (if tr_Path r \<noteq> ''/'' then TrayNotFound else TrayIndex)"

text \<open>The two handlers that \<open>main\<close> mounts, for a path that the router has cleaned.\<close>

definition tray_serve ::
    "(string \<Rightarrow> string \<Rightarrow> bool) \<Rightarrow> (out_request \<Rightarrow> 'w \<Rightarrow> (nat \<times> headers \<times> bytes) option \<times> 'w) \<Rightarrow> string \<Rightarrow> string \<Rightarrow> tray_request
     \<Rightarrow> 'w \<Rightarrow> tray_answer \<times> 'w" where
  "tray_serve new_ok http api token r w =
     (if HasPrefix (tr_Path r) ''/proxy/'' then proxy new_ok http (TrimRight api (CHR ''/'')) token r w
      else (serveIndex r, w))"

text \<open>
  The start of the tray: the defaults of its flags come from the environment; \<open>listens\<close> is the address that
  \<open>net.Listen\<close> bound, if it did. The result is the page's address and the command that opens it.
\<close>

definition envOr :: "(string \<Rightarrow> string) \<Rightarrow> string \<Rightarrow> string \<Rightarrow> string" where
  "envOr env k d = (if env k \<noteq> '''' then env k else d)"

definition openBrowser :: "string \<Rightarrow> string \<Rightarrow> string list" where
  "openBrowser goos url =
     (if goos = ''windows'' then [''cmd'', ''/c'', ''start'', '''', url]
      else if goos = ''darwin'' then [''open'', url]
      else [''xdg-open'', url])"

definition tray_api :: "(string \<Rightarrow> string) \<Rightarrow> string option \<Rightarrow> string" where
  "tray_api env flag = (case flag of Some v \<Rightarrow> v | None \<Rightarrow> envOr env ''COE_API'' ''http://127.0.0.1:7701'')"

definition tray_token :: "(string \<Rightarrow> string) \<Rightarrow> string option \<Rightarrow> string" where
  "tray_token env flag = (case flag of Some v \<Rightarrow> v | None \<Rightarrow> envOr env ''COE_API_TOKEN'' '''')"

definition tray_main :: "string \<Rightarrow> (string \<Rightarrow> string option) \<Rightarrow> string option \<Rightarrow> bool \<Rightarrow> (string \<times> string list option) option" where
  "tray_main goos listens listen noOpen =
     (case listens (case listen of Some a \<Rightarrow> a | None \<Rightarrow> ''127.0.0.1:0'') of
        None \<Rightarrow> None
      | Some addr \<Rightarrow> (let uiURL = ''http://'' @ addr @ ''/'' in Some (uiURL, if noOpen then None else Some (openBrowser goos uiURL))))"

text \<open>
  The node at the other end: \<open>dec\<close> is the router of the local interface with the decoding of bodies,
  which sees the method, the URL and the body, and \<open>enc\<close> encodes the answers.
\<close>

definition agent_http ::
    "crypto_lib \<Rightarrow> codec \<Rightarrow> local_env \<Rightarrow> LocalAPI \<Rightarrow> (string \<Rightarrow> string \<Rightarrow> bytes option \<Rightarrow> local_call option) \<Rightarrow> (local_body \<Rightarrow> bytes)
     \<Rightarrow> out_request \<Rightarrow> AgentHub \<Rightarrow> (nat \<times> headers \<times> bytes) option \<times> AgentHub" where
  "agent_http L J w a dec enc q h =
     (case dec (or_Method q) (or_URL q) (or_Body q) of
        None \<Rightarrow> (Some (404, [], []), h)
      | Some c \<Rightarrow> (case local_serve L J w a (or_Authorization q) c h of
            ((code, b), h') \<Rightarrow> (Some (code, [(''Content-Type'', ''application/json'')], enc b), h')))"

subsection \<open>coe-signal\<close>

datatype signal_call =
    SigSend "Envelope option"
  | SigPoll string string string "(i64 \<times> Envelope) list"
  | SigHealth

datatype signal_reply =
    SigBody signal_body
  | SigHealthOK
  | SigPreflight

definition signal_serve :: "(string \<Rightarrow> i64 option) \<Rightarrow> signal_call \<Rightarrow> Hub \<Rightarrow> (nat \<times> signal_reply) \<times> Hub" where
  "signal_serve parse c h = (case c of
     SigSend body \<Rightarrow> apfst (apsnd SigBody) (handleSend body h)
   | SigPoll q_room q_from q_wait arrivals \<Rightarrow> apfst (apsnd SigBody) (handlePoll parse q_room q_from q_wait arrivals h)
   | SigHealth \<Rightarrow> ((200, SigHealthOK), h))"

definition cors_headers :: headers where
  "cors_headers = [(''Access-Control-Allow-Origin'', ''*''), (''Access-Control-Allow-Headers'', ''Content-Type'')]"

definition withCORS ::
    "(Hub \<Rightarrow> (nat \<times> signal_reply) \<times> Hub) \<Rightarrow> string \<Rightarrow> Hub \<Rightarrow> (headers \<times> nat \<times> signal_reply) \<times> Hub" where
  "withCORS handler method h =
     (if method = ''OPTIONS'' then ((cors_headers, 204, SigPreflight), h) else apfst (Pair cors_headers) (handler h))"

definition coe_signal ::
    "'k tls_lib \<Rightarrow> time \<Rightarrow> bool \<Rightarrow> string \<Rightarrow> string \<Rightarrow> (disk, tls_error, Hub \<times> 'k option) go" where
  "coe_signal T now mkdir tlsCert tlsKey = (\<lambda>d.
     if tlsCert \<noteq> '''' \<and> tlsKey \<noteq> '''' then
       (case EnsureServerCert T now mkdir tlsCert tlsKey [''localhost'', ''127.0.0.1''] d of
          (Inl e, d') \<Rightarrow> (Inl e, d')
        | (Inr cert, d') \<Rightarrow> (Inr (NewHub, Some cert), d'))
     else (Inr (NewHub, None), d))"

section \<open>Lemmas\<close>

lemma proxy_ignores_caller: "proxy_request apiBase token (r\<lparr>tr_Authorization := x\<rparr>) = proxy_request apiBase token r"
  by (simp add: proxy_request_def proxy_url_def Let_def)

text \<open>Unless it is told otherwise the tray binds to the loopback, and it opens exactly the page it serves.\<close>

lemma tray_opens_its_page:
  assumes "tray_main goos listens None False = Some (url, cmd)"
  shows "\<exists>addr args. listens ''127.0.0.1:0'' = Some addr \<and> url = ''http://'' @ addr @ ''/'' \<and> cmd = Some (args @ [url])"
  using assms by (auto simp: tray_main_def openBrowser_def Let_def split: option.splits if_splits)

text \<open>A preflight request changes nothing; every other request is answered as without the headers.\<close>

lemma withCORS_transparent:
  "withCORS (signal_serve parse c) method h =
     (if method = ''OPTIONS'' then ((cors_headers, 204, SigPreflight), h)
      else ((cors_headers, fst (signal_serve parse c h)), snd (signal_serve parse c h)))"
  by (cases "signal_serve parse c h") (simp add: withCORS_def)

text \<open>With only one of the two TLS flags the program serves plain HTTP, without an error.\<close>

lemma coe_signal_half_tls:
  "coe_signal T now mkdir tlsCert '''' d = (Inr (NewHub, None), d)" "coe_signal T now mkdir '''' tlsKey d = (Inr (NewHub, None), d)"
  by (simp_all add: coe_signal_def)

section \<open>Properties\<close>

text \<open>
  The desktop proxy lends its token to everybody: a request to the proxy has the effect and the
  answer that the token's owner would get, whatever authorization the caller presents, while the
  node itself refuses the same call with 401 when that authorization is not the token.
\<close>

theorem tray_lends_token:
  assumes "HasPrefix (tr_Path r) ''/proxy/''" "new_ok (tr_Method r) (proxy_url (TrimRight api (CHR ''/'')) r)"
    and "dec (tr_Method r) (proxy_url (TrimRight api (CHR ''/'')) r)
      (if tr_Method r \<noteq> ''GET'' \<and> tr_Method r \<noteq> ''HEAD'' then tr_Body r else None) = Some c"
    and "Token_o a \<noteq> ''''" "tr_Authorization r \<noteq> ''Bearer '' @ Token_o a"
  shows "tray_serve new_ok (agent_http L J w a dec enc) api (Token_o a) r h =
      (case local_route L J w a c h of
         ((code, b), h') \<Rightarrow> (TrayReply code [(''Content-Type'', ''application/json'')] (enc b), h')) \<and>
    local_serve L J w a (tr_Authorization r) c h = ((401, LError ''unauthorized''), h)"
proof
  have "ToLower ''Content-Type'' \<noteq> ''content-length''" by code_simp
  moreover have "local_serve L J w a (''Bearer '' @ Token_o a) c h = local_route L J w a c h"
    by (simp add: local_serve_def auth_def)
  ultimately show "tray_serve new_ok (agent_http L J w a dec enc) api (Token_o a) r h =
      (case local_route L J w a c h of
         ((code, b), h') \<Rightarrow> (TrayReply code [(''Content-Type'', ''application/json'')] (enc b), h'))"
    using assms by (simp add: tray_serve_def proxy_def proxy_request_def agent_http_def Let_def split: prod.split)
  show "local_serve L J w a (tr_Authorization r) c h = ((401, LError ''unauthorized''), h)"
    using assms(4,5) by (simp add: local_serve_def auth_def)
qed

definition page_request :: tray_request where
  "page_request = \<lparr>tr_Method = ''POST'', tr_Path = ''/proxy/v1/peers'', tr_RawQuery = '''', tr_ContentType = ''application/json'',
     tr_Authorization = '''', tr_Body = Some []\<rparr>"

theorem tray_lends_token_witness:
  "snd (tray_serve (\<lambda>_ _. True) (agent_http xor_lib field_codec idle_env \<lparr>DeviceID_o = ''a'', Token_o = ''t'', Status_o = []\<rparr>
      (\<lambda>_ _ _. Some (LPeersPost (Some (''b'', ''host:1'')))) (\<lambda>_. [])) ''http://n/'' ''t'' page_request
      (NewAgentHub (Local alice))) = AddPeer ''b'' ''host:1'' (NewAgentHub (Local alice))"
proof -
  let ?a = "\<lparr>DeviceID_o = ''a'', Token_o = ''t'', Status_o = []\<rparr> :: LocalAPI"
  let ?c = "LPeersPost (Some (''b'', ''host:1''))"
  have "HasPrefix (tr_Path page_request) ''/proxy/''" "tr_Authorization page_request \<noteq> ''Bearer '' @ Token_o ?a"
    by (simp_all add: page_request_def HasPrefix_def)
  then show ?thesis
    using tray_lends_token [of page_request "\<lambda>_ _. True" "''http://n/''" "\<lambda>_ _ _. Some ?c" ?c ?a xor_lib field_codec idle_env "\<lambda>_. []" "NewAgentHub (Local alice)"]
    by (simp add: local_route_def api_handlePeersPost_def)
qed

end
