(* ===== verification/KAMain.thy ===== *)
theory KAMain
  imports KAClient MasterKey TLSUtil
begin

text \<open>
  The key authority program, \<^verbatim>\<open>cmd/ka/main.go\<close>: the guards of production mode, the order in which the
  master key, the store, the update manifest, the generator and the certificate are brought up,
  and the server that results. \<open>log.Fatal\<close> is an error value. The store's files and the other files
  are two disks. How a store is opened is the argument \<open>open_store\<close>: \<open>open_registry\<close> for the file
  store, \<open>open_database\<close> for the two kinds of database. Opening the audit file succeeds or
  fails as the environment says; the listening socket is left out.
\<close>

section \<open>Definitions\<close>

record ka_flags =
  k_master :: string
  k_registry :: string
  k_sqlite :: string
  k_postgres :: string
  k_updateManifest :: string
  k_adminTok :: string
  k_tlsCert :: string
  k_tlsKey :: string
  k_plain :: bool
  k_noSig :: bool
  k_rateLimit :: int
  k_prod :: bool
  k_auditFile :: string
  k_hosts :: string

datatype ka_main_error =
    ProdToken
  | ProdPlain
  | MasterFailed master_error
  | OpenStoreFailed
  | ManifestFailed update_error
  | GeneratorFailed
  | AuditDirFailed
  | AuditFileFailed
  | CertFailed tls_error

datatype store_kind = Postgres | SQLite | JSONFile

definition prod_guard :: "ka_flags \<Rightarrow> ka_main_error option" where
  "prod_guard f =
     (if k_prod f then
        (if k_adminTok f = '''' \<or> k_adminTok f = ''dev-admin-token'' then Some ProdToken
         else if k_plain f then Some ProdPlain else None)
      else None)"

definition store_backend :: "ka_flags \<Rightarrow> store_kind" where
  "store_backend f = (if k_postgres f \<noteq> '''' then Postgres else if k_sqlite f \<noteq> '''' then SQLite else JSONFile)"

definition ka_limit :: "ka_flags \<Rightarrow> RateLimiter option" where
  "ka_limit f = (if k_rateLimit f > 0 then Some (NewRateLimiter (k_rateLimit f) 60000000000) else None)"

definition ka_server :: "ka_flags \<Rightarrow> bytes \<Rightarrow> 's \<Rightarrow> Xoroshiro128pp \<Rightarrow> 's Server" where
  "ka_server f master store xo = \<lparr>Master = master, Registry_f = store, XO = xo, Audit = [], AdminTok = k_adminTok f,
     RequireSignature = (\<not> k_noSig f), RequireAdminToken = k_prod f, TLSActive = (\<not> k_plain f)\<rparr>"

definition tls_hosts :: "ka_flags \<Rightarrow> string list" where
  "tls_hosts f = (if k_hosts f \<noteq> '''' then strings_Split (CHR '','') (k_hosts f) else default_hosts)"

text \<open>What is running after a start: the certificate is missing under plain HTTP.\<close>

record ('s, 'k) ka_running =
  run_server :: "'s Server"
  run_limit :: "RateLimiter option"
  run_updates :: UpdateHub
  run_cert :: "'k option"

text \<open>The environment of one start.\<close>

record 'k ka_env =
  e_tls :: "'k tls_lib"
  e_sha256 :: "bytes \<Rightarrow> bytes"
  e_manifest :: "UpdateManifest json"
  e_mkdir :: bool
  e_auditOpen :: bool
  e_rand :: bytes
  e_entropy :: bytes
  e_now :: time

definition audit_open :: "'k ka_env \<Rightarrow> ka_flags \<Rightarrow> ka_main_error option" where
  "audit_open e f =
     (if k_auditFile f \<noteq> '''' then
        (if \<not> e_mkdir e then Some AuditDirFailed else if \<not> e_auditOpen e then Some AuditFileFailed else None)
      else None)"

definition ka_main ::
    "'k ka_env \<Rightarrow> (store_kind \<Rightarrow> 'd \<Rightarrow> 's option \<times> 'd) \<Rightarrow> ka_flags \<Rightarrow> (disk \<times> 'd, ka_main_error, ('s, 'k) ka_running) go" where
  "ka_main e open_store f = (\<lambda>(fs, d).
     case prod_guard f of
       Some err \<Rightarrow> (Inl err, fs, d)
     | None \<Rightarrow>
     (case loadOrCreateMaster (e_mkdir e) (e_rand e) (k_master f) fs of
        (Inl err, fs1) \<Rightarrow> (Inl (MasterFailed err), fs1, d)
      | (Inr master, fs1) \<Rightarrow>
     (case open_store (store_backend f) d of
        (None, d1) \<Rightarrow> (Inl OpenStoreFailed, fs1, d1)
      | (Some store, d1) \<Rightarrow>
     (case LoadUpdateManifest (e_manifest e) (k_updateManifest f) fs1 of
        Inl err \<Rightarrow> (Inl (ManifestFailed err), fs1, d1)
      | Inr upd \<Rightarrow>
     (case NewXoroshiroFromMaster (e_sha256 e) (e_entropy e) master of
        None \<Rightarrow> (Inl GeneratorFailed, fs1, d1)
      | Some xo \<Rightarrow>
     (case audit_open e f of
        Some err \<Rightarrow> (Inl err, fs1, d1)
      | None \<Rightarrow>
        (let srv = ka_server f master store xo in
         if k_plain f then
           (Inr \<lparr>run_server = srv, run_limit = ka_limit f, run_updates = upd, run_cert = None\<rparr>, fs1, d1)
         else case EnsureServerCert (e_tls e) (e_now e) (e_mkdir e) (k_tlsCert f) (k_tlsKey f) (tls_hosts f) fs1 of
           (Inl err, fs2) \<Rightarrow> (Inl (CertFailed err), fs2, d1)
         | (Inr cert, fs2) \<Rightarrow>
           (Inr \<lparr>run_server = srv, run_limit = ka_limit f, run_updates = upd, run_cert = Some cert\<rparr>, fs2, d1))))))))"

text \<open>Opening the file store.\<close>

definition open_registry :: "reg_data json \<Rightarrow> string \<Rightarrow> store_kind \<Rightarrow> disk \<Rightarrow> Registry option \<times> disk" where
  "open_registry J path kind d =
     (if kind = JSONFile then
        (case LoadRegistry J path d of (Inr r, d') \<Rightarrow> (Some r, d') | (Inl _, d') \<Rightarrow> (None, d'))
      else (None, d))"

text \<open>Opening a database: \<open>mkdir\<close> and \<open>open_ok\<close> are the outcomes of \<open>os.MkdirAll\<close> and \<open>sql.Open\<close>.\<close>

definition open_database :: "bool \<Rightarrow> bool \<Rightarrow> store_kind \<Rightarrow> sql_file \<Rightarrow> sql_db option \<times> sql_file" where
  "open_database mkdir open_ok kind f =
     (case (case kind of
              Postgres \<Rightarrow> OpenPostgresStore open_ok f
            | SQLite \<Rightarrow> if mkdir then OpenSQLStore open_ok f else (Inl Persist, f)
            | JSONFile \<Rightarrow> (Inl Persist, f)) of
        (Inr db, f') \<Rightarrow> (Some db, f')
      | (Inl _, f') \<Rightarrow> (None, f'))"

section \<open>Lemmas\<close>

lemma ka_main_InrD:
  assumes "ka_main e open_store f (fs, d) = (Inr run, fs2, d1)"
  obtains master fs1 store xo where "prod_guard f = None"
    "loadOrCreateMaster (e_mkdir e) (e_rand e) (k_master f) fs = (Inr master, fs1)"
    "open_store (store_backend f) d = (Some store, d1)" "run_server run = ka_server f master store xo"
    "LoadUpdateManifest (e_manifest e) (k_updateManifest f) fs1 = Inr (run_updates run)" "run_limit run = ka_limit f"
    "if k_plain f then fs2 = fs1 \<and> run_cert run = None
     else \<exists>cert. EnsureServerCert (e_tls e) (e_now e) (e_mkdir e) (k_tlsCert f) (k_tlsKey f) (tls_hosts f) fs1 = (Inr cert, fs2) \<and>
       run_cert run = Some cert"
  using assms
  by (auto simp: ka_main_def Let_def split: option.splits prod.splits sum.splits if_splits)

lemma ka_main_InrI:
  assumes "prod_guard f = None" "loadOrCreateMaster (e_mkdir e) (e_rand e) (k_master f) fs = (Inr master, fs1)"
    "open_store (store_backend f) d = (Some store, d1)"
    "LoadUpdateManifest (e_manifest e) (k_updateManifest f) fs1 = Inr upd" "16 \<le> length (e_entropy e)" "audit_open e f = None"
    "if k_plain f then fs2 = fs1
     else EnsureServerCert (e_tls e) (e_now e) (e_mkdir e) (k_tlsCert f) (k_tlsKey f) (tls_hosts f) fs1 = (Inr cert, fs2)"
  shows "\<exists>run xo. ka_main e open_store f (fs, d) = (Inr run, fs2, d1) \<and> run_server run = ka_server f master store xo \<and>
    run_cert run = (if k_plain f then None else Some cert)"
proof -
  obtain xo where "NewXoroshiroFromMaster (e_sha256 e) (e_entropy e) master = Some xo"
    using assms(5) by (auto simp: NewXoroshiroFromMaster_def Let_def)
  then show ?thesis using assms by (auto simp: ka_main_def Let_def split: if_splits)
qed

text \<open>
  The next start on the same disk: the master key and the certificate are those of the first, and
  nothing is written, whatever the store has become.
\<close>

lemma ka_main_restart:
  assumes "ka_main e open_store f (fs, d) = (Inr run, fs2, d1)"
    and "open_store2 (store_backend f) d2 = (Some store2, d3)"
    and "X509KeyPair (e_tls e2) = X509KeyPair (e_tls e)" "16 \<le> length (e_entropy e2)" "audit_open e2 f = None"
    and "LoadUpdateManifest (e_manifest e2) (k_updateManifest f) fs2 = Inr upd2"
    and "k_tlsCert f \<noteq> ''''" "k_tlsKey f \<noteq> ''''" "distinct [k_master f, k_tlsCert f, k_tlsKey f]"
  shows "\<exists>run2. ka_main e2 open_store2 f (fs2, d2) = (Inr run2, fs2, d3) \<and>
    Master (run_server run2) = Master (run_server run) \<and> Registry_f (run_server run2) = store2 \<and> run_cert run2 = run_cert run"
proof -
  obtain master fs1 store xo where i: "prod_guard f = None"
    "loadOrCreateMaster (e_mkdir e) (e_rand e) (k_master f) fs = (Inr master, fs1)" "run_server run = ka_server f master store xo"
    "if k_plain f then fs2 = fs1 \<and> run_cert run = None
     else \<exists>cert. EnsureServerCert (e_tls e) (e_now e) (e_mkdir e) (k_tlsCert f) (k_tlsKey f) (tls_hosts f) fs1 = (Inr cert, fs2) \<and>
       run_cert run = Some cert"
    by (rule ka_main_InrD [OF assms(1)])
  have "os_ReadFile (k_master f) fs2 = os_ReadFile (k_master f) fs1"
    using i(4) EnsureServerCert_other [OF _ assms(7,8)] assms(9) by (auto split: if_splits)
  with master_on_file [OF i(2)] have m: "loadOrCreateMaster (e_mkdir e2) (e_rand e2) (k_master f) fs2 = (Inr master, fs2)" by auto
  have c: "if k_plain f then fs2 = fs2
     else EnsureServerCert (e_tls e2) (e_now e2) (e_mkdir e2) (k_tlsCert f) (k_tlsKey f) (tls_hosts f) fs2 = (Inr (the (run_cert run)), fs2)"
    using i(4) EnsureServerCert_again [OF _ assms(7,8) _ assms(3)] assms(9) by (auto split: if_splits)
  obtain run2 xo2 where "ka_main e2 open_store2 f (fs2, d2) = (Inr run2, fs2, d3)"
    "run_server run2 = ka_server f master store2 xo2" "run_cert run2 = (if k_plain f then None else Some (the (run_cert run)))"
    using ka_main_InrI [where open_store = open_store2, OF i(1) m assms(2,6,4,5) c] by blast
  then show ?thesis using i(3,4) by (auto simp: ka_server_def split: if_splits)
qed

text \<open>With a database, the next start finds exactly the rows that the last one left.\<close>

lemma restart_keeps_database:
  assumes "ka_main e (open_database m ok) f (fs, d) = (Inr run, fs2, d1)" "store_backend f = SQLite" "stmts db = []"
    and "X509KeyPair (e_tls e2) = X509KeyPair (e_tls e)" "16 \<le> length (e_entropy e2)" "audit_open e2 f = None"
    and "LoadUpdateManifest (e_manifest e2) (k_updateManifest f) fs2 = Inr upd2"
    and "k_tlsCert f \<noteq> ''''" "k_tlsKey f \<noteq> ''''" "distinct [k_master f, k_tlsCert f, k_tlsKey f]"
  shows "\<exists>run2. ka_main e2 (open_database True True) f (fs2, sql_left db) = (Inr run2, fs2, sql_left db) \<and>
    Master (run_server run2) = Master (run_server run) \<and> Registry_f (run_server run2) = db \<and> run_cert run2 = run_cert run"
  by (rule ka_main_restart [where ?open_store2.0 = "open_database True True", OF assms(1) _ assms(4-10)]) (use assms(2,3) in \<open>simp add: open_database_def OpenSQLStore_left\<close>)

section \<open>Properties\<close>

text \<open>
  C25: In production mode nothing runs unguarded: a server that came up with \<open>-prod\<close> has an
  administrator's token that is neither empty nor the default, serves TLS with a certificate, and
  recognises an administrator by exactly that token.
\<close>

theorem prod_mode_guarded:
  assumes "k_prod f" and "ka_main e open_store f s = (Inr run, s')"
  shows "k_adminTok f \<noteq> '''' \<and> k_adminTok f \<noteq> ''dev-admin-token'' \<and> TLSActive (run_server run) \<and> run_cert run \<noteq> None \<and>
    (\<forall>r. adminOK (run_server run) r \<longleftrightarrow> r_Authorization r = ''Bearer '' @ k_adminTok f)"
proof -
  obtain fs d fs2 d1 where "s = (fs, d)" "s' = (fs2, d1)" by fastforce
  with assms(2) have "ka_main e open_store f (fs, d) = (Inr run, fs2, d1)" by simp
  then show ?thesis
    by (elim ka_main_InrD) (use assms(1) in \<open>auto simp: prod_guard_def ka_server_def adminOK_def split: if_splits\<close>)
qed

definition sample_ka_flags :: ka_flags where
  "sample_ka_flags = \<lparr>k_master = ''m'', k_registry = ''f'', k_sqlite = '''', k_postgres = '''', k_updateManifest = '''',
     k_adminTok = ''s3cret'', k_tlsCert = ''crt'', k_tlsKey = ''key'', k_plain = False, k_noSig = False, k_rateLimit = 60,
     k_prod = True, k_auditFile = ''audit.log'', k_hosts = ''''\<rparr>"

definition sample_ka_env :: "nat ka_env" where
  "sample_ka_env = \<lparr>e_tls = toy_tls, e_sha256 = (\<lambda>_. replicate 32 0), e_manifest = \<lparr>Marshal = \<lambda>_. [], Unmarshal = \<lambda>_. None\<rparr>,
     e_mkdir = True, e_auditOpen = True, e_rand = replicate 32 9, e_entropy = replicate 16 7, e_now = 0\<rparr>"

lemma sample_ka_starts:
  "\<exists>run fs2 r. ka_main sample_ka_env (open_registry reg_codec ''f'') sample_ka_flags
     (\<lparr>files = [], script = []\<rparr>, \<lparr>files = [], script = []\<rparr>) = (Inr run, fs2, reg_disk r) \<and>
     Registry_f (run_server run) = r \<and> r = flushed reg_codec (fresh_registry ''f'' \<lparr>files = [], script = []\<rparr>) \<and>
     run_cert run = Some 7 \<and> Master (run_server run) = replicate 32 9"
proof -
  let ?d = "\<lparr>files = [], script = []\<rparr>" and ?f = sample_ka_flags and ?e = sample_ka_env
  let ?r = "flushed reg_codec (fresh_registry ''f'' ?d)"
  let ?k = "bytes_of (hex_EncodeToString (replicate 32 9) @ [CHR 0x0A])"
  have m: "loadOrCreateMaster (e_mkdir ?e) (e_rand ?e) (k_master ?f) ?d = (Inr (replicate 32 9), \<lparr>files = [(''m'', ?k)], script = []\<rparr>)"
    by (simp add: loadOrCreateMaster_def os_ReadFile_def os_WriteFile_def sample_ka_env_def sample_ka_flags_def Let_def
        del: bytes_of_append)
  have o: "open_registry reg_codec ''f'' (store_backend ?f) ?d = (Some ?r, reg_disk ?r)"
    by (simp add: open_registry_def store_backend_def sample_ka_flags_def LoadRegistry_def os_ReadFile_def reg_Save_def
        saveLocked_flushed fresh_registry_def Let_def)
  have c: "if k_plain ?f then fs2 = \<lparr>files = [(''m'', ?k)], script = []\<rparr> else
      EnsureServerCert (e_tls ?e) (e_now ?e) (e_mkdir ?e) (k_tlsCert ?f) (k_tlsKey ?f) (tls_hosts ?f) \<lparr>files = [(''m'', ?k)], script = []\<rparr> =
        (Inr 7, fs2)" if "fs2 = \<lparr>files = [(''m'', ?k), (''crt'', [7]), (''key'', [7])], script = []\<rparr>" for fs2
    using that by (simp add: EnsureServerCert_def GenerateSelfSigned_def toy_tls_def os_Stat_def os_ReadFile_def os_WriteFile_def
        sample_ka_env_def sample_ka_flags_def Let_def del: bytes_of_append)
  have g: "prod_guard ?f = None" "LoadUpdateManifest (e_manifest ?e) (k_updateManifest ?f) fs1 =
      Inr \<lparr>upd_path = '''', upd_manifest = no_manifest\<rparr>" "16 \<le> length (e_entropy ?e)" "audit_open ?e ?f = None" "k_plain ?f = False" for fs1
    by (simp_all add: prod_guard_def audit_open_def LoadUpdateManifest_def sample_ka_env_def sample_ka_flags_def)
  show ?thesis
    using ka_main_InrI [where open_store = "open_registry reg_codec ''f''", OF g(1) m o g(2-4) c [OF refl]] g(5) by (auto simp: ka_server_def)
qed

theorem prod_mode_guarded_witness:
  "\<exists>run s'. ka_main sample_ka_env (open_registry reg_codec ''f'') sample_ka_flags
     (\<lparr>files = [], script = []\<rparr>, \<lparr>files = [], script = []\<rparr>) = (Inr run, s') \<and>
     \<not> adminOK (run_server run) sample_request"
proof -
  obtain run s' where r: "ka_main sample_ka_env (open_registry reg_codec ''f'') sample_ka_flags
     (\<lparr>files = [], script = []\<rparr>, \<lparr>files = [], script = []\<rparr>) = (Inr run, s')"
    using sample_ka_starts by blast
  moreover have "k_prod sample_ka_flags" by (simp add: sample_ka_flags_def)
  ultimately show ?thesis using prod_mode_guarded [OF _ r] by (auto simp: sample_request_def)
qed



text \<open>
  The help text of \<open>-prod\<close> promises that rate limiting is on; the flag \<open>-rate-limit 0\<close> turns it off in
  production mode as well.
\<close>

lemma prod_without_rate_limit:
  assumes "k_rateLimit f \<le> 0" and "ka_main e open_store f s = (Inr run, s')"
  shows "run_limit run = None"
proof -
  obtain fs d fs2 d1 where "s = (fs, d)" "s' = (fs2, d1)" by fastforce
  with assms(2) have "ka_main e open_store f (fs, d) = (Inr run, fs2, d1)" by simp
  then show ?thesis by (elim ka_main_InrD) (use assms(1) in \<open>simp add: ka_limit_def\<close>)
qed

end
