(* ===== verification/Settings.thy ===== *)
theory Settings
  imports Programs Desktop KAMain
begin

text \<open>
  The settings of the programs: what the \<open>main\<close> functions under \<^verbatim>\<open>cmd/\<close> read from the command line and
  from the environment before they do anything. A flag that is given wins over the environment, and
  the environment over the constant in the source. \<open>cmdline\<close> is the result of \<open>flag.Parse\<close>; the
  environment maps a name to its value, the empty string when it is not set. \<open>envOr\<close> is the same
  function in all programs.
\<close>

section \<open>Definitions\<close>

record cmdline =
  strs :: "string \<Rightarrow> string option"
  bools :: "string \<Rightarrow> bool option"
  ints :: "string \<Rightarrow> int option"

definition no_flags :: cmdline where
  "no_flags = \<lparr>strs = (\<lambda>_. None), bools = (\<lambda>_. None), ints = (\<lambda>_. None)\<rparr>"

definition flag_String :: "cmdline \<Rightarrow> string \<Rightarrow> string \<Rightarrow> string" where
  "flag_String c name d = (case strs c name of Some v \<Rightarrow> v | None \<Rightarrow> d)"

definition flag_Bool :: "cmdline \<Rightarrow> string \<Rightarrow> bool \<Rightarrow> bool" where
  "flag_Bool c name d = (case bools c name of Some v \<Rightarrow> v | None \<Rightarrow> d)"

definition flag_Int :: "cmdline \<Rightarrow> string \<Rightarrow> int \<Rightarrow> int" where
  "flag_Int c name d = (case ints c name of Some v \<Rightarrow> v | None \<Rightarrow> d)"

definition ka_listen :: "(string \<Rightarrow> string) \<Rightarrow> cmdline \<Rightarrow> string" where
  "ka_listen env c = flag_String c ''listen'' (envOr env ''COE_KA_LISTEN'' ''127.0.0.1:8443'')"

definition ka_settings :: "(string \<Rightarrow> string) \<Rightarrow> cmdline \<Rightarrow> ka_flags" where
  "ka_settings env c = \<lparr>
     k_master = flag_String c ''master'' (envOr env ''COE_KA_MASTER_FILE'' ''data/ka/master.key''),
     k_registry = flag_String c ''registry'' (envOr env ''COE_KA_REGISTRY'' ''data/ka/registry.json''),
     k_sqlite = flag_String c ''sqlite'' (envOr env ''COE_KA_SQLITE'' ''''),
     k_postgres = flag_String c ''postgres'' (envOr env ''COE_KA_POSTGRES'' ''''),
     k_updateManifest = flag_String c ''update-manifest'' (envOr env ''COE_KA_UPDATE_MANIFEST'' ''''),
     k_adminTok = flag_String c ''admin-token'' (envOr env ''COE_KA_ADMIN_TOKEN'' ''dev-admin-token''),
     k_tlsCert = flag_String c ''tls-cert'' (envOr env ''COE_KA_TLS_CERT'' ''data/ka/tls/server.crt''),
     k_tlsKey = flag_String c ''tls-key'' (envOr env ''COE_KA_TLS_KEY'' ''data/ka/tls/server.key''),
     k_plain = flag_Bool c ''http'' False, k_noSig = flag_Bool c ''no-require-sig'' False,
     k_rateLimit = flag_Int c ''rate-limit'' 60, k_prod = flag_Bool c ''prod'' False,
     k_auditFile = flag_String c ''audit-file'' (envOr env ''COE_KA_AUDIT_FILE'' ''''),
     k_hosts = env ''COE_KA_TLS_HOSTS''\<rparr>"

definition check_settings :: "(string \<Rightarrow> string) \<Rightarrow> cmdline \<Rightarrow> check_flags" where
  "check_settings env c = \<lparr>
     f_url = flag_String c ''url'' (envOr env ''COE_KA_URL'' ''https://127.0.0.1:8443''),
     f_ca = flag_String c ''ca'' (envOr env ''COE_KA_CA'' ''''),
     f_insecure = flag_Bool c ''insecure'' False,
     f_adminTok = flag_String c ''admin-token'' (envOr env ''COE_KA_ADMIN_TOKEN'' ''''),
     f_masterFile = flag_String c ''master-file'' '''', f_registry = flag_String c ''registry'' '''',
     f_stun = flag_String c ''stun'' (envOr env ''COE_STUN'' ''stun:stun.l.google.com:19302''),
     f_turn = flag_String c ''turn'' (envOr env ''COE_TURN_URLS'' '''')\<rparr>"

record admin_flags =
  m_kaURL :: string
  m_kaCA :: string
  m_insecure :: bool
  m_adminTok :: string

definition admin_settings :: "(string \<Rightarrow> string) \<Rightarrow> cmdline \<Rightarrow> admin_flags" where
  "admin_settings env c = \<lparr>
     m_kaURL = flag_String c ''ka'' (envOr env ''COE_KA_URL'' ''https://127.0.0.1:8443''),
     m_kaCA = flag_String c ''ka-ca'' (envOr env ''COE_KA_CA'' ''data/ka/tls/server.crt''),
     m_insecure = flag_Bool c ''ka-insecure'' False,
     m_adminTok = flag_String c ''admin-token'' (envOr env ''COE_KA_ADMIN_TOKEN'' ''dev-admin-token'')\<rparr>"

definition admin_main ::
    "(bytes \<Rightarrow> bool) \<Rightarrow> disk \<Rightarrow> (tls_Config \<Rightarrow> 'w http) \<Rightarrow> (string \<Rightarrow> string) \<Rightarrow> cmdline \<Rightarrow> bytes \<Rightarrow> string list
     \<Rightarrow> 'w \<Rightarrow> admin_outcome \<times> 'w" where
  "admin_main certs fs http env c rb args = (let f = admin_settings env c in
     coe_admin certs fs http (m_kaURL f) (m_kaCA f) (m_insecure f) (m_adminTok f) rb args)"

text \<open>The base URL and the token of \<open>coe-cli\<close>; the certificate and key of \<open>coe-signal\<close> after its address.\<close>

definition cli_settings :: "(string \<Rightarrow> string) \<Rightarrow> cmdline \<Rightarrow> string \<times> string" where
  "cli_settings env c =
     (TrimRight (flag_String c ''api'' (envOr env ''COE_API'' ''http://127.0.0.1:7701'')) (CHR ''/''),
      flag_String c ''token'' (envOr env ''COE_API_TOKEN'' ''''))"

definition signal_settings :: "(string \<Rightarrow> string) \<Rightarrow> cmdline \<Rightarrow> string \<times> string \<times> string" where
  "signal_settings env c =
     (flag_String c ''listen'' (envOr env ''COE_SIGNAL_LISTEN'' ''127.0.0.1:8450''),
      flag_String c ''tls-cert'' (env ''COE_SIGNAL_TLS_CERT''), flag_String c ''tls-key'' (env ''COE_SIGNAL_TLS_KEY''))"

text \<open>The four flags of \<open>coe-keygen\<close>: device, file, profile and organisation.\<close>

definition keygen_settings :: "cmdline \<Rightarrow> string \<times> string \<times> string \<times> string" where
  "keygen_settings c = (flag_String c ''device-id'' '''', flag_String c ''out'' '''',
     flag_String c ''profile'' ''strong'', flag_String c ''org'' ''default'')"

section \<open>Lemmas\<close>

text \<open>Started without flags in an empty environment, the tools look where the servers are.\<close>

lemma defaults_meet:
  "m_kaURL (admin_settings (\<lambda>_. '''') no_flags) = ''https://'' @ ka_listen (\<lambda>_. '''') no_flags"
  "f_url (check_settings (\<lambda>_. '''') no_flags) = ''https://'' @ ka_listen (\<lambda>_. '''') no_flags"
  "flag_ka = ''https://'' @ ka_listen (\<lambda>_. '''') no_flags"
  "m_kaCA (admin_settings (\<lambda>_. '''') no_flags) = k_tlsCert (ka_settings (\<lambda>_. '''') no_flags)"
  "flag_ka_ca = k_tlsCert (ka_settings (\<lambda>_. '''') no_flags)"
  by (simp_all add: admin_settings_def check_settings_def ka_settings_def ka_listen_def flag_String_def no_flags_def
      envOr_def flag_ka_def flag_ka_ca_def)

lemma same_token:
  assumes "strs c ''admin-token'' = strs c' ''admin-token''"
  shows "k_adminTok (ka_settings env c) = m_adminTok (admin_settings env c')"
  using assms by (simp add: ka_settings_def admin_settings_def flag_String_def)

section \<open>Properties\<close>

text \<open>
  Production mode fails closed: a key authority that is started with \<open>-prod\<close> and given no
  administrator token, on the command line or in the environment, stops before it touches a file.
\<close>

theorem prod_without_token_stops:
  assumes "bools c ''prod'' = Some True" "strs c ''admin-token'' = None" "env ''COE_KA_ADMIN_TOKEN'' = ''''"
  shows "ka_main e open_store (ka_settings env c) (fs, d) = (Inl ProdToken, fs, d)"
  using assms by (simp add: ka_main_def prod_guard_def ka_settings_def flag_String_def flag_Bool_def envOr_def)

text \<open>
  The administrator's tool and the key authority fit together: started in the same environment and
  with the same \<open>-admin-token\<close> flag or none, the token that the tool sends is the one that the
  running authority asks for, so its requests are entitled.
\<close>

theorem admin_tool_entitled:
  assumes "ka_main e open_store (ka_settings env c) (fs, d) = (Inr run, fs', d')"
    and "strs c ''admin-token'' = strs c' ''admin-token''" "m_adminTok (admin_settings env c') \<noteq> ''''"
    and "AdminToken_k cl = m_adminTok (admin_settings env c')"
  shows "adminOK (run_server run) (client_request cl path True)"
proof -
  have "AdminTok (run_server run) = k_adminTok (ka_settings env c)"
    using assms(1) by (auto simp: ka_main_def ka_server_def Let_def split: option.splits prod.splits sum.splits if_splits)
  then show ?thesis
    using assms(3,4) same_token [OF assms(2), of env] by (simp add: adminOK_def client_request_def)
qed

end
