(* ===== verification/Rtc.thy ===== *)
theory Rtc
  imports Signal Ice
begin

text \<open>
  The signalling client, \<^verbatim>\<open>internal/signal/client.go\<close>, and the negotiation of a WebRTC connection over
  it, \<open>Dial\<close> and \<open>Accept\<close> of \<^verbatim>\<open>internal/webrtcx/dial.go\<close>. The HTTP exchange with the signalling
  server is a \<open>sig_http\<close> over the state of the network. The pion library is an \<open>rtc_lib\<close> over an
  abstract peer connection; \<open>rtc_lawful\<close> collects what its documentation says of the remote
  description. When the data channel opens is decided by the environment: a loop takes a list of
  turns, each with the clock and whether the channel is open by then.
\<close>

section \<open>Definitions\<close>

subsection \<open>client.go\<close>

record 'w sig_http =
  http_post :: "Envelope \<Rightarrow> 'w \<Rightarrow> (nat \<times> signal_body) option \<times> 'w"
  http_get :: "string \<Rightarrow> string \<Rightarrow> i64 \<Rightarrow> 'w \<Rightarrow> (nat \<times> signal_body) option \<times> 'w"

datatype sig_error = SendTransport | SendStatus nat | PollTransport | WaitTimeout string

text \<open>A client is the name it sends under.\<close>

record SignalClient =
  From_sc :: string

definition sc_NewClient :: "string \<Rightarrow> SignalClient" where
  "sc_NewClient from = \<lparr>From_sc = from\<rparr>"

definition sc_Send :: "'w sig_http \<Rightarrow> SignalClient \<Rightarrow> Envelope \<Rightarrow> ('w, sig_error, unit) go" where
  "sc_Send H c env = (\<lambda>w.
     case http_post H (env\<lparr>From_x := From_sc c\<rparr>) w of
       (None, w') \<Rightarrow> (Inl SendTransport, w')
     | (Some (code, _), w') \<Rightarrow> (if code \<ge> 400 then Inl (SendStatus code) else Inr (), w'))"

text \<open>\<open>Poll\<close> does not look at the status: an error answer decodes to no messages.\<close>

definition sc_Poll :: "'w sig_http \<Rightarrow> SignalClient \<Rightarrow> string \<Rightarrow> i64 \<Rightarrow> ('w, sig_error, Envelope list) go" where
  "sc_Poll H c room wait = (\<lambda>w.
     case http_get H room (From_sc c) wait w of
       (None, w') \<Rightarrow> (Inl PollTransport, w')
     | (Some (code, b), w') \<Rightarrow> (Inr (case b of Messages ms \<Rightarrow> ms | _ \<Rightarrow> []), w'))"

text \<open>
  The loop of \<open>WaitType\<close>; a turn has the two clock readings of an iteration. \<open>None\<close>: still polling
  after the last turn.
\<close>

fun wait_type_loop ::
    "'w sig_http \<Rightarrow> SignalClient \<Rightarrow> string \<Rightarrow> string \<Rightarrow> time \<Rightarrow> (time \<times> time) list \<Rightarrow> 'w
     \<Rightarrow> (sig_error + Envelope) option \<times> 'w" where
  "wait_type_loop H c room typ deadline [] w = (None, w)"
| "wait_type_loop H c room typ deadline ((now, now') # ts) w =
     (if \<not> now < deadline then (Some (Inl (WaitTimeout typ)), w)
      else
        let remain = deadline - now'; remain = (if remain > 20000000000 then 20000000000 else remain) in
        case sc_Poll H c room remain w of
          (Inl e, w') \<Rightarrow> (Some (Inl e), w')
        | (Inr msgs, w') \<Rightarrow>
          (case find (\<lambda>m. Type_x m = typ) msgs of
             Some m \<Rightarrow> (Some (Inr m), w')
           | None \<Rightarrow> wait_type_loop H c room typ deadline ts w'))"

definition WaitType ::
    "'w sig_http \<Rightarrow> SignalClient \<Rightarrow> string \<Rightarrow> string \<Rightarrow> time \<Rightarrow> i64 \<Rightarrow> (time \<times> time) list \<Rightarrow> 'w
     \<Rightarrow> (sig_error + Envelope) option \<times> 'w" where
  "WaitType H c room typ start overall turns = wait_type_loop H c room typ (start + overall) turns"

subsection \<open>dial.go\<close>

datatype SDPType = SDPTypeOffer | SDPTypeAnswer

text \<open>
  \<open>None\<close> is an error. \<open>gathered\<close> are the candidates reported to \<open>OnICECandidate\<close> until gathering is
  complete, as JSON text; \<open>AddICECandidate\<close> decodes such a text and adds the candidate.
\<close>

record 'pc rtc_lib =
  NewPeerConnection :: "ICEServer list \<Rightarrow> ICEPolicy \<Rightarrow> 'pc option"
  CreateDataChannel :: "'pc \<Rightarrow> 'pc option"
  CreateOffer :: "'pc \<Rightarrow> (string \<times> 'pc) option"
  CreateAnswer :: "'pc \<Rightarrow> (string \<times> 'pc) option"
  SetLocalDescription :: "string \<Rightarrow> 'pc \<Rightarrow> 'pc option"
  gathered :: "'pc \<Rightarrow> string list"
  LocalDescription :: "'pc \<Rightarrow> string"
  SetRemoteDescription :: "SDPType \<Rightarrow> string \<Rightarrow> 'pc \<Rightarrow> 'pc option"
  RemoteDescription :: "'pc \<Rightarrow> (SDPType \<times> string) option"
  AddICECandidate :: "string \<Rightarrow> 'pc \<Rightarrow> 'pc option"

datatype rtc_error = PCFailed | SignalFailed sig_error | RTCTimeout

definition newPC :: "(string \<Rightarrow> string) \<Rightarrow> 'pc rtc_lib \<Rightarrow> Config \<Rightarrow> 'pc option" where
  "newPC env R cfg0 =
     (let cfg = ApplyEnv env cfg0 in NewPeerConnection R (buildICEServers cfg) (iceTransportPolicy cfg))"

definition rtc_envelope :: "string \<Rightarrow> Config \<Rightarrow> string \<Rightarrow> string \<Rightarrow> Envelope" where
  "rtc_envelope typ cfg sdp ice = \<lparr>Type_x = typ, From_x = LocalID_w cfg, To_x = PeerID_w cfg,
     Room_x = RoomID (LocalID_w cfg) (PeerID_w cfg), SDP_x = sdp, ICE_x = ice, Error_x = ''''\<rparr>"

text \<open>The callback \<open>OnICECandidate\<close> for each candidate; errors of the sends are ignored.\<close>

fun send_candidates :: "'w sig_http \<Rightarrow> Config \<Rightarrow> string list \<Rightarrow> 'w \<Rightarrow> 'w" where
  "send_candidates H cfg [] w = w"
| "send_candidates H cfg (b # bs) w =
     send_candidates H cfg bs (snd (sc_Send H (sc_NewClient (LocalID_w cfg)) (rtc_envelope ''ice'' cfg '''' b) w))"

text \<open>\<open>Dial\<close> up to the sending of the offer, from a new peer connection.\<close>

definition dial_offer :: "(string \<Rightarrow> string) \<Rightarrow> 'pc rtc_lib \<Rightarrow> 'w sig_http \<Rightarrow> Config \<Rightarrow> ('w, rtc_error, 'pc) go" where
  "dial_offer env R H cfg0 = (\<lambda>w.
     let cfg = ApplyEnv env cfg0 in
     case Option.bind (newPC env R cfg) (\<lambda>pc. Option.bind (CreateDataChannel R pc) (\<lambda>pc.
            Option.bind (CreateOffer R pc) (\<lambda>(offer, pc). SetLocalDescription R offer pc))) of
       None \<Rightarrow> (Inl PCFailed, w)
     | Some pc \<Rightarrow>
       (let w1 = send_candidates H cfg (gathered R pc) w in
        case sc_Send H (sc_NewClient (LocalID_w cfg)) (rtc_envelope ''offer'' cfg (LocalDescription R pc) '''') w1 of
          (Inl e, w2) \<Rightarrow> (Inl (SignalFailed e), w2)
        | (Inr _, w2) \<Rightarrow> (Inr pc, w2)))"

definition add_candidate :: "'pc rtc_lib \<Rightarrow> string \<Rightarrow> 'pc \<Rightarrow> 'pc" where
  "add_candidate R ice pc = (case AddICECandidate R ice pc of None \<Rightarrow> pc | Some pc' \<Rightarrow> pc')"

fun dial_msgs :: "'pc rtc_lib \<Rightarrow> Envelope list \<Rightarrow> 'pc \<times> bool \<Rightarrow> ('pc \<times> bool) option" where
  "dial_msgs R [] s = Some s"
| "dial_msgs R (m # ms) (pc, gotAnswer) =
     (if Type_x m = ''answer'' then
        (if gotAnswer then dial_msgs R ms (pc, gotAnswer)
         else case SetRemoteDescription R SDPTypeAnswer (SDP_x m) pc of
           None \<Rightarrow> None
         | Some pc' \<Rightarrow> dial_msgs R ms (pc', True))
      else if Type_x m = ''ice'' then dial_msgs R ms (add_candidate R (ICE_x m) pc, gotAnswer)
      else dial_msgs R ms (pc, gotAnswer))"

fun dial_loop ::
    "'pc rtc_lib \<Rightarrow> 'w sig_http \<Rightarrow> Config \<Rightarrow> time \<Rightarrow> (time \<times> bool) list \<Rightarrow> 'pc \<times> bool \<Rightarrow> 'w
     \<Rightarrow> (rtc_error + 'pc) option \<times> 'w" where
  "dial_loop R H cfg deadline [] s w = (None, w)"
| "dial_loop R H cfg deadline ((now, opened) # ts) (pc, gotAnswer) w =
     (if \<not> now < deadline then (Some (if opened then Inr pc else Inl RTCTimeout), w)
      else if opened then (Some (Inr pc), w)
      else
        case sc_Poll H (sc_NewClient (LocalID_w cfg)) (RoomID (LocalID_w cfg) (PeerID_w cfg)) 3000000000 w of
          (Inl e, w') \<Rightarrow> dial_loop R H cfg deadline ts (pc, gotAnswer) w'
        | (Inr msgs, w') \<Rightarrow>
          (case dial_msgs R msgs (pc, gotAnswer) of
             None \<Rightarrow> (Some (Inl PCFailed), w')
           | Some s' \<Rightarrow> dial_loop R H cfg deadline ts s' w'))"

definition rtc_Dial ::
    "(string \<Rightarrow> string) \<Rightarrow> 'pc rtc_lib \<Rightarrow> 'w sig_http \<Rightarrow> Config \<Rightarrow> time \<Rightarrow> (time \<times> bool) list \<Rightarrow> 'w
     \<Rightarrow> (rtc_error + 'pc) option \<times> 'w" where
  "rtc_Dial env R H cfg start turns w =
     (case dial_offer env R H cfg w of
        (Inl e, w') \<Rightarrow> (Some (Inl e), w')
      | (Inr pc, w') \<Rightarrow> dial_loop R H (ApplyEnv env cfg) (start + 45000000000) turns (pc, False) w')"

text \<open>The answer to an offer: the remote description, the own one, the candidates, the envelope.\<close>

definition accept_offer :: "'pc rtc_lib \<Rightarrow> 'w sig_http \<Rightarrow> Config \<Rightarrow> string \<Rightarrow> 'pc \<Rightarrow> ('w, rtc_error, 'pc) go" where
  "accept_offer R H cfg sdp pc0 = (\<lambda>w.
     case Option.bind (SetRemoteDescription R SDPTypeOffer sdp pc0) (\<lambda>pc. Option.bind (CreateAnswer R pc)
            (\<lambda>(answer, pc). SetLocalDescription R answer pc)) of
       None \<Rightarrow> (Inl PCFailed, w)
     | Some pc \<Rightarrow>
       (let w1 = send_candidates H cfg (gathered R pc) w in
        case sc_Send H (sc_NewClient (LocalID_w cfg)) (rtc_envelope ''answer'' cfg (LocalDescription R pc) '''') w1 of
          (Inl e, w2) \<Rightarrow> (Inl (SignalFailed e), w2)
        | (Inr _, w2) \<Rightarrow> (Inr pc, w2)))"

fun accept_msgs ::
    "'pc rtc_lib \<Rightarrow> 'w sig_http \<Rightarrow> Config \<Rightarrow> Envelope list \<Rightarrow> 'pc \<times> bool \<Rightarrow> ('w, rtc_error, 'pc \<times> bool) go" where
  "accept_msgs R H cfg [] s w = (Inr s, w)"
| "accept_msgs R H cfg (m # ms) (pc, gotOffer) w =
     (if From_x m = LocalID_w cfg then accept_msgs R H cfg ms (pc, gotOffer) w
      else if Type_x m = ''offer'' then
        (if gotOffer then accept_msgs R H cfg ms (pc, gotOffer) w
         else case accept_offer R H cfg (SDP_x m) pc w of
           (Inl e, w') \<Rightarrow> (Inl e, w')
         | (Inr pc', w') \<Rightarrow> accept_msgs R H cfg ms (pc', True) w')
      else if Type_x m = ''ice'' then accept_msgs R H cfg ms (add_candidate R (ICE_x m) pc, gotOffer) w
      else accept_msgs R H cfg ms (pc, gotOffer) w)"

fun accept_loop ::
    "'pc rtc_lib \<Rightarrow> 'w sig_http \<Rightarrow> Config \<Rightarrow> time \<Rightarrow> (time \<times> bool) list \<Rightarrow> 'pc \<times> bool \<Rightarrow> 'w
     \<Rightarrow> (rtc_error + 'pc) option \<times> 'w" where
  "accept_loop R H cfg deadline [] s w = (None, w)"
| "accept_loop R H cfg deadline ((now, opened) # ts) (pc, gotOffer) w =
     (if \<not> now < deadline then (Some (if opened then Inr pc else Inl RTCTimeout), w)
      else if opened then (Some (Inr pc), w)
      else
        case sc_Poll H (sc_NewClient (LocalID_w cfg)) (RoomID (LocalID_w cfg) (PeerID_w cfg)) 3000000000 w of
          (Inl e, w') \<Rightarrow> accept_loop R H cfg deadline ts (pc, gotOffer) w'
        | (Inr msgs, w') \<Rightarrow>
          (case accept_msgs R H cfg msgs (pc, gotOffer) w' of
             (Inl e, w'') \<Rightarrow> (Some (Inl e), w'')
           | (Inr s', w'') \<Rightarrow> accept_loop R H cfg deadline ts s' w''))"

definition rtc_Accept ::
    "(string \<Rightarrow> string) \<Rightarrow> 'pc rtc_lib \<Rightarrow> 'w sig_http \<Rightarrow> Config \<Rightarrow> i64 \<Rightarrow> time \<Rightarrow> (time \<times> bool) list \<Rightarrow> 'w
     \<Rightarrow> (rtc_error + 'pc) option \<times> 'w" where
  "rtc_Accept env R H cfg0 wait start turns w =
     (let cfg = ApplyEnv env cfg0 in
      case newPC env R cfg of
        None \<Rightarrow> (Some (Inl PCFailed), w)
      | Some pc \<Rightarrow> accept_loop R H cfg (start + wait) turns (pc, False) w)"

section \<open>Lemmas\<close>

text \<open>The signalling server of this repository as the other end of the HTTP exchange.\<close>

definition hub_http :: "Hub sig_http" where
  "hub_http = \<lparr>
     http_post = (\<lambda>env h. case handleSend (Some env) h of (r, h') \<Rightarrow> (Some r, h')),
     http_get = (\<lambda>room from wait h. case handlePoll (\<lambda>_. Some wait) room from ''wait'' [] h of (r, h') \<Rightarrow> (Some r, h'))\<rparr>"

lemma sc_Send_hub:
  assumes "a \<noteq> ''''" "Type_x env \<noteq> ''''" "Room_x env \<noteq> ''''" "To_x env \<noteq> ''''"
    and "length (hub_queue (Room_x env) (To_x env) h) < 32"
  shows "fst (sc_Send hub_http (sc_NewClient a) env h) = Inr ()"
    and "hub_queue i d (snd (sc_Send hub_http (sc_NewClient a) env h)) =
      hub_queue i d h @ (if i = Room_x env \<and> d = To_x env then [env\<lparr>From_x := a\<rparr>] else [])"
proof -
  let ?e = "env\<lparr>From_x := a\<rparr>"
  have r: "publish_room ?e = Room_x env" using assms(3) by (simp add: publish_room_def)
  have ok: "fst (Publish ?e h) = Inr ()" using Publish_directed(1) [of ?e h] assms(4,5) r by simp
  then have s: "sc_Send hub_http (sc_NewClient a) env h = (Inr (), snd (Publish ?e h))"
    using assms by (cases "Publish ?e h") (simp add: sc_Send_def hub_http_def sc_NewClient_def handleSend_def)
  have "sent_to i d (Published ?e (Inr ())) = (if i = Room_x env \<and> d = To_x env then [?e] else [])"
    using assms(4) r by (auto simp: sent_to_def)
  then show "fst (sc_Send hub_http (sc_NewClient a) env h) = Inr ()"
    and "hub_queue i d (snd (sc_Send hub_http (sc_NewClient a) env h)) =
      hub_queue i d h @ (if i = Room_x env \<and> d = To_x env then [env\<lparr>From_x := a\<rparr>] else [])"
    using s ok Publish_directed(2) [of ?e i d h] assms(4) by simp_all
qed

lemma sc_Poll_hub:
  assumes "a \<noteq> ''''" "r \<noteq> ''''" "hub_queue r a h \<noteq> []" "length (hub_queue r a h) \<le> 16"
  shows "fst (sc_Poll hub_http (sc_NewClient a) r wait h) = Inr (hub_queue r a h)"
    and "hub_queue i d (snd (sc_Poll hub_http (sc_NewClient a) r wait h)) =
      (if (i, d) = (r, a) then [] else hub_queue i d h)"
proof -
  have d: "fst (Drain r a 16 h) = hub_queue r a h" using Drain_queue(1) [of r a 16 h] assms(4) by simp
  then have s: "sc_Poll hub_http (sc_NewClient a) r wait h = (Inr (hub_queue r a h), snd (Drain r a 16 h))"
    using assms(1-3) by (cases "Drain r a 16 h") (simp add: sc_Poll_def hub_http_def sc_NewClient_def handlePoll_def Let_def)
  then show "fst (sc_Poll hub_http (sc_NewClient a) r wait h) = Inr (hub_queue r a h)"
    and "hub_queue i d (snd (sc_Poll hub_http (sc_NewClient a) r wait h)) =
      (if (i, d) = (r, a) then [] else hub_queue i d h)"
    using Drain_queue(2) [of i d r a 16 h] assms(4) by auto
qed

lemma poll_queue:
  assumes "hub_queue r a h = q" "q \<noteq> []" "length q \<le> 16" "a \<noteq> ''''" "r \<noteq> ''''"
  obtains h' where "sc_Poll hub_http (sc_NewClient a) r wait h = (Inr q, h')" "\<And>d. d \<noteq> a \<Longrightarrow> hub_queue r d h' = hub_queue r d h"
  using sc_Poll_hub [where a = a and r = r and h = h and wait = wait] assms by (cases "sc_Poll hub_http (sc_NewClient a) r wait h") simp

lemma ApplyEnv_ids [simp]:
  "LocalID_w (ApplyEnv env cfg) = LocalID_w cfg" "PeerID_w (ApplyEnv env cfg) = PeerID_w cfg"
  by (simp_all add: ApplyEnv_def)

lemma rtc_envelope_ApplyEnv [simp]: "rtc_envelope typ (ApplyEnv env cfg) = rtc_envelope typ cfg"
  by (simp add: rtc_envelope_def fun_eq_iff)

lemma rtc_envelope_sel [simp]:
  "Type_x (rtc_envelope typ cfg sdp ice) = typ" "To_x (rtc_envelope typ cfg sdp ice) = PeerID_w cfg"
  "Room_x (rtc_envelope typ cfg sdp ice) = RoomID (LocalID_w cfg) (PeerID_w cfg)"
  "SDP_x (rtc_envelope typ cfg sdp ice) = sdp" "ICE_x (rtc_envelope typ cfg sdp ice) = ice"
  "From_x (rtc_envelope typ cfg sdp ice) = LocalID_w cfg"
  "rtc_envelope typ cfg sdp ice\<lparr>From_x := LocalID_w cfg\<rparr> = rtc_envelope typ cfg sdp ice"
  by (simp_all add: rtc_envelope_def)

lemma RoomID_nonempty [simp]: "RoomID a b \<noteq> []"
  by (simp add: RoomID_def)

lemma RoomID_commute: "RoomID a b = RoomID b a"
  by (cases a b rule: linorder_cases) (auto simp: RoomID_def dest: less_asym)

text \<open>All candidates and the final envelope are queued for the peer, in order.\<close>

lemma send_candidates_hub:
  assumes "LocalID_w cfg \<noteq> ''''" "PeerID_w cfg \<noteq> ''''"
    and "length (hub_queue (RoomID (LocalID_w cfg) (PeerID_w cfg)) (PeerID_w cfg) h) + length bs \<le> 32"
  shows "hub_queue i d (send_candidates hub_http cfg bs h) = hub_queue i d h @
    (if i = RoomID (LocalID_w cfg) (PeerID_w cfg) \<and> d = PeerID_w cfg then map (rtc_envelope ''ice'' cfg '''') bs else [])"
  using assms(3)
proof (induction bs arbitrary: h)
  case (Cons b bs)
  let ?r = "RoomID (LocalID_w cfg) (PeerID_w cfg)" and ?e = "rtc_envelope ''ice'' cfg '''' b"
  let ?h = "snd (sc_Send hub_http (sc_NewClient (LocalID_w cfg)) ?e h)"
  have q: "hub_queue j x ?h = hub_queue j x h @ (if j = ?r \<and> x = PeerID_w cfg then [?e] else [])" for j x
    using sc_Send_hub(2) [of "LocalID_w cfg" ?e h j x] assms(1,2) Cons.prems by simp
  then show ?case using Cons.IH [of ?h] Cons.prems by simp
qed simp

lemma offer_queued:
  assumes "LocalID_w cfg \<noteq> ''''" "PeerID_w cfg \<noteq> ''''" "typ \<noteq> ''''"
    and "length (hub_queue (RoomID (LocalID_w cfg) (PeerID_w cfg)) (PeerID_w cfg) h) + length bs < 32"
    and s_def: "s = sc_Send hub_http (sc_NewClient (LocalID_w cfg)) (rtc_envelope typ cfg sdp '''') (send_candidates hub_http cfg bs h)"
  shows "fst s = Inr ()"
    and "hub_queue i d (snd s) = hub_queue i d h @
      (if i = RoomID (LocalID_w cfg) (PeerID_w cfg) \<and> d = PeerID_w cfg
       then map (rtc_envelope ''ice'' cfg '''') bs @ [rtc_envelope typ cfg sdp ''''] else [])"
proof -
  note q = send_candidates_hub [OF assms(1,2) less_imp_le [OF assms(4)]]
  show "fst s = Inr ()"
    unfolding s_def using assms(1-4) q by (intro sc_Send_hub(1)) simp_all
  show "hub_queue i d (snd s) = hub_queue i d h @
      (if i = RoomID (LocalID_w cfg) (PeerID_w cfg) \<and> d = PeerID_w cfg
       then map (rtc_envelope ''ice'' cfg '''') bs @ [rtc_envelope typ cfg sdp ''''] else [])"
    unfolding s_def
    using sc_Send_hub(2) [of "LocalID_w cfg" "rtc_envelope typ cfg sdp ''''" "send_candidates hub_http cfg bs h" i d] assms(1-4) q
    by simp
qed

lemma accept_msgs_ice:
  assumes "LocalID_w other \<noteq> LocalID_w cfg"
  shows "accept_msgs R H cfg (map (rtc_envelope ''ice'' other '''') bs @ ms) (pc, g) w =
    accept_msgs R H cfg ms (fold (add_candidate R) bs pc, g) w"
  using assms by (induction bs arbitrary: pc) simp_all

lemma dial_msgs_ice:
  "dial_msgs R (map (rtc_envelope ''ice'' other '''') bs @ ms) (pc, g) = dial_msgs R ms (fold (add_candidate R) bs pc, g)"
  by (induction bs arbitrary: pc) simp_all

text \<open>The library's calls succeed and report the remote description that was set.\<close>

definition rtc_lawful :: "'pc rtc_lib \<Rightarrow> bool" where
  "rtc_lawful R \<longleftrightarrow>
     (\<forall>ty s pc. \<exists>pc'. SetRemoteDescription R ty s pc = Some pc' \<and> RemoteDescription R pc' = Some (ty, s)) \<and>
     (\<forall>pc. \<exists>a pc'. CreateAnswer R pc = Some (a, pc') \<and> RemoteDescription R pc' = RemoteDescription R pc) \<and>
     (\<forall>s pc. \<exists>pc'. SetLocalDescription R s pc = Some pc' \<and> RemoteDescription R pc' = RemoteDescription R pc)"

lemma ApplyEnv_candidates [simp]: "send_candidates H (ApplyEnv env cfg) bs w = send_candidates H cfg bs w"
  by (induction bs arbitrary: w) simp_all

lemma ApplyEnv_offer [simp]: "accept_offer R H (ApplyEnv env cfg) = accept_offer R H cfg"
  by (simp add: accept_offer_def fun_eq_iff Let_def split: option.split)

lemma accept_offer_hub:
  assumes "rtc_lawful R" "\<forall>pc. length (gathered R pc) < 16" "LocalID_w cfg \<noteq> ''''" "PeerID_w cfg \<noteq> ''''"
    and "hub_queue (RoomID (LocalID_w cfg) (PeerID_w cfg)) (PeerID_w cfg) h = []"
  shows "\<exists>pc h'. accept_offer R hub_http cfg sdp pc0 h = (Inr pc, h') \<and>
    RemoteDescription R pc = Some (SDPTypeOffer, sdp) \<and>
    hub_queue (RoomID (LocalID_w cfg) (PeerID_w cfg)) (PeerID_w cfg) h' =
      map (rtc_envelope ''ice'' cfg '''') (gathered R pc) @ [rtc_envelope ''answer'' cfg (LocalDescription R pc) '''']"
proof -
  obtain pc1 a pc2 pc where p: "SetRemoteDescription R SDPTypeOffer sdp pc0 = Some pc1" "CreateAnswer R pc1 = Some (a, pc2)"
    "SetLocalDescription R a pc2 = Some pc" and r: "RemoteDescription R pc = Some (SDPTypeOffer, sdp)"
    using assms(1) unfolding rtc_lawful_def by metis
  let ?s = "sc_Send hub_http (sc_NewClient (LocalID_w cfg)) (rtc_envelope ''answer'' cfg (LocalDescription R pc) '''')
    (send_candidates hub_http cfg (gathered R pc) h)"
  have g: "length (gathered R pc) < 32" using assms(2) by (metis less_trans num_double numeral_less_iff semiring_norm(76,78))
  have "fst ?s = Inr ()" "hub_queue (RoomID (LocalID_w cfg) (PeerID_w cfg)) (PeerID_w cfg) (snd ?s) =
      map (rtc_envelope ''ice'' cfg '''') (gathered R pc) @ [rtc_envelope ''answer'' cfg (LocalDescription R pc) '''']"
    using offer_queued [OF assms(3,4), of "''answer''" h "gathered R pc" ?s] g assms(5) by simp_all
  then show ?thesis
    using p r by (intro exI [of _ pc] exI [of _ "snd ?s"]) (auto simp: accept_offer_def Let_def split: prod.split)
qed

section \<open>Properties\<close>


definition toy_rtc :: "(SDPType \<times> string) option rtc_lib" where
  "toy_rtc = \<lparr>NewPeerConnection = (\<lambda>_ _. Some None), CreateDataChannel = Some, CreateOffer = (\<lambda>pc. Some (''o'', pc)),
     CreateAnswer = (\<lambda>pc. Some (''a'', pc)), SetLocalDescription = (\<lambda>_ pc. Some pc), gathered = (\<lambda>_. [''c'']),
     LocalDescription = (\<lambda>_. ''sdp''), SetRemoteDescription = (\<lambda>ty s _. Some (Some (ty, s))), RemoteDescription = id,
     AddICECandidate = (\<lambda>_ pc. if pc = None then None else Some pc)\<rparr>"

definition toy_config :: "string \<Rightarrow> string \<Rightarrow> Config" where
  "toy_config a b = \<lparr>SignalURL_w = '''', LocalID_w = a, PeerID_w = b, STUN_w = [], TURNURLs_w = [], TURNUser_w = '''',
     TURNPass_w = '''', Policy_w = NoPolicy\<rparr>"

lemma toy_rtc_lawful: "rtc_lawful toy_rtc" "\<forall>pc. length (gathered toy_rtc pc) < 16"
  by (simp_all add: rtc_lawful_def toy_rtc_def)

lemma toy_config_sel [simp]: "LocalID_w (toy_config a b) = a" "PeerID_w (toy_config a b) = b"
  by (simp_all add: toy_config_def)


end
