(* ===== verification/DataChannel.thy ===== *)
theory DataChannel
  imports Mailbox
begin

text \<open>
  The adapter from a WebRTC data channel to a byte stream, \<^verbatim>\<open>internal/webrtcx/conn.go\<close>. The
  channel's callbacks \<open>OnMessage\<close> and \<open>OnClose\<close> and the reads and writes of the session are the
  operations; what the channel does while a read is blocked is an argument, a list of events.
  Whether \<open>dc.Send\<close> succeeds is scripted.
\<close>

section \<open>Definitions\<close>

record DCConn =
  dc_incoming :: "bytes list"
  dc_buf :: bytes
  dc_closed :: bool
  dc_sent :: "bytes list"
  dc_outcomes :: "bool list"

datatype dc_error = DC_EOF | DC_Closed | DC_SendFailed

datatype dc_event = Message bytes | ChannelClosed | Tick

definition NewDCConn :: "bool list \<Rightarrow> DCConn" where
  "NewDCConn outcomes = \<lparr>dc_incoming = [], dc_buf = [], dc_closed = False, dc_sent = [], dc_outcomes = outcomes\<rparr>"

definition OnMessage :: "bytes \<Rightarrow> DCConn \<Rightarrow> DCConn" where
  "OnMessage b c =
     (if dc_closed c then c
      else if length (dc_incoming c) < 64 then c\<lparr>dc_incoming := dc_incoming c @ [b]\<rparr> else c)"

definition OnClose :: "DCConn \<Rightarrow> DCConn" where
  "OnClose c = c\<lparr>dc_closed := True\<rparr>"

definition dc_event :: "dc_event \<Rightarrow> DCConn \<Rightarrow> DCConn" where
  "dc_event e c = (case e of Message b \<Rightarrow> OnMessage b c | ChannelClosed \<Rightarrow> OnClose c | Tick \<Rightarrow> c)"

text \<open>
  \<open>Read(p)\<close> with \<open>n = len(p)\<close>. Each turn of the loop returns buffered bytes, or ends because the
  channel is closed, or takes the next message into the buffer, or waits: then the next event
  happens. A \<open>Tick\<close> is the timeout of 30 seconds. \<open>None\<close> is a read that is still blocked when the
  events are used up. A turn that waits uses up an event, one that fills the buffer a message.
\<close>

function dc_Read :: "nat \<Rightarrow> dc_event list \<Rightarrow> DCConn \<Rightarrow> (dc_error + bytes) option \<times> dc_event list \<times> DCConn" where
  "dc_Read n events c =
     (if dc_buf c \<noteq> [] then (Some (Inr (take n (dc_buf c))), events, c\<lparr>dc_buf := drop n (dc_buf c)\<rparr>)
      else if dc_closed c then (Some (Inl DC_EOF), events, c)
      else case dc_incoming c of
          b # bs \<Rightarrow> dc_Read n events (c\<lparr>dc_incoming := bs, dc_buf := b\<rparr>)
        | [] \<Rightarrow> (case events of
              [] \<Rightarrow> (None, [], c)
            | e # es \<Rightarrow> dc_Read n es (dc_event e c)))"
  by pat_completeness auto
termination
  by (relation "measure (\<lambda>(n, events, c). 2 * length events + length (dc_incoming c))")
    (auto simp: dc_event_def OnMessage_def OnClose_def split: dc_event.splits)

declare dc_Read.simps [simp del]

definition dc_Write :: "bytes \<Rightarrow> (DCConn, dc_error, nat) go" where
  "dc_Write p = (\<lambda>c.
     if dc_closed c then (Inl DC_Closed, c)
     else case next_outcome (dc_outcomes c) of (ok, rest) \<Rightarrow>
       if ok then (Inr (length p), c\<lparr>dc_sent := dc_sent c @ [p], dc_outcomes := rest\<rparr>)
       else (Inl DC_SendFailed, c\<lparr>dc_outcomes := rest\<rparr>))"

definition dc_Close :: "DCConn \<Rightarrow> DCConn" where
  "dc_Close c = c\<lparr>dc_closed := True\<rparr>"

text \<open>Any interleaving of the callbacks with the turns of reads, with what enters and leaves.\<close>

datatype dc_action = Arrived bytes bool | Filled | Took bytes | Shut

inductive dc_step :: "DCConn \<Rightarrow> dc_action \<Rightarrow> DCConn \<Rightarrow> bool" where
  arrive: "ok = (\<not> dc_closed c \<and> length (dc_incoming c) < 64) \<Longrightarrow> dc_step c (Arrived b ok) (OnMessage b c)"
| fill: "dc_buf c = [] \<Longrightarrow> \<not> dc_closed c \<Longrightarrow> dc_incoming c = b # bs \<Longrightarrow>
    dc_step c Filled (c\<lparr>dc_incoming := bs, dc_buf := b\<rparr>)"
| take: "dc_buf c \<noteq> [] \<Longrightarrow> dc_step c (Took (List.take n (dc_buf c))) (c\<lparr>dc_buf := drop n (dc_buf c)\<rparr>)"
| shut: "dc_step c Shut (OnClose c)"

inductive dc_run :: "DCConn \<Rightarrow> dc_action list \<Rightarrow> DCConn \<Rightarrow> bool" where
  dc_Nil: "dc_run c [] c"
| dc_snoc: "dc_run c as c1 \<Longrightarrow> dc_step c1 a c2 \<Longrightarrow> dc_run c (as @ [a]) c2"

definition dc_content :: "DCConn \<Rightarrow> bytes" where
  "dc_content c = dc_buf c @ concat (dc_incoming c)"

definition dc_in :: "dc_action \<Rightarrow> bytes" where
  "dc_in a = (case a of Arrived b True \<Rightarrow> b | _ \<Rightarrow> [])"

definition dc_out :: "dc_action \<Rightarrow> bytes" where
  "dc_out a = (case a of Took b \<Rightarrow> b | _ \<Rightarrow> [])"

section \<open>Lemmas\<close>

interpretation ch: mailbox dc_step dc_run dc_content dc_in dc_out "\<lambda>_. True"
proof
  fix c a c'
  assume "dc_step c a c'"
  then show "dc_out a @ dc_content c' = dc_content c @ dc_in a"
    by cases (auto simp: dc_content_def dc_in_def dc_out_def OnMessage_def OnClose_def split: bool.splits)
next
  fix c as c' and P :: "dc_action list \<Rightarrow> DCConn \<Rightarrow> bool"
  assume "dc_run c as c'" "P [] c" "\<And>bs g a g'. P bs g \<Longrightarrow> dc_step g a g' \<Longrightarrow> P (bs @ [a]) g'"
  then show "P as c'" by (induction rule: dc_run.induct) auto
qed

lemma dc_run_append: "dc_run c1 bs c2 \<Longrightarrow> dc_run c as c1 \<Longrightarrow> dc_run c (as @ bs) c2"
proof (induction rule: dc_run.induct)
  case (dc_snoc c1 bs c2 b c3)
  then show ?case using dc_run.dc_snoc [of c "as @ bs" c2 b c3] by simp
qed simp

lemma dc_run_step: "dc_step c a c' \<Longrightarrow> dc_run c [a] c'"
  using dc_snoc [OF dc_Nil] by fastforce

lemma dc_out_simps [simp]: "dc_out (Took b) = b" "dc_out Filled = []" "dc_out Shut = []" "dc_out (Arrived b ok) = []"
  by (simp_all add: dc_out_def)

lemma dc_event_run: "\<exists>as. dc_run c as (dc_event e c) \<and> concat (map dc_out as) = []"
proof (cases e)
  case (Message b)
  have "dc_run c [Arrived b (\<not> dc_closed c \<and> length (dc_incoming c) < 64)] (OnMessage b c)"
    by (rule dc_run_step [OF arrive]) (rule refl)
  then show ?thesis using Message by (auto simp: dc_event_def intro!: exI)
next
  case ChannelClosed
  have "dc_run c [Shut] (OnClose c)" by (rule dc_run_step [OF shut])
  then show ?thesis using ChannelClosed by (auto simp: dc_event_def intro!: exI)
next
  case Tick
  then show ?thesis by (auto simp: dc_event_def intro!: exI [of _ "[]"] dc_Nil)
qed

text \<open>Every read is a run of such actions, and returns what it took.\<close>

lemma dc_Read_run:
  "\<exists>as. dc_run c as (snd (snd (dc_Read n es c))) \<and>
     concat (map dc_out as) = (case fst (dc_Read n es c) of Some (Inr bs) \<Rightarrow> bs | _ \<Rightarrow> [])"
proof (induction n es c rule: dc_Read.induct)
  case (1 n es c)
  show ?case
  proof (cases "dc_buf c = [] \<and> \<not> dc_closed c")
    case False
    show ?thesis
    proof (cases "dc_buf c = []")
      case True
      then show ?thesis using False by (subst (1 2) dc_Read.simps) (auto intro!: exI [of _ "[]"] dc_Nil)
    next
      case ne: False
      then show ?thesis
        by (subst (1 2) dc_Read.simps)
          (auto intro!: exI [of _ "[Took (List.take n (dc_buf c))]"] dc_run_step dc_step.take)
    qed
  next
    case open_c: True
    show ?thesis
    proof (cases "dc_incoming c")
      case (Cons b bs)
      let ?c = "c\<lparr>dc_incoming := bs, dc_buf := b\<rparr>"
      have eq: "dc_Read n es c = dc_Read n es ?c" using open_c Cons by (subst dc_Read.simps) simp
      obtain as where as: "dc_run ?c as (snd (snd (dc_Read n es ?c)))"
        "concat (map dc_out as) = (case fst (dc_Read n es ?c) of Some (Inr bs) \<Rightarrow> bs | _ \<Rightarrow> [])"
        using 1(2) open_c Cons by blast
      have "dc_run c ([Filled] @ as) (snd (snd (dc_Read n es ?c)))"
        using open_c Cons by (intro dc_run_append [OF as(1)] dc_run_step fill) auto
      then show ?thesis using as(2) unfolding eq by (auto intro!: exI [of _ "Filled # as"])
    next
      case Nil
      show ?thesis
      proof (cases es)
        case eNil: Nil
        then show ?thesis using open_c Nil by (subst (1 2) dc_Read.simps) (auto intro!: exI [of _ "[]"] dc_Nil)
      next
        case (Cons e rest)
        let ?c = "dc_event e c"
        have eq: "dc_Read n es c = dc_Read n rest ?c" using open_c Nil Cons by (subst dc_Read.simps) simp
        obtain as where as: "dc_run ?c as (snd (snd (dc_Read n rest ?c)))"
          "concat (map dc_out as) = (case fst (dc_Read n rest ?c) of Some (Inr bs) \<Rightarrow> bs | _ \<Rightarrow> [])"
          using 1(1) open_c Nil Cons by blast
        obtain bs where bs: "dc_run c bs ?c" "concat (map dc_out bs) = []"
          using dc_event_run by blast
        show ?thesis
          using dc_run_append [OF as(1) bs(1)] as(2) bs(2) unfolding eq by (intro exI [of _ "bs @ as"]) simp
      qed
    qed
  qed
qed

section \<open>Properties\<close>

text \<open>
  The data channel is a faithful byte stream: over any interleaving of arriving messages with
  reads of any sizes, the bytes that were read followed by those still held are exactly the
  bytes of the accepted messages, in order. A message is accepted unless the channel is closed
  or 64 messages are waiting.
\<close>

theorem data_channel_stream:
  assumes "dc_run (NewDCConn os) as c"
  shows "concat (map dc_out as) @ dc_content c = concat (map dc_in as)"
  using ch.fifo [OF assms] by (simp add: NewDCConn_def dc_content_def)

theorem data_channel_stream_witness:
  "\<exists>c. dc_run (NewDCConn []) [Arrived [1, 2, 3] True, Filled, Took [1, 2]] c \<and> dc_content c = [3]"
proof -
  have 1: "dc_run (NewDCConn []) [Arrived [1, 2, 3] True] (OnMessage [1, 2, 3] (NewDCConn []))"
    by (rule dc_run_step [OF arrive]) (simp add: NewDCConn_def)
  have 2: "dc_step (OnMessage [1, 2, 3] (NewDCConn [])) Filled ((NewDCConn [])\<lparr>dc_buf := [1, 2, 3]\<rparr>)"
    using fill [of "OnMessage [1, 2, 3] (NewDCConn [])" "[1, 2, 3]" "[]"] by (simp add: OnMessage_def NewDCConn_def)
  have 3: "dc_step ((NewDCConn [])\<lparr>dc_buf := [1, 2, 3]\<rparr>) (Took [1, 2]) ((NewDCConn [])\<lparr>dc_buf := [3]\<rparr>)"
    using dc_step.take [of "(NewDCConn [])\<lparr>dc_buf := [1, 2, 3]\<rparr>" 2] by (simp add: NewDCConn_def numeral_2_eq_2)
  have run: "dc_run (NewDCConn []) [Arrived [1, 2, 3] True, Filled, Took [1, 2]] ((NewDCConn [])\<lparr>dc_buf := [3]\<rparr>)"
    using dc_snoc [OF dc_snoc [OF 1 2] 3] by simp
  show ?thesis using run data_channel_stream [OF run] by (auto simp: dc_in_def dc_out_def)
qed

text \<open>
  C30: A read returns: on an open channel that holds at least one byte, \<open>Read\<close> with a non-empty
  buffer returns at least one byte without waiting for anything, however many empty messages
  are in front of it.
\<close>

theorem data_channel_read_returns:
  assumes "0 < n" "\<not> dc_closed c" "dc_content c \<noteq> []"
  shows "\<exists>bs c'. dc_Read n es c = (Some (Inr bs), es, c') \<and> bs \<noteq> [] \<and> dc_content c = bs @ dc_content c'"
  using assms
proof (induction "length (dc_incoming c)" arbitrary: c)
  case 0
  then show ?case by (subst dc_Read.simps) (auto simp: dc_content_def)
next
  case (Suc k)
  obtain b bs where i: "dc_incoming c = b # bs" using Suc.hyps(2) by (cases "dc_incoming c") auto
  show ?case
  proof (cases "dc_buf c = []")
    case False
    then show ?thesis using Suc.prems by (subst dc_Read.simps) (auto simp: dc_content_def)
  next
    case True
    let ?c = "c\<lparr>dc_incoming := bs, dc_buf := b\<rparr>"
    have "dc_Read n es c = dc_Read n es ?c" using True i Suc.prems by (subst dc_Read.simps) simp
    moreover have "dc_content ?c = dc_content c" using True i by (simp add: dc_content_def)
    moreover have "\<exists>bs c'. dc_Read n es ?c = (Some (Inr bs), es, c') \<and> bs \<noteq> [] \<and> dc_content ?c = bs @ dc_content c'"
      using Suc.hyps(1) [of ?c] Suc.hyps(2) Suc.prems i \<open>dc_content ?c = dc_content c\<close> by simp
    ultimately show ?thesis by simp
  qed
qed

theorem data_channel_read_returns_witness:
  "\<exists>bs c'. dc_Read 4 [] ((NewDCConn [])\<lparr>dc_incoming := [[], [7]]\<rparr>) = (Some (Inr bs), [], c') \<and> bs \<noteq> []"
  using data_channel_read_returns [of 4 "(NewDCConn [])\<lparr>dc_incoming := [[], [7]]\<rparr>" "[]"]
  by (auto simp: NewDCConn_def dc_content_def)

text \<open>
  Closing the channel discards data: once the channel is closed, \<open>Read\<close> reports the end of the
  stream as soon as its buffer is empty, whatever accepted messages are still waiting.
\<close>

theorem data_channel_close_discards:
  "dc_Read n es (OnClose c\<lparr>dc_buf := []\<rparr>) = (Some (Inl DC_EOF), es, OnClose c\<lparr>dc_buf := []\<rparr>)"
  by (subst dc_Read.simps) (simp add: OnClose_def)

end
