(* ===== verification/UpdateClient.thy ===== *)
theory UpdateClient
  imports KAClient
begin

text \<open>
  The client's side of the update service: \<open>CheckUpdate\<close> of \<^verbatim>\<open>internal/kaapi/client.go\<close> and its way
  through the query string to \<open>handleUpdateCheck\<close>. Of package \<^verbatim>\<open>net/url\<close> the parser of query strings is
  modelled: parts between \<open>&\<close>, the first \<open>=\<close>, percent escapes; a part with a semicolon or a broken
  escape is dropped. A fragment ends the query, and a control character is no URL.
\<close>

section \<open>Definitions\<close>

subsection \<open>net/url\<close>

fun QueryUnescape :: "string \<Rightarrow> string option" where
  "QueryUnescape [] = Some []"
| "QueryUnescape (c # cs) =
     (if c = CHR ''%'' then
        (case cs of
           a # b # rest \<Rightarrow>
             (case (hex_value a, hex_value b) of
                (Some x, Some y) \<Rightarrow> map_option (Cons (char_of (16 * x + y))) (QueryUnescape rest)
              | _ \<Rightarrow> None)
         | _ \<Rightarrow> None)
      else map_option (Cons (if c = CHR ''+'' then CHR '' '' else c)) (QueryUnescape cs))"

definition strings_Cut :: "char \<Rightarrow> string \<Rightarrow> string \<times> string" where
  "strings_Cut sep s = (takeWhile (\<lambda>c. c \<noteq> sep) s, tl (dropWhile (\<lambda>c. c \<noteq> sep) s))"

definition query_part :: "string \<Rightarrow> (string \<times> string) option" where
  "query_part p =
     (if p = '''' \<or> CHR '';'' \<in> set p then None
      else case strings_Cut (CHR ''='') p of
        (k, v) \<Rightarrow> (case (QueryUnescape k, QueryUnescape v) of (Some k', Some v') \<Rightarrow> Some (k', v') | _ \<Rightarrow> None))"

definition query_Get :: "string \<Rightarrow> string \<Rightarrow> string" where
  "query_Get q k =
     (case map_of (List.map_filter query_part (strings_Split (CHR ''&'') q)) k of None \<Rightarrow> '''' | Some v \<Rightarrow> v)"

definition control_char :: "char \<Rightarrow> bool" where
  "control_char c \<longleftrightarrow> of_char c < (32 :: nat) \<or> of_char c = (127 :: nat)"

subsection \<open>client.go\<close>

text \<open>The exchange of one GET request: its status, the field \<open>error\<close> of the answer and the decoded answer.\<close>

definition client_CheckUpdate ::
    "(string \<Rightarrow> 'w \<Rightarrow> (nat \<times> string \<times> UpdateCheckResponse option) option \<times> 'w) \<Rightarrow> string \<Rightarrow> string \<Rightarrow> string
     \<Rightarrow> ('w, client_error, UpdateCheckResponse) go" where
  "client_CheckUpdate get current osName arch = (\<lambda>w.
     case get (update_query current osName arch) w of
       (None, w') \<Rightarrow> (Inl TransportFailed, w')
     | (Some (code, err, b), w') \<Rightarrow>
         (if code \<ge> 400 then Inl (if err \<noteq> '''' then ServerError code err else HTTPStatus code)
          else case b of None \<Rightarrow> Inl DecodeFailed | Some u \<Rightarrow> Inr u, w'))"

text \<open>The update route behind a transport without faults.\<close>

definition update_get ::
    "UpdateManifest json \<Rightarrow> disk \<Rightarrow> string \<Rightarrow> UpdateHub option
     \<Rightarrow> (nat \<times> string \<times> UpdateCheckResponse option) option \<times> UpdateHub option" where
  "update_get J d url updates =
     (if list_ex control_char url then (None, updates)
      else let q = takeWhile (\<lambda>c. c \<noteq> CHR ''#'') (snd (strings_Cut (CHR ''?'') url)) in
        case handleUpdateCheck J d (query_Get q ''current'') (query_Get q ''os'') (query_Get q ''arch'') updates of
          ((code, u), updates') \<Rightarrow> (Some (code, '''', Some u), updates'))"

section \<open>Lemmas\<close>

definition query_safe :: "string \<Rightarrow> bool" where
  "query_safe s \<longleftrightarrow> list_all (\<lambda>c. c \<notin> {CHR ''%'', CHR ''&'', CHR '';'', CHR ''#''} \<and> \<not> control_char c) s"

lemma query_safe_simps [simp]:
  "query_safe []"
  "query_safe (c # s) \<longleftrightarrow> c \<notin> {CHR ''%'', CHR ''&'', CHR '';'', CHR ''#''} \<and> \<not> control_char c \<and> query_safe s"
  by (simp_all add: query_safe_def)

lemma urlQueryEscape_simps [simp]:
  "urlQueryEscape [] = []"
  "urlQueryEscape (c # s) = (if c = CHR '' '' then ''%20'' else if c = CHR ''+'' then ''%2B'' else [c]) @ urlQueryEscape s"
  by (simp_all add: urlQueryEscape_def)

lemma escape_codes [simp]:
  "hex_value (CHR ''2'') = Some 2" "hex_value (CHR ''0'') = Some 0" "hex_value (CHR ''B'') = Some 11"
  "char_of (32 :: nat) = CHR '' ''" "char_of (43 :: nat) = CHR ''+''"
  by code_simp+

lemma QueryUnescape_escape: "query_safe s \<Longrightarrow> QueryUnescape (urlQueryEscape s) = Some s"
  by (induction s) simp_all

lemma escape_chars:
  "query_safe s \<Longrightarrow> c \<in> set (urlQueryEscape s) \<Longrightarrow> c \<notin> {CHR ''&'', CHR '';'', CHR ''#''} \<and> \<not> control_char c"
  by (induction s) (auto simp: control_char_def split: if_splits)

text \<open>A part of the query reads back as its key and value.\<close>

lemma query_part_escape:
  assumes "query_safe v" "k \<noteq> ''''" "CHR ''='' \<notin> set k" "CHR '';'' \<notin> set k" "QueryUnescape k = Some k"
  shows "query_part (k @ ''='' @ urlQueryEscape v) = Some (k, v)"
proof -
  have "strings_Cut (CHR ''='') (k @ ''='' @ urlQueryEscape v) = (k, urlQueryEscape v)"
    using assms(3) by (induction k) (auto simp: strings_Cut_def)
  then show ?thesis
    using assms escape_chars [OF assms(1)] QueryUnescape_escape [OF assms(1)] by (auto simp: query_part_def)
qed

lemma update_query_parts:
  assumes "query_safe cur" "query_safe os" "query_safe arch"
  shows "strings_Split (CHR ''&'') (''current='' @ urlQueryEscape cur @ ''&os='' @ urlQueryEscape os @ ''&arch='' @ urlQueryEscape arch) =
    [''current='' @ urlQueryEscape cur, ''os='' @ urlQueryEscape os, ''arch='' @ urlQueryEscape arch]"
proof -
  have n: "CHR ''&'' \<notin> set (''current='' @ urlQueryEscape cur)" "CHR ''&'' \<notin> set (''os='' @ urlQueryEscape os)"
    "CHR ''&'' \<notin> set (''arch='' @ urlQueryEscape arch)"
    using escape_chars assms by fastforce+
  show ?thesis
    using strings_Split_append [OF n(1)] strings_Split_append [OF n(2)] strings_Split_none [OF n(3)] by simp
qed

lemma query_Get_update:
  assumes "query_safe cur" "query_safe os" "query_safe arch"
  shows "query_Get (''current='' @ urlQueryEscape cur @ ''&os='' @ urlQueryEscape os @ ''&arch='' @ urlQueryEscape arch) k =
    (case map_of [(''current'', cur), (''os'', os), (''arch'', arch)] k of None \<Rightarrow> '''' | Some v \<Rightarrow> v)"
  using query_part_escape [OF assms(1), of "''current''"] query_part_escape [OF assms(2), of "''os''"]
    query_part_escape [OF assms(3), of "''arch''"]
  by (simp add: query_Get_def update_query_parts [OF assms, simplified] List.map_filter_def)

section \<open>Properties\<close>

text \<open>
  The client and the update route understand each other: for a version, a system and an
  architecture without \<open>%\<close>, \<open>&\<close>, \<open>;\<close>, \<open>#\<close> and control characters, the client gets exactly the answer
  that the server's handler gives to these values.
\<close>

theorem check_update_roundtrip:
  assumes "query_safe cur" "query_safe os" "query_safe arch"
  shows "client_CheckUpdate (update_get J d) cur os arch u =
    (Inr (snd (fst (handleUpdateCheck J d cur os arch u))), snd (handleUpdateCheck J d cur os arch u))"
proof -
  let ?q = "''current='' @ urlQueryEscape cur @ ''&os='' @ urlQueryEscape os @ ''&arch='' @ urlQueryEscape arch"
  have url: "update_query cur os arch = ''/v1/update/check'' @ ''?'' @ ?q" by (simp add: update_query_def)
  have "\<not> list_ex control_char ?q" "CHR ''#'' \<notin> set ?q"
    using escape_chars assms by (auto simp: list_ex_iff control_char_def)
  then have "\<not> list_ex control_char (update_query cur os arch)"
    "takeWhile (\<lambda>c. c \<noteq> CHR ''#'') (snd (strings_Cut (CHR ''?'') (update_query cur os arch))) = ?q"
    unfolding url by (auto simp: strings_Cut_def control_char_def takeWhile_eq_all_conv)
  then have "update_get J d (update_query cur os arch) u =
      (Some (200, '''', Some (snd (fst (handleUpdateCheck J d cur os arch u)))), snd (handleUpdateCheck J d cur os arch u))"
    by (simp add: update_get_def query_Get_update [OF assms, simplified] Let_def handleUpdateCheck_def)
  then show ?thesis by (simp add: client_CheckUpdate_def)
qed

text \<open>
  Other characters are not escaped: a version with a percent sign reaches the server as no version
  at all, so no update is reported.
\<close>

lemma percent_hides_update:
  "\<exists>a u'. client_CheckUpdate (update_get J d) ''1%'' ''linux'' ''amd64''
       (Some \<lparr>upd_path = '''', upd_manifest = no_manifest\<lparr>Latest := ''2''\<rparr>\<rparr>) = (Inr a, u') \<and> \<not> UpdateAvailable a"
proof -
  let ?url = "update_query ''1%'' ''linux'' ''amd64''"
  have q: "\<not> list_ex control_char ?url" "query_Get (takeWhile (\<lambda>c. c \<noteq> CHR ''#'') (snd (strings_Cut (CHR ''?'') ?url))) ''current'' = ''''"
    by code_simp+
  then show ?thesis
    by (simp add: client_CheckUpdate_def update_get_def Let_def handleUpdateCheck_def Reload_def upd_snapshot_def update_answer_def)
qed

end
