(* ===== verification/NodeRun.thy ===== *)
theory NodeRun
  imports Node UpdateClient
begin

text \<open>
  The running agent, the last part of \<open>runAgent\<close> in \<^verbatim>\<open>cmd/coe-node/main.go\<close>: the goroutines that accept
  peers, answer the local control interface, look for updates and refresh the key, and the
  shutdown. Each statement of the refresh that another goroutine can see is a step of its own, so
  the key that the status route reports (\<open>epochMeta\<close>), the key on disk and the credentials of the
  hub change one after the other. The steps of the hub are those of \<open>agent_step\<close>.
\<close>

section \<open>Definitions\<close>

subsection \<open>The goroutines\<close>

text \<open>
  One turn of the loop of \<open>serveP2P\<close>: \<open>ln.Accept\<close> failed, or it returned a connection and the
  handshake runs on it. Its error is only logged.
\<close>

definition accept_turn :: "crypto_lib \<Rightarrow> codec \<Rightarrow> time \<times> endpoint option \<Rightarrow> AgentHub \<Rightarrow> AgentHub" where
  "accept_turn L J a h = (case a of (_, None) \<Rightarrow> h | (now, Some conn) \<Rightarrow> snd (AcceptConn L J now conn h))"

definition serveP2P :: "crypto_lib \<Rightarrow> codec \<Rightarrow> bool \<Rightarrow> (time \<times> endpoint option) list \<Rightarrow> AgentHub \<Rightarrow> (unit + AgentHub)" where
  "serveP2P L J listens accepted h = (if \<not> listens then Inl () else Inr (fold (accept_turn L J) accepted h))"

text \<open>The local interface, with the map that \<open>Status\<close> computes from the key in force.\<close>

definition node_version :: string where
  "node_version = ''0.1.0-beta''"

definition node_status :: "NodeConfig \<Rightarrow> bool \<Rightarrow> IssueResponse \<Rightarrow> (string \<times> string) list" where
  "node_status cfg protect k =
     [(''version'', node_version), (''epoch_id'', dec_digits (unat (EpochID_s k))),
      (''key_serial'', dec_digits (unat (KeySerial_s k))), (''profile'', Profile_s k), (''ka_url'', KAURL_n cfg),
      (''listen'', ListenAddr_n cfg), (''protect'', if protect then ''true'' else ''false'')]"

definition node_api :: "NodeConfig \<Rightarrow> bool \<Rightarrow> IssueResponse \<Rightarrow> LocalAPI" where
  "node_api cfg protect k = \<lparr>DeviceID_o = DeviceID_n cfg, Token_o = APIToken_n cfg, Status_o = node_status cfg protect k\<rparr>"

text \<open>What the update goroutine logs.\<close>

datatype update_log = UpdateFailed client_error | UpdateFound UpdateCheckResponse | NoUpdate

definition update_check ::
    "(string \<Rightarrow> 'w \<Rightarrow> (nat \<times> string \<times> UpdateCheckResponse option) option \<times> 'w) \<Rightarrow> string \<Rightarrow> string \<Rightarrow> 'w \<Rightarrow> update_log \<times> 'w" where
  "update_check get os arch w =
     (case client_CheckUpdate get node_version os arch w of
        (Inl e, w') \<Rightarrow> (UpdateFailed e, w')
      | (Inr u, w') \<Rightarrow> (if UpdateAvailable u then UpdateFound u else NoUpdate, w'))"

subsection \<open>The refresh, statement by statement\<close>

text \<open>
  Where the refresh goroutine is: waiting for the next tick; it has set \<open>epochMeta\<close> and will write
  the key; it has written the key and will hand it to the hub.
\<close>

datatype refresh_pc = RefreshWaits | RefreshStores | RefreshSets

record 'w running =
  rn_key :: IssueResponse
  rn_hub :: AgentHub
  rn_node :: "'w node"
  rn_pc :: refresh_pc
  rn_log :: "update_log list"

definition refresh_issue ::
    "node_lib \<Rightarrow> 'w http \<Rightarrow> issue_times \<Rightarrow> bytes \<Rightarrow> NodeConfig \<Rightarrow> Client \<Rightarrow> 'w running \<Rightarrow> 'w running" where
  "refresh_issue lib http t nonce cfg c s =
     (let n = rn_node s in
      case issueKey (lib_ed lib) http t nonce c cfg (nd_clock n, nd_net n) of
        (Inl e, ck, w) \<Rightarrow> s\<lparr>rn_node := n\<lparr>nd_clock := ck, nd_net := w\<rparr>\<rparr>
      | (Inr iss, ck, w) \<Rightarrow>
          (let s' = s\<lparr>rn_node := n\<lparr>nd_clock := ck, nd_net := w\<rparr>\<rparr> in
           if EpochID_s iss \<noteq> EpochID_s (rn_key s) \<or> KeySerial_s iss \<noteq> KeySerial_s (rn_key s)
           then s'\<lparr>rn_key := iss, rn_pc := RefreshStores\<rparr> else s'))"

definition refresh_store :: "node_lib \<Rightarrow> 'w running \<Rightarrow> 'w running" where
  "refresh_store lib s =
     (let n = rn_node s; k = rn_key s in
      s\<lparr>rn_node := n\<lparr>nd_keys := snd (PutGeneral (lib_record lib) (EpochID_s k) (GeneralKey_s k) (key_meta k) (nd_keys n))\<rparr>,
        rn_pc := RefreshSets\<rparr>)"

definition refresh_set :: "NodeConfig \<Rightarrow> Identity \<Rightarrow> 'w running \<Rightarrow> 'w running" where
  "refresh_set cfg i s = s\<lparr>rn_hub := SetCreds (key_creds cfg i (rn_key s)) (rn_hub s), rn_pc := RefreshWaits\<rparr>"

text \<open>A whole turn of the refresh loop that nothing interrupts.\<close>

definition refresh_turn ::
    "node_lib \<Rightarrow> 'w http \<Rightarrow> issue_times \<Rightarrow> bytes \<Rightarrow> Identity \<Rightarrow> NodeConfig \<Rightarrow> Client \<Rightarrow> 'w running \<Rightarrow> 'w running" where
  "refresh_turn lib http t nonce i cfg c s =
     (let s1 = refresh_issue lib http t nonce cfg c s in
      if rn_pc s1 = RefreshStores then refresh_set cfg i (refresh_store lib s1) else s1)"

subsection \<open>Interleaved goroutines\<close>

text \<open>The state in which \<open>runAgent\<close> starts to serve, and the shutdown after the signal.\<close>

definition serving :: "IssueResponse \<Rightarrow> AgentHub \<Rightarrow> 'w node \<Rightarrow> 'w running" where
  "serving iss hub n = \<lparr>rn_key = iss, rn_hub = hub, rn_node = n, rn_pc = RefreshWaits, rn_log = []\<rparr>"

definition shutdown :: "codec \<Rightarrow> 'w running \<Rightarrow> 'w running" where
  "shutdown J s = s\<lparr>rn_hub := CloseAll J (rn_hub s)\<rparr>"

text \<open>
  Of the hub's steps, only \<open>SetCreds\<close> is reserved to the refresh: no other goroutine calls it. A
  local request may run as one step, or be split at the handshake into the steps of the hub.
\<close>

record 'w program =
  pg_lib :: node_lib
  pg_crypto :: crypto_lib
  pg_codec :: codec
  pg_http :: "'w http"
  pg_get :: "string \<Rightarrow> 'w \<Rightarrow> (nat \<times> string \<times> UpdateCheckResponse option) option \<times> 'w"
  pg_cfg :: NodeConfig
  pg_identity :: Identity
  pg_client :: Client
  pg_protect :: bool
  pg_os :: string
  pg_arch :: string

inductive node_step :: "'w program \<Rightarrow> 'w running \<Rightarrow> 'w running \<Rightarrow> bool" for P where
  tick: "rn_pc s = RefreshWaits \<Longrightarrow>
    node_step P s (refresh_issue (pg_lib P) (pg_http P) t nonce (pg_cfg P) (pg_client P) s)"
| store: "rn_pc s = RefreshStores \<Longrightarrow> node_step P s (refresh_store (pg_lib P) s)"
| set_key: "rn_pc s = RefreshSets \<Longrightarrow> node_step P s (refresh_set (pg_cfg P) (pg_identity P) s)"
| update: "update_check (pg_get P) (pg_os P) (pg_arch P) (nd_net (rn_node s)) = (l, w) \<Longrightarrow>
    node_step P s (s\<lparr>rn_node := (rn_node s)\<lparr>nd_net := w\<rparr>, rn_log := l # rn_log s\<rparr>)"
| accept: "ListenAddr_n (pg_cfg P) \<noteq> '''' \<Longrightarrow>
    node_step P s (s\<lparr>rn_hub := accept_turn (pg_crypto P) (pg_codec P) a (rn_hub s)\<rparr>)"
| call: "APIAddr_n (pg_cfg P) \<noteq> '''' \<Longrightarrow>
    local_serve (pg_crypto P) (pg_codec P) env (node_api (pg_cfg P) (pg_protect P) (rn_key s)) tok c (rn_hub s) = (resp, h) \<Longrightarrow>
    node_step P s (s\<lparr>rn_hub := h\<rparr>)"
| hub: "agent_step (pg_crypto P) (pg_codec P) (rn_hub s) h \<Longrightarrow> (\<nexists>cr. h = SetCreds cr (rn_hub s)) \<Longrightarrow>
    node_step P s (s\<lparr>rn_hub := h\<rparr>)"

inductive node_reachable :: "'w program \<Rightarrow> 'w running \<Rightarrow> bool" for P where
  start: "node_start (pg_lib P) (pg_http P) t nonce (pg_identity P) (pg_cfg P) (pg_client P) n = (Inr (iss, hub), n') \<Longrightarrow>
    node_reachable P (serving iss hub n')"
| step: "node_reachable P s \<Longrightarrow> node_step P s s' \<Longrightarrow> node_reachable P s'"

text \<open>A key that the key authority answered to this node.\<close>

definition ka_answered :: "'w program \<Rightarrow> IssueResponse \<Rightarrow> bool" where
  "ka_answered P k \<longleftrightarrow>
     (\<exists>t nonce ck w. fst (issueKey (lib_ed (pg_lib P)) (pg_http P) t nonce (pg_client P) (pg_cfg P) (ck, w)) = Inr k)"

section \<open>Lemmas\<close>

text \<open>Without interruption the steps of the refresh are the refresh.\<close>

lemma refresh_turn_refresh:
  assumes "rn_pc s = RefreshWaits"
  shows "refresh lib http t nonce i cfg c (rn_key s, rn_hub s, rn_node s) =
    (rn_key (refresh_turn lib http t nonce i cfg c s), rn_hub (refresh_turn lib http t nonce i cfg c s),
     rn_node (refresh_turn lib http t nonce i cfg c s)) \<and> rn_pc (refresh_turn lib http t nonce i cfg c s) = RefreshWaits"
  using assms by (auto simp: refresh_def refresh_turn_def refresh_issue_def refresh_store_def refresh_set_def Let_def split: prod.split sum.split)

lemma agent_step_creds:
  assumes "agent_step L J h h'" "\<nexists>cr. h' = SetCreds cr h"
  shows "hub_creds h' = hub_creds h"
  using assms
  by (cases rule: agent_step.cases) (auto simp: connect_begin_def Let_def creds_CloseAll)

lemma creds_AcceptConn [simp]: "hub_creds (snd (AcceptConn L J now conn h)) = hub_creds h"
  by (simp add: AcceptConn_def split: prod.split sum.split)

lemma creds_accept_turn [simp]: "hub_creds (accept_turn L J a h) = hub_creds h"
  by (simp add: accept_turn_def split: prod.split option.split)

lemma AcceptConn_reachable:
  assumes "agent_reachable L J h"
  shows "agent_reachable L J (snd (AcceptConn L J now conn h))"
proof (cases "AcceptSession L J now (pinned (hub_creds h) '''') conn")
  case (Pair r c)
  then show ?thesis
    using assms agent_reachable.step [OF assms accept_end, of now "hub_creds h" conn] by (cases r) (auto simp: AcceptConn_def)
qed

lemma accept_turn_reachable: "agent_reachable L J h \<Longrightarrow> agent_reachable L J (accept_turn L J a h)"
  by (auto simp: accept_turn_def AcceptConn_reachable split: prod.split option.split)

lemma serveP2P_reachable:
  "agent_reachable L J h \<Longrightarrow> serveP2P L J l as h = Inr h' \<Longrightarrow> agent_reachable L J h'"
proof (induction as arbitrary: h)
  case (Cons a as)
  then show ?case using accept_turn_reachable [of L J h a] by (auto simp: serveP2P_def split: if_splits)
qed (auto simp: serveP2P_def split: if_splits)

subsection \<open>The invariant of a running node\<close>

definition node_inv :: "'w program \<Rightarrow> 'w running \<Rightarrow> bool" where
  "node_inv P s \<longleftrightarrow>
     agent_reachable (pg_crypto P) (pg_codec P) (rn_hub s) \<and> ka_answered P (rn_key s) \<and>
     (\<exists>k. ka_answered P k \<and> hub_creds (rn_hub s) = key_creds (pg_cfg P) (pg_identity P) k) \<and>
     (rn_pc s = RefreshWaits \<longrightarrow> hub_creds (rn_hub s) = key_creds (pg_cfg P) (pg_identity P) (rn_key s))"

lemma node_inv_hub:
  assumes "node_inv P s" "agent_reachable (pg_crypto P) (pg_codec P) h" "hub_creds h = hub_creds (rn_hub s)"
  shows "node_inv P (s\<lparr>rn_hub := h\<rparr>)"
  using assms by (simp add: node_inv_def)

lemma node_inv_issue:
  assumes "node_inv P s"
  shows "node_inv P (refresh_issue (pg_lib P) (pg_http P) t nonce (pg_cfg P) (pg_client P) s)"
proof (cases "issueKey (lib_ed (pg_lib P)) (pg_http P) t nonce (pg_client P) (pg_cfg P) (nd_clock (rn_node s), nd_net (rn_node s))")
  case (fields r ck w)
  have "ka_answered P iss" if "r = Inr iss" for iss
    unfolding ka_answered_def using fields that by (metis fst_conv)
  then show ?thesis
    using assms fields by (cases r) (auto simp: node_inv_def refresh_issue_def Let_def)
qed

lemma node_hub_reachable: "agent_reachable L J (node_hub cfg i iss)"
  unfolding node_hub_def by (intro agent_reachable.step [OF agent_reachable.step [OF agent_reachable.start load_peers] set_ice])

lemma node_start_answered:
  assumes "node_start lib http t nonce i cfg c n = (Inr (iss, hub), n')"
  shows "fst (issueKey (lib_ed lib) http t nonce c cfg (nd_clock n, nd_net n)) = Inr iss" "hub = node_hub cfg i iss"
  using assms by (auto simp: node_start_def Let_def split: prod.splits sum.splits)

lemma node_inv_start:
  assumes "node_start (pg_lib P) (pg_http P) t nonce (pg_identity P) (pg_cfg P) (pg_client P) n = (Inr (iss, hub), n')"
  shows "node_inv P (serving iss hub n')"
proof -
  have "ka_answered P iss" using node_start_answered(1) [OF assms] unfolding ka_answered_def by blast
  then show ?thesis using node_start_answered(2) [OF assms] by (auto simp: node_inv_def serving_def node_hub_reachable)
qed

lemma node_inv_step:
  assumes "node_step P s s'" "node_inv P s"
  shows "node_inv P s'"
  using assms(1)
proof (cases rule: node_step.cases)
  case (tick t nonce)
  then show ?thesis using node_inv_issue [OF assms(2)] by simp
next
  case store
  then show ?thesis using assms(2) by (simp add: node_inv_def refresh_store_def Let_def)
next
  case set_key
  have "agent_reachable (pg_crypto P) (pg_codec P) (SetCreds (key_creds (pg_cfg P) (pg_identity P) (rn_key s)) (rn_hub s))"
    using assms(2) agent_reachable.step [OF _ set_creds] by (simp add: node_inv_def)
  then show ?thesis using assms(2) set_key by (auto simp: node_inv_def refresh_set_def SetCreds_def)
next
  case (accept a)
  then show ?thesis
    using node_inv_hub [OF assms(2)] accept_turn_reachable assms(2) by (simp add: node_inv_def)
next
  case (call env tok c resp h)
  then have "agent_reachable (pg_crypto P) (pg_codec P) h" "hub_creds h = hub_creds (rn_hub s)"
    using local_serve_reachable assms(2) creds_local_serve by (metis node_inv_def, metis snd_conv)
  then show ?thesis using call node_inv_hub [OF assms(2)] by simp
next
  case (hub h)
  then have "agent_reachable (pg_crypto P) (pg_codec P) h"
    using assms(2) agent_reachable.step by (auto simp: node_inv_def)
  then show ?thesis using hub node_inv_hub [OF assms(2)] agent_step_creds by metis
qed (use assms(2) in \<open>simp add: node_inv_def\<close>)

lemma node_reachable_inv: "node_reachable P s \<Longrightarrow> node_inv P s"
  by (induction rule: node_reachable.induct) (blast intro: node_inv_start node_inv_step)+

subsection \<open>Shutdown\<close>

lemma CloseSession_closed [simp]: "closed (fst (CloseSession J r sc))"
  by (cases sc) (simp add: CloseSession_def)

lemma close_at_closed:
  "closed (fst (hub_heap h ! q)) \<or> q = p \<and> p < length (hub_heap h) \<Longrightarrow> closed (fst (hub_heap (close_at J r p h) ! q))"
  by (cases "p < length (hub_heap h)") (auto simp: close_at_def nth_list_update list_update_beyond)

text \<open>Every session that was registered is closed by \<open>CloseAll\<close>.\<close>

lemma CloseAll_closed:
  assumes "(i, q) \<in> set (hub_sessions h)" "q < length (hub_heap h)"
  shows "closed (fst (hub_heap (CloseAll J h) ! q))"
proof -
  let ?f = "\<lambda>(i, p) h. (close_at J ''shutdown'' p h)\<lparr>hub_sessions := AList.delete i (hub_sessions h)\<rparr>"
  have keep: "closed (fst (hub_heap (fold ?f ss g) ! q))" if "closed (fst (hub_heap g ! q))" for ss g
    using that by (induction ss arbitrary: g) (auto simp: close_at_closed split_beta)
  have "closed (fst (hub_heap (fold ?f ss g) ! q))" if "(i, q) \<in> set ss" "q < length (hub_heap g)" for ss g
    using that
  proof (induction ss arbitrary: g)
    case (Cons x ss)
    obtain j p where x: "x = (j, p)" by fastforce
    show ?case
    proof (cases "x = (i, q)")
      case True
      then show ?thesis using Cons.prems by (auto simp: close_at_closed intro!: keep)
    next
      case False
      then show ?thesis using Cons x by auto
    qed
  qed simp
  then show ?thesis using assms by (simp add: CloseAll_def)
qed

subsection \<open>A turn of the refresh over a transport without faults\<close>

lemma refresh_turn_new:
  assumes "issueKey (lib_ed lib) http t nonce c cfg (nd_clock (rn_node s), nd_net (rn_node s)) = (Inr iss, ck, w)"
    and "EpochID_s iss \<noteq> EpochID_s (rn_key s) \<or> KeySerial_s iss \<noteq> KeySerial_s (rn_key s)"
  shows "refresh_turn lib http t nonce i cfg c s = s\<lparr>rn_key := iss, rn_hub := SetCreds (key_creds cfg i iss) (rn_hub s),
    rn_node := (rn_node s)\<lparr>nd_clock := ck, nd_net := w,
      nd_keys := snd (PutGeneral (lib_record lib) (EpochID_s iss) (GeneralKey_s iss) (key_meta iss) (nd_keys (rn_node s)))\<rparr>,
    rn_pc := RefreshWaits\<rparr>"
  using assms by (auto simp: refresh_turn_def refresh_issue_def refresh_store_def refresh_set_def Let_def)

lemma refresh_turn_fails:
  assumes "issueKey (lib_ed lib) http t nonce c cfg (nd_clock (rn_node s), nd_net (rn_node s)) = (Inl e, ck, w)" "rn_pc s = RefreshWaits"
  shows "refresh_turn lib http t nonce i cfg c s = s\<lparr>rn_node := (rn_node s)\<lparr>nd_clock := ck, nd_net := w\<rparr>\<rparr>"
  using assms by (simp add: refresh_turn_def refresh_issue_def Let_def)

lemma PutGeneral_succeeds: "key \<noteq> [] \<Longrightarrow> script d = [] \<Longrightarrow> \<exists>d'. PutGeneral J e key m d = (Inr (), d')"
  by (simp add: PutGeneral_def Protect_def os_WriteFile_def)

text \<open>
  A failed write of the new key is not noticed: the refresh goes on to the hub, and the store
  still has what it had.
\<close>

lemma refresh_ignores_lost_write:
  assumes "script (nd_keys (rn_node s)) = [OpenFails]"
  shows "rn_pc (refresh_store lib s) = RefreshSets \<and>
    GetGeneral (lib_record lib) e (nd_keys (rn_node (refresh_store lib s))) = GetGeneral (lib_record lib) e (nd_keys (rn_node s))"
proof -
  have "files (snd (PutGeneral J f k m d)) = files d" if "script d = [OpenFails]" for J f k m d
    using that by (simp add: PutGeneral_def os_WriteFile_def Let_def split: sum.split)
  then show ?thesis using assms by (simp add: refresh_store_def Let_def GetGeneral_def os_ReadFile_def)
qed

section \<open>Properties\<close>


definition sample_program :: "(RateLimiter option \<times> sql_db Server \<times> time list) program" where
  "sample_program = \<lparr>pg_lib = sample_lib, pg_crypto = xor_lib, pg_codec = field_codec,
     pg_http = direct (sql_Store id) xor_lib toy_ed25519 id, pg_get = \<lambda>_ w. (None, w), pg_cfg = sample_config,
     pg_identity = identity_of_disk sample_disk_identity, pg_client = sample_client, pg_protect = False,
     pg_os = ''linux'', pg_arch = ''amd64''\<rparr>"

lemma sample_program_sel [simp]:
  "pg_lib sample_program = sample_lib" "pg_crypto sample_program = xor_lib" "pg_codec sample_program = field_codec"
  "pg_http sample_program = direct (sql_Store id) xor_lib toy_ed25519 id" "pg_cfg sample_program = sample_config"
  "pg_identity sample_program = identity_of_disk sample_disk_identity" "pg_client sample_program = sample_client"
  by (simp_all add: sample_program_def)

definition sample_key :: "u64 \<Rightarrow> IssueResponse" where
  "sample_key e = \<lparr>DeviceID_s = ''dev'', EpochID_s = e, NotBefore_s = 0, NotAfter_s = 0, GraceSeconds_s = 0, KeySerial_s = 1,
     RequestID_s = [], PublicTag_s = [], GeneralKey_s = replicate 32 1, Profile_s = ''strong'', KATime_s = 0\<rparr>"

lemma sample_started:
  "\<exists>iss hub n'. node_start sample_lib (direct (sql_Store id) xor_lib toy_ed25519 id) (shifted_times (3600 * 10 ^ 9)) [1]
     (identity_of_disk sample_disk_identity) sample_config sample_client (sample_node 0) = (Inr (iss, hub), n')"
proof (rule sample_ready)
  fix k db
  assume k: "issue_key xor_lib (Master (server_with (sample_db signing_device))) (Profile_n sample_config) (EpochID sample_now) signing_device = Inr k"
    "k \<noteq> []" "st_MarkIssued (sql_Store id) (DeviceID_n sample_config) (EpochID sample_now)
       (Registry_f (server_with (sample_db signing_device))) = (Inr 8, db)"
  show ?thesis
    using node_start_issues [of sample_lib "replicate 32 3", unfolded sample_lib_sel(1,2), OF toy_ed25519_correct _ sample_enrolled
        sample_node_sel(3) k sample_node_sel(1,2) sample_lib_sel(3) record_json_ok sample_config_ascii] by fastforce
qed

lemma sample_running: "\<exists>s. node_reachable sample_program s \<and> rn_pc s = RefreshWaits"
proof -
  obtain iss hub n' where "node_start (pg_lib sample_program) (pg_http sample_program) (shifted_times (3600 * 10 ^ 9)) [1]
     (pg_identity sample_program) (pg_cfg sample_program) (pg_client sample_program) (sample_node 0) = (Inr (iss, hub), n')"
    using sample_started by auto
  from node_reachable.start [OF this] show ?thesis by (auto simp: serving_def)
qed




text \<open>
  C26: Shutting a running node down leaves no peer behind: no session is registered any more, and
  every session that was is closed.
\<close>

theorem shutdown_closes_sessions:
  assumes "node_reachable P s" "map_of (hub_sessions (rn_hub s)) peer = Some p"
  shows "hub_sessions (rn_hub (shutdown J s)) = [] \<and> closed (fst (hub_heap (rn_hub (shutdown J s)) ! p)) \<and>
    hub_creds (rn_hub (shutdown J s)) = hub_creds (rn_hub s)"
proof -
  have inv: "agent_inv (rn_hub s)" using node_reachable_inv [OF assms(1)] agent_reachable_inv by (auto simp: node_inv_def)
  show ?thesis
    using CloseAll_empty [of J "rn_hub s"] CloseAll_closed [OF map_of_SomeD [OF assms(2)] agent_invD(1) [OF inv assms(2)]]
    by (simp add: shutdown_def creds_CloseAll)
qed

lemma sample_responder:
  "\<exists>s c d. AcceptSession xor_lib field_codec (8640005 * 10 ^ 9) (pinned (Local bob) '''') d = (Inr s, c)"
proof -
  have e: "AgreeEpoch 100 100 (8640000 * 10 ^ 9) DefaultGraceSeconds = (100, True)"
    "AgreeEpoch 100 100 (8640005 * 10 ^ 9) DefaultGraceSeconds = (100, True)"
    by code_simp+
  have b: "pinned (Local bob) '''' = bob" by (simp add: pinned_def bob_def)
  have sel: "effective_profile (Local alice) = ''strong''" "effective_profile (Local bob) = ''strong''" "EpochID_l (Local alice) = 100"
    "EpochID_l (Local bob) = 100" "PeerDeviceID_c alice = DeviceID_l (Local bob)" "PeerDeviceID_c bob = ''''"
    by (simp_all add: alice_def bob_def effective_profile_def)
  show ?thesis
    unfolding AcceptSession_def b
    by (rule handshake_completes [OF xor_lib_laws(1,2,3,5,4) field_codec_laws alice_bob_creds, of
          "8640000 * 10 ^ 9" 100 "8640005 * 10 ^ 9" 4 "replicate 60 3" 4 "replicate 60 4", unfolded sel, OF _ _ _ _ e]) auto
qed

theorem shutdown_closes_sessions_witness:
  "\<exists>s peer. node_reachable sample_program s \<and> map_of (hub_sessions (rn_hub s)) peer \<noteq> None \<and>
    hub_sessions (rn_hub (shutdown field_codec s)) = []"
proof -
  obtain s0 where s0: "node_reachable sample_program s0" using sample_running by blast
  obtain s c d where a: "AcceptSession xor_lib field_codec (8640005 * 10 ^ 9) (pinned (Local bob) '''') d = (Inr s, c)"
    using sample_responder by blast
  let ?h = "accept_finish field_codec s c (rn_hub s0)"
  have "?h \<noteq> SetCreds cr (rn_hub s0)" for cr
    using accept_finish_sel(5) [of field_codec s c "rn_hub s0"] by (auto simp: SetCreds_def)
  then have "node_step sample_program s0 (s0\<lparr>rn_hub := ?h\<rparr>)"
    using accept_end [OF a, of "rn_hub s0"] by (intro node_step.hub) auto
  then have r: "node_reachable sample_program (s0\<lparr>rn_hub := ?h\<rparr>)" by (rule node_reachable.step [OF s0])
  have m: "map_of (hub_sessions (rn_hub (s0\<lparr>rn_hub := ?h\<rparr>))) (peerID s) = Some (length (hub_heap (rn_hub s0)))"
    by (simp add: accept_finish_sel(1))
  show ?thesis using r m shutdown_closes_sessions [OF r m, of field_codec] by blast
qed

end
