(* ===== verification/WellTyped.thy ===== *)
theory WellTyped
  imports Server
begin

text \<open>
  The types of what the key authority keeps and answers. Go gives keys the type \<open>[]byte\<close> and names the
  type \<open>string\<close>; that a stored identity key has 32 bytes, a signing key 32 bytes or none, and a device
  a name and a profile, follows from the checks of the handlers. The contract of the stores carries
  it through any sequence of requests, for both stores at once.
\<close>

section \<open>Definitions\<close>

definition record_typed :: "string \<Rightarrow> DeviceRecord \<Rightarrow> bool" where
  "record_typed d rec \<longleftrightarrow> DeviceID rec = d \<and> d \<noteq> '''' \<and> length (IdentityPK rec) = 32 \<and> length (SignPK rec) \<in> {0, 32} \<and>
     Profile rec \<noteq> ''''"

definition ka_typed :: "ka \<Rightarrow> bool" where
  "ka_typed k \<longleftrightarrow> (\<forall>d rec. devs k d = Some rec \<longrightarrow> record_typed d rec)"

definition answer_typed :: "response \<Rightarrow> bool" where
  "answer_typed resp = (case resp of
     (code, IssueBody a) \<Rightarrow> code = 200 \<and> length (GeneralKey_s a) = 32 \<and> DeviceID_s a \<noteq> '''' \<and> Profile_s a \<noteq> ''''
   | (code, ErrorBody e) \<Rightarrow> code \<ge> 400
   | _ \<Rightarrow> True)"

section \<open>Lemmas\<close>

lemma record_typed_enrolled:
  assumes "enroll_check req = None" "\<And>r. old = Some r \<Longrightarrow> record_typed (DeviceID_e req) r"
  shows "record_typed (DeviceID_e req) (enrolled_record req old)"
  using assms
  by (cases old) (auto simp: record_typed_def enroll_check_def enrolled_record_def enroll_new_def enroll_existing_def
      enroll_profile_def split: if_splits)

lemma record_typed_update [simp]:
  "record_typed d (rec\<lparr>Revoked := b\<rparr>) = record_typed d rec" "record_typed d (issued_record e n rec) = record_typed d rec"
  by (simp_all add: record_typed_def issued_record_def)

lemma ka_typed_put: "ka_typed k \<Longrightarrow> record_typed d rec \<Longrightarrow> ka_typed (put_dev d rec k)"
  by (simp add: ka_typed_def)

lemma ka_typed_frame [simp]: "ka_typed (put_vch i v k) = ka_typed k" "ka_typed (k\<lparr>ser := n\<rparr>) = ka_typed k"
  by (simp_all add: ka_typed_def)

lemma ka_typed_step:
  assumes "ka_step hash k c k'" "ka_typed k"
  shows "ka_typed k'"
  using assms(1)
proof cases
  case (1 req r)
  then show ?thesis
    using assms(2) record_typed_enrolled [of req "devs k (DeviceID_e req)"]
    by (auto simp: enroll_spec_def saved_def Let_def ka_typed_put ka_typed_def split: option.splits if_splits)
next
  case (2 d r)
  then show ?thesis
    using assms(2) by (auto simp: revoke_spec_def saved_def ka_typed_def split: option.splits if_splits)
next
  case (3 d e r)
  then show ?thesis
    using assms(2) by (auto simp: mark_spec_def saved_def ka_typed_def split: option.splits if_splits)
qed (use assms(2) in \<open>auto simp: redeem_spec_def add_spec_def revoke_voucher_spec_def saved_def split: option.splits if_splits\<close>)

lemma ka_typed_run: "ka_run hash k cs k' \<Longrightarrow> ka_typed k \<Longrightarrow> ka_typed k'"
  by (induction rule: ka_run.induct) (auto intro: ka_typed_step)

lemma HKDF_length: "hkdf_total L \<Longrightarrow> HKDF L ikm salt info 32 = Inr k \<Longrightarrow> length k = 32"
  by (rule HKDF_total [of L 32 ikm salt info]) auto

lemma issue_key_length: "hkdf_total L \<Longrightarrow> issue_key L m p e rec = Inr k \<Longrightarrow> length k = 32"
  using HKDF_length by (auto simp: issue_key_def DeriveGeneralKey_def DeriveOrgDayKey_def split: if_splits)

lemma no_answer_error:
  "answer_typed (fst (handleHealth now r st))" "answer_typed (fst (handleStatus S now r st))" "answer_typed (fst (handleRevoke S now r b st))"
  "answer_typed (fst (handleRevokeVoucher S r i st))" "answer_typed (fst (handleListVouchers S r st))" "answer_typed (fst (handleListDevices S r st))"
  by (auto simp: answer_typed_def handleHealth_def handleStatus_def handleRevoke_def handleRevokeVoucher_def handleListVouchers_def
      handleListDevices_def writeErr_def Let_def split: option.split sum.split prod.split)

lemma answer_typed_create: "answer_typed (fst (handleCreateVoucher S sha now rnd r b st))"
  by (auto simp: answer_typed_def handleCreateVoucher_def writeErr_def Let_def split: option.split sum.split prod.split)

lemma answer_typed_enroll: "answer_typed (fst (handleEnroll S now r b st))"
  by (auto simp: answer_typed_def handleEnroll_def finish_enroll_def writeErr_def Let_def split: option.split sum.split prod.split)

lemma answer_typed_issue:
  assumes "hkdf_total L"
  shows "answer_typed (fst (handleIssue S L E now r b st))"
proof (cases "\<exists>req code a st'. b = Some req \<and> handleIssue S L E now r b st = ((code, IssueBody a), st')")
  case True
  then obtain req code a st' where b: "b = Some req" and h: "handleIssue S L E now r (Some req) st = ((code, IssueBody a), st')" by auto
  obtain rec where "authenticateIssue S E r req st = Inr (DeviceID_s a, rec, Profile_s a)" "code = 200"
    "issue_key L (Master st) (Profile_s a) (EpochID now) rec = Inr (GeneralKey_s a)"
    by (rule handleIssue_IssueD [OF h])
  then show ?thesis
    using b h issue_key_length [OF assms] by (auto simp: answer_typed_def authenticateIssue_def Let_def split: option.splits if_splits)
next
  case False
  then show ?thesis
    by (auto simp: answer_typed_def handleIssue_def writeErr_def Let_def split: option.splits sum.splits prod.splits)
qed

context ka_store
begin

lemma serve_typed:
  assumes "hkdf_total L" "invar (Registry_f st)" "ka_typed (abs (Registry_f st))"
  shows "invar (Registry_f (snd (serve S L E sha now r c st)))" "ka_typed (abs (Registry_f (snd (serve S L E sha now r c st))))"
    "answer_typed (fst (serve S L E sha now r c st))"
proof -
  show "invar (Registry_f (snd (serve S L E sha now r c st)))" "ka_typed (abs (Registry_f (snd (serve S L E sha now r c st))))"
    using serve_quiet [OF assms(2), of c L E sha now r] ka_typed_run assms(3) unfolding quiet_def by blast+
  show "answer_typed (fst (serve S L E sha now r c st))"
    by (cases c) (simp_all add: serve_def no_answer_error answer_typed_create answer_typed_enroll answer_typed_issue [OF assms(1)])
qed

lemma serve_all_typed:
  assumes "hkdf_total L" "invar (Registry_f st)" "ka_typed (abs (Registry_f st))" "serve_all S L E sha xs st = (resps, st')"
  shows "invar (Registry_f st') \<and> ka_typed (abs (Registry_f st')) \<and> (\<forall>resp \<in> set resps. answer_typed resp)"
  using assms(2-4)
proof (induction xs arbitrary: st resps)
  case (Cons x xs)
  obtain now r c where x: "x = (now, r, c)" by (cases x)
  let ?p = "serve S L E sha now r c st"
  obtain rs where rs: "serve_all S L E sha xs (snd ?p) = (rs, st')" "resps = fst ?p # rs"
    using Cons.prems(3) x by (auto simp: split_beta) (metis prod.collapse)
  show ?case
    using Cons.IH [OF serve_typed(1,2) [OF assms(1) Cons.prems(1,2)] rs(1)] serve_typed(3) [OF assms(1) Cons.prems(1,2)] rs(2) by simp
qed simp

end

section \<open>Properties\<close>

text \<open>
  C15: What the key authority keeps and answers is well typed: over either store, starting from
  well-typed device records and whatever requests are served in whatever order, every stored
  device has its own name, a profile, an identity key of 32 bytes and a signing key of 32 bytes or
  none; every key answer has status 200 and carries a key of 32 bytes with a device name and a
  profile; and every error answer has a status of at least 400.
\<close>

theorem records_and_answers_typed:
  assumes "hkdf_total L"
  shows "(\<forall>xs st resps st'. reg_invar (Registry_f st) \<longrightarrow> (\<forall>d rec. reg_Get d (Registry_f st) = Some rec \<longrightarrow> record_typed d rec) \<longrightarrow>
      serve_all (registry_Store sha J) L E sha xs st = (resps, st') \<longrightarrow>
      (\<forall>d rec. reg_Get d (Registry_f st') = Some rec \<longrightarrow> record_typed d rec) \<and> (\<forall>resp \<in> set resps. answer_typed resp)) \<and>
    (\<forall>xs st resps st'. sql_invar (Registry_f st) \<longrightarrow> (\<forall>d rec. sql_Get d (Registry_f st) = Some rec \<longrightarrow> record_typed d rec) \<longrightarrow>
      serve_all (sql_Store sha) L E sha xs st = (resps, st') \<longrightarrow>
      (\<forall>d rec. sql_Get d (Registry_f st') = Some rec \<longrightarrow> record_typed d rec) \<and> (\<forall>resp \<in> set resps. answer_typed resp))"
proof (rule conjI; intro allI impI)
  fix xs and st st' :: "Registry Server" and resps
  assume a: "reg_invar (Registry_f st)" "\<forall>d rec. reg_Get d (Registry_f st) = Some rec \<longrightarrow> record_typed d rec"
    "serve_all (registry_Store sha J) L E sha xs st = (resps, st')"
  have g: "reg_invar r \<Longrightarrow> reg_Get d r = devs (reg_abs r) d" for r d
    using rst.get [of r sha J d] by (simp add: registry_Store_def)
  then have "ka_typed (reg_abs (Registry_f st))" using a(1,2) by (simp add: ka_typed_def)
  from rst.serve_all_typed [OF assms a(1) this a(3)]
  show "(\<forall>d rec. reg_Get d (Registry_f st') = Some rec \<longrightarrow> record_typed d rec) \<and> (\<forall>resp \<in> set resps. answer_typed resp)"
    by (simp add: g ka_typed_def)
next
  fix xs and st st' :: "sql_db Server" and resps
  assume a: "sql_invar (Registry_f st)" "\<forall>d rec. sql_Get d (Registry_f st) = Some rec \<longrightarrow> record_typed d rec"
    "serve_all (sql_Store sha) L E sha xs st = (resps, st')"
  have g: "sql_invar r \<Longrightarrow> sql_Get d r = devs (sql_abs r) d" for r d
    using sst.get [of r sha d] by (simp add: sql_Store_def)
  then have "ka_typed (sql_abs (Registry_f st))" using a(1,2) by (simp add: ka_typed_def)
  from sst.serve_all_typed [OF assms a(1) this a(3)]
  show "(\<forall>d rec. sql_Get d (Registry_f st') = Some rec \<longrightarrow> record_typed d rec) \<and> (\<forall>resp \<in> set resps. answer_typed resp)"
    by (simp add: g ka_typed_def)
qed

theorem records_and_answers_typed_witness:
  "list_all answer_typed (fst (serve_all (sql_Store id) xor_lib toy_ed25519 id
      [(sample_now, sample_request, CHealth), (sample_now, sample_request, CIssue (Some sample_issue)),
       (sample_now, sample_request, CEnroll (Some sample_req))]
      (server_with (sample_db (signing_device\<lparr>IdentityPK := replicate 32 2\<rparr>)))))"
proof -
  let ?dev = "signing_device\<lparr>IdentityPK := replicate 32 2\<rparr>"
  let ?xs = "[(sample_now, sample_request, CHealth), (sample_now, sample_request, CIssue (Some sample_issue)),
       (sample_now, sample_request, CEnroll (Some sample_req))]"
  have dev: "record_typed ''dev'' ?dev" by (simp add: record_typed_def signing_device_def sample_device_def)
  have "record_typed d rec" if "sql_Get d (sample_db ?dev) = Some rec" for d rec
    using that dev by (auto simp: sql_Get_def getLocked_def sample_db_def lookup_def record_typed_def split: if_splits)
  moreover obtain resps st' where
    "serve_all (sql_Store id) xor_lib toy_ed25519 id ?xs (server_with (sample_db ?dev)) = (resps, st')" by fastforce
  ultimately show ?thesis
    using records_and_answers_typed [OF xor_lib_laws(4), of id reg_codec toy_ed25519, THEN conjunct2, THEN spec, THEN spec,
        of "server_with (sample_db ?dev)" ?xs] sample_state(2)
    by (auto simp: server_with_def list_all_iff simp del: serve_all.simps)
qed

end
