(* ===== verification/Exchange.thy ===== *)
theory Exchange
  imports NodeRun WellTyped
begin

text \<open>
  Two running agents together: one connects to the other through its local interface, the other
  accepts, and a text given to the local interface of the first arrives in the inbox of the second.
  The network between them carries what one side wrote to what the other side reads.
\<close>

section \<open>Definitions\<close>

text \<open>The bytes that the network delivers next to the session at \<open>p\<close>.\<close>

definition arrives :: "nat \<Rightarrow> bytes \<Rightarrow> AgentHub \<Rightarrow> AgentHub" where
  "arrives p b h = h\<lparr>hub_heap := (hub_heap h)[p := (fst (hub_heap h ! p), (snd (hub_heap h ! p))\<lparr>rx := rx (snd (hub_heap h ! p)) @ b\<rparr>)]\<rparr>"

section \<open>Lemmas\<close>

lemma arrives_step: "agent_step L J h (arrives p b h)"
  unfolding arrives_def by (rule network) (rule prod.collapse [symmetric])

lemma Connect_completes:
  assumes "addr \<noteq> ''''" "dialed addr = Some c" "handshakeInitiator L J now (pinned (hub_creds h) peer) c = (Inr s, c')"
  shows "Connect L J now dialed peer addr h =
    (Inr (), add_session peer s c' (drop_session J ''reconnect'' peer (AddPeer peer addr h)))"
  using assms by (simp add: Connect_def connect_begin_def Let_def Dial_def)

lemma AcceptConn_completes:
  assumes "handshakeResponder L J now (pinned (hub_creds h) '''') c = (Inr s, c')"
  shows "AcceptConn L J now c h = (Inr (), accept_finish J s c' h)"
  using assms by (simp add: AcceptConn_def AcceptSession_def)

text \<open>One message over the two ends of a new session.\<close>

lemma first_message:
  assumes lib: "aead_correct L" "aead_overhead L" "codec_ok J" "codec_fits J" and k: "length kA = 32" and n: "2 \<le> n" and m: "length m \<le> 32000"
    and a_def: "a = new_session x y e kA kB" and b_def: "b = new_session y x e kB kA"
  obtains wire a' where "Send L J m (a, open_end r t n q) = (Inr (), (a', open_end r (t @ wire) (n - 2) q))"
    "\<And>t' n' q'. \<exists>b'. Recv L J (b, open_end wire t' n' q') = (Inr m, (b', open_end [] t' n' q'))"
proof -
  obtain wire a' b' where w: "send_all L J [m] (a, open_end r t n q) = (Inr (), (a', open_end r (t @ wire) (n - 2 * length [m]) q))"
    "\<forall>rest t' n' q'. recv_n L J (length [m]) (b, open_end (wire @ rest) t' n' q') = (Inr [m], (b', open_end rest t' n' q'))"
    using delivery [OF lib, of a b "[m]" n r t q] k n m replay_ok_New [of 128] replay_ahead_New [of 0 128]
    by (auto simp: a_def b_def new_session_def)
  have "Recv L J (b, open_end wire t' n' q') = (Inr m, (b', open_end [] t' n' q'))" for t' n' q'
    using w(2) [rule_format, of "[]" t' n' q'] by (auto simp: gbind_def gret_def split: prod.splits sum.splits)
  moreover have "Send L J m (a, open_end r t n q) = (Inr (), (a', open_end r (t @ wire) (n - 2) q))"
    using w(1) by (simp add: gbind_def gret_def split: prod.splits sum.splits)
  ultimately show thesis using that by blast
qed

text \<open>What the two agents do once the handshake and the sealing of the text are known to succeed.\<close>

lemma exchange_steps:
  assumes names: "idB \<noteq> ''''" "addr \<noteq> ''''" and dial: "env_now env = nowA" "env_dial env addr = Some cA"
    and hA: "handshakeInitiator L J nowA (pinned (hub_creds A) idB) cA = (Inr sA, cA')"
    and hB: "handshakeResponder L J nowB (pinned (hub_creds B) '''') cB = (Inr (new_session idB idA e kB kA), open_end [] tB nB qB)"
    and s: "Send L J (bytes_of text) (sA, cA') = (Inr (), (a', open_end rA (streamA @ wire) n q))"
    and r: "\<And>t' n' q'. \<exists>b'. Recv L J (new_session idB idA e kB kA, open_end wire t' n' q') = (Inr (bytes_of text), (b', open_end [] t' n' q'))"
    and room: "length (hub_inbox B) < 500"
  shows "\<exists>A1 A2 p wire.
      local_serve L J env apiA (''Bearer '' @ Token_o apiA) (LConnect (Some (idB, addr))) A = ((200, LSessionBody idB), A1) \<and>
      (let B1 = accept_turn L J (nowB, Some cB) B; q = length (hub_heap B); B2 = read_step L J now q (arrives q wire B1) in
       map_of (hub_sessions A1) idB = Some p \<and> map_of (hub_sessions B1) idA = Some q \<and> q \<in> set (hub_loops B1) \<and>
       local_serve L J env apiA (''Bearer '' @ Token_o apiA) (LSend (Some (idB, text))) A1 = ((200, LOK), A2) \<and>
       tx (snd (hub_heap A2 ! p)) = streamA @ wire \<and>
       fst (local_serve L J env' apiB (''Bearer '' @ Token_o apiB) (LInbox '''' ''1'') B2) =
         (200, LMessages (hub_inbox B @ [\<lparr>From_b = idA, Body_b = text, Raw_b = bytes_of text, Received_b = now\<rparr>])))"
proof -
  define g where "g = drop_session J ''reconnect'' idB (AddPeer idB addr A)"
  define A1 where "A1 = add_session idB sA cA' g"
  define A2 where "A2 = A1\<lparr>hub_heap := (hub_heap A1)[length (hub_heap g) := (a', open_end rA (streamA @ wire) n q)]\<rparr>"
  define sB where "sB = new_session idB idA e kB kA"
  define B1 where "B1 = accept_finish J sB (open_end [] tB nB qB) B"
  have sB: "peerID sB = idA" by (simp add: sB_def new_session_def)
  note b1 = accept_finish_sel [where J = J and s = sB and c = "open_end [] tB nB qB" and h = B, folded B1_def, unfolded sB]
  have 1: "local_serve L J env apiA (''Bearer '' @ Token_o apiA) (LConnect (Some (idB, addr))) A = ((200, LSessionBody idB), A1)"
    using Connect_completes [where dialed = "env_dial env", OF names(2) dial(2) hA] names(1) dial(1)
    by (simp add: local_serve_def auth_def local_route_def api_handleConnect_def A1_def g_def)
  have 2: "accept_turn L J (nowB, Some cB) B = B1"
    using AcceptConn_completes [OF hB] by (simp add: accept_turn_def B1_def sB_def)
  have 3: "local_serve L J env apiA (''Bearer '' @ Token_o apiA) (LSend (Some (idB, text))) A1 = ((200, LOK), A2)"
    using s names(1) by (simp add: local_serve_def auth_def local_route_def api_handleSend_def hub_Send_def A1_def A2_def)
  have heap: "hub_heap (arrives (length (hub_heap B)) wire B1) ! length (hub_heap B) = (sB, open_end wire tB nB qB)"
    using b1 by (simp add: arrives_def)
  obtain b' where "Recv L J (hub_heap (arrives (length (hub_heap B)) wire B1) ! length (hub_heap B)) = (Inr (bytes_of text), b')"
    using r heap unfolding sB_def by metis
  from read_step_Inr [OF this, of now] have 4: "hub_inbox (read_step L J now (length (hub_heap B)) (arrives (length (hub_heap B)) wire B1)) =
      hub_inbox B @ [\<lparr>From_b = idA, Body_b = text, Raw_b = bytes_of text, Received_b = now\<rparr>]"
    using room heap sB b1(4) by (simp add: deliver_inbox arrives_def)
  have 5: "map_of (hub_sessions A1) idB = Some (length (hub_heap g))" "tx (snd (hub_heap A2 ! length (hub_heap g))) = streamA @ wire"
    by (simp_all add: A1_def A2_def)
  show ?thesis
    using 1 2 3 4 5 b1(1,3)
    by (intro exI [of _ A1] exI [of _ A2] exI [of _ "length (hub_heap g)"] exI [of _ wire])
      (simp add: Let_def local_serve_def auth_def local_route_def api_handleInbox_def Inbox_def)
qed

text \<open>What a node that started over a transport without faults has drawn.\<close>

lemma drawn_key:
  assumes "hkdf_total L" "length (SignKey_k c) > 0" "Profile_n cfg \<noteq> ''''"
    and "fst (issueKey E (direct S L E sha) t nonce c cfg (ck, None, st, [T1, T2])) = Inr iss"
  shows "length (GeneralKey_s iss) = 32" "EpochID_s iss = EpochID T2" "Profile_s iss = Profile_n cfg"
proof -
  define ck1 where "ck1 = (if 0 < Unix T1 then ApplyKATime (t_health t) (Unix T1) ck else ck)"
  define req where "req = \<lparr>DeviceID_q = DeviceID_n cfg, EpochHint_q = CurrentEpoch (t_hint t) ck1, Nonce_q = nonce,
    ClientTime_q = Unix (CorrectedNow (t_send t) ck1), Profile_q = Profile_n cfg, Signature_q = []\<rparr>"
  have p: "Profile_q req = Profile_n cfg" by (simp add: req_def)
  have "fst (issueKey E (direct S L E sha) t nonce c cfg (ck, None, st, [T1, T2])) =
      fst (client_IssueKey E (direct S L E sha) c req (None, st, [T2]))"
    by (cases "0 < Unix T1")
      (simp_all add: issueKey_def client_Health_direct Let_def ck1_def req_def split_beta split: sum.split)
  with assms(4) have i: "fst (client_IssueKey E (direct S L E sha) c req (None, st, [T2])) = Inr iss" by simp
  obtain code st' where h: "handleIssue S L E T2 (client_request c ''/v1/key/issue'' False) (Some (signed_request E c req)) st =
      ((code, IssueBody iss), st')"
    using i p assms(2,3) by (auto simp: client_IssueKey_direct split: prod.splits body.splits if_splits)
  obtain rec where a: "authenticateIssue S E (client_request c ''/v1/key/issue'' False) (signed_request E c req) st =
      Inr (DeviceID_s iss, rec, Profile_s iss)" and e: "EpochID_s iss = EpochID T2"
    by (rule handleIssue_IssueD [OF h])
  show "length (GeneralKey_s iss) = 32"
    using answer_typed_issue [OF assms(1), of S E T2 "client_request c ''/v1/key/issue'' False" "Some (signed_request E c req)" st] h
    by (simp add: answer_typed_def)
  show "Profile_s iss = Profile_n cfg"
    using authenticateIssue_InrD(5) [OF a] p assms(3) by (simp add: signed_request_def Let_def)
  show "EpochID_s iss = EpochID T2" by (rule e)
qed

lemma node_hub_inbox [simp]: "hub_inbox (node_hub cfg i iss) = []"
proof -
  have "hub_inbox (LoadPeers ps h) = hub_inbox h" for ps h
    by (induction ps h rule: LoadPeers.induct) (simp_all add: AddPeer_def)
  then show ?thesis by (simp add: node_hub_def SetICE_def NewAgentHub_def)
qed

text \<open>The names and keys of a device as its files have them.\<close>

definition device_ok :: "crypto_lib \<Rightarrow> NodeConfig \<Rightarrow> Identity \<Rightarrow> bool" where
  "device_ok L cfg i \<longleftrightarrow> keypair L (PrivateKey_i i) (PublicKey_i i) \<and> ascii (DeviceID_n cfg) \<and> length (DeviceID_n cfg) \<le> 4096 \<and>
     DeviceID_n cfg \<noteq> '''' \<and> ascii (Profile_n cfg) \<and> length (Profile_n cfg) \<le> 4096 \<and> Profile_n cfg \<noteq> ''''"

lemma started_node:
  assumes "node_start lib (direct S L (lib_ed lib) sha) t nonce i cfg c n = (Inr (iss, hub), n')"
    and "nd_net n = (None, st, [T1, T2])" "hkdf_total L" "length (SignKey_k c) > 0" "device_ok L cfg i"
  shows "creds_ok L (hub_creds hub)" "DeviceID_l (hub_creds hub) = DeviceID_n cfg" "EpochID_l (hub_creds hub) = EpochID T2"
    "effective_profile (hub_creds hub) = Profile_n cfg" "hub_inbox hub = []"
proof -
  note s = node_start_answered [OF assms(1)]
  have "length (GeneralKey_s iss) = 32" "EpochID_s iss = EpochID T2" "Profile_s iss = Profile_n cfg"
    using drawn_key [OF assms(3,4), of cfg "lib_ed lib" S sha t nonce "nd_clock n" st T1 T2 iss] s(1) assms(2,5)
    by (auto simp: device_ok_def)
  then show "creds_ok L (hub_creds hub)" "DeviceID_l (hub_creds hub) = DeviceID_n cfg" "EpochID_l (hub_creds hub) = EpochID T2"
    "effective_profile (hub_creds hub) = Profile_n cfg" "hub_inbox hub = []"
    using assms(5) s(2) by (simp_all add: device_ok_def creds_ok_def key_creds_def effective_profile_def)
qed

section \<open>The exchange\<close>

text \<open>
  Two devices that hold keys of the same epoch reach each other and exchange a text: one is told by
  its local interface to connect to the other, which accepts; both register a session under the
  other's name. A text given to the local interface is sent, and once the bytes arrive, the next
  turn of the other's read loop puts exactly this text, under the sender's name, into its inbox,
  where its local interface reads it.
\<close>

lemma agents_exchange_text:
  fixes A B :: AgentHub
  defines "idA \<equiv> DeviceID_l (hub_creds A)" and "idB \<equiv> DeviceID_l (hub_creds B)"
  assumes lib: "x25519_total L" "dh_agrees L" "aead_correct L" "aead_overhead L" "hkdf_total L" "codec_ok J" "codec_fits J"
    and creds: "creds_ok L (hub_creds A)" "creds_ok L (hub_creds B)"
    and profile: "effective_profile (hub_creds A) = effective_profile (hub_creds B)" "effective_profile (hub_creds A) \<noteq> ''simple''"
    and epochs: "AgreeEpoch (EpochID_l (hub_creds A)) (EpochID_l (hub_creds B)) nowA DefaultGraceSeconds = (e, True)"
      "AgreeEpoch (EpochID_l (hub_creds A)) (EpochID_l (hub_creds B)) nowB DefaultGraceSeconds = (e, True)"
    and conn: "6 \<le> nA" "60 \<le> length qA" "4 \<le> nB" "60 \<le> length qB"
    and names: "idB \<noteq> ''''" "addr \<noteq> ''''"
    and body: "length text \<le> 32000" "length (hub_inbox B) < 500"
  shows "\<exists>streamA streamB. \<forall>env. env_now env = nowA \<and> env_dial env addr = Some (open_end streamB [] nA qA) \<longrightarrow>
    (\<exists>A1 A2 p wire.
      local_serve L J env apiA (''Bearer '' @ Token_o apiA) (LConnect (Some (idB, addr))) A = ((200, LSessionBody idB), A1) \<and>
      (let B1 = accept_turn L J (nowB, Some (open_end streamA [] nB qB)) B; q = length (hub_heap B); B2 = read_step L J now q (arrives q wire B1) in
       map_of (hub_sessions A1) idB = Some p \<and> map_of (hub_sessions B1) idA = Some q \<and> q \<in> set (hub_loops B1) \<and>
       local_serve L J env apiA (''Bearer '' @ Token_o apiA) (LSend (Some (idB, text))) A1 = ((200, LOK), A2) \<and>
       tx (snd (hub_heap A2 ! p)) = streamA @ wire \<and>
       fst (local_serve L J env' apiB (''Bearer '' @ Token_o apiB) (LInbox '''' ''1'') B2) =
         (200, LMessages (hub_inbox B @ [\<lparr>From_b = idA, Body_b = text, Raw_b = bytes_of text, Received_b = now\<rparr>]))))"
proof -
  have pins: "PeerDeviceID_c (pinned (hub_creds A) idB) \<in> {'''', DeviceID_l (Local (pinned (hub_creds B) ''''))}"
    "PeerDeviceID_c (pinned (hub_creds B) '''') \<in> {'''', DeviceID_l (Local (pinned (hub_creds A) idB))}"
    by (simp_all add: pinned_def idB_def)
  have loc: "Local (pinned cr i) = cr" for cr i by (simp add: pinned_def)
  obtain streamA streamB kA kB where
    hA: "handshakeInitiator L J nowA (pinned (hub_creds A) idB) (open_end streamB [] nA qA) =
        (Inr (new_session idA idB e kA kB), open_end [] streamA (nA - 4) (drop 60 qA))"
    and hB: "handshakeResponder L J nowB (pinned (hub_creds B) '''') (open_end streamA [] nB qB) =
        (Inr (new_session idB idA e kB kA), open_end [] streamB (nB - 4) (drop 60 qB))"
    and kA: "length kA = 32"
    by (rule handshake_completes [of L J "pinned (hub_creds A) idB" "pinned (hub_creds B) ''''" nowA e nowB nA qA nB qB,
          unfolded loc, folded idA_def idB_def, OF lib(1-7) creds profile pins [unfolded loc, folded idA_def idB_def] epochs _ conn(2-4)])
      (use conn(1) in auto)
  have n: "2 \<le> nA - 4" using conn(1) by simp
  obtain wire a' where s: "Send L J (bytes_of text) (new_session idA idB e kA kB, open_end [] streamA (nA - 4) (drop 60 qA)) =
      (Inr (), (a', open_end [] (streamA @ wire) (nA - 4 - 2) (drop 60 qA)))"
    and r: "\<And>t' n' q'. \<exists>b'. Recv L J (new_session idB idA e kB kA, open_end wire t' n' q') = (Inr (bytes_of text), (b', open_end [] t' n' q'))"
    using first_message [OF lib(3,4,6,7) kA n, of "bytes_of text" _ idA idB e kB] body(1) by (metis length_bytes_of)
  show ?thesis
    by (intro exI [of _ streamA] exI [of _ streamB] allI impI exchange_steps [OF names _ _ hA hB s r body(2)]) simp_all
qed

end
