(* ===== verification/Service.thy ===== *)
theory Service
  imports NodeRun
begin

text \<open>
  The node as a service of the operating system: \<^verbatim>\<open>cmd/coe-node/service_windows.go\<close>, its counterpart
  \<^verbatim>\<open>service_other.go\<close> for other systems, and the choice that \<open>main\<close> makes between the service and the
  plain program. The service manager is a list of what the loop of \<open>Execute\<close> selects, one after the
  other; between two of them the node, which runs in a goroutine of its own, takes any steps.
\<close>

section \<open>Definitions\<close>

text \<open>Package \<^verbatim>\<open>svc\<close>: the states, commands and status values that the code names.\<close>

datatype svc_state = StartPending | Running | StopPending | OtherState nat

datatype svc_accept = AcceptStop | AcceptShutdown

record svc_Status =
  State_y :: svc_state
  Accepts_y :: "svc_accept list"

datatype svc_cmd = Interrogate | Stop | Shutdown | OtherCmd nat

text \<open>What the \<open>select\<close> receives: that \<open>run\<close> returned, or a request with the status the manager last saw.\<close>

datatype svc_event = RunReturned | Requested svc_cmd svc_Status

text \<open>
  The loop: the status values it reports, and its result with the events it left unread, or
  \<open>None\<close> while it waits for the next event.
\<close>

fun execute_loop :: "svc_event list \<Rightarrow> svc_Status list \<times> ((bool \<times> nat) \<times> svc_event list) option" where
  "execute_loop [] = ([], None)"
| "execute_loop (RunReturned # es) = ([\<lparr>State_y = StopPending, Accepts_y = []\<rparr>], Some ((False, 0), es))"
| "execute_loop (Requested c st # es) = (case c of
     Interrogate \<Rightarrow> (case execute_loop es of (rs, r) \<Rightarrow> (st # rs, r))
   | Stop \<Rightarrow> ([\<lparr>State_y = StopPending, Accepts_y = []\<rparr>], Some ((False, 0), es))
   | Shutdown \<Rightarrow> ([\<lparr>State_y = StopPending, Accepts_y = []\<rparr>], Some ((False, 0), es))
   | OtherCmd _ \<Rightarrow> execute_loop es)"

definition Execute :: "svc_event list \<Rightarrow> svc_Status list \<times> ((bool \<times> nat) \<times> svc_event list) option" where
  "Execute es = (case execute_loop es of
     (rs, r) \<Rightarrow> (\<lparr>State_y = StartPending, Accepts_y = []\<rparr> # \<lparr>State_y = Running, Accepts_y = [AcceptStop, AcceptShutdown]\<rparr> # rs, r))"

text \<open>
  What \<open>runWindowsService\<close> does with \<open>run\<close>: calls it, or hands it to the service manager under a
  name. \<open>isSvc\<close> is the answer of \<open>svc.IsWindowsService\<close>.
\<close>

datatype service_call = RunsDirectly | RunsAsService string

definition runWindowsService :: "(nat + bool) \<Rightarrow> string \<Rightarrow> nat + service_call" where
  "runWindowsService isSvc name =
     (case isSvc of
        Inl e \<Rightarrow> Inl e
      | Inr False \<Rightarrow> Inr RunsDirectly
      | Inr True \<Rightarrow> Inr (RunsAsService (''COENode-'' @ (if name = '''' then ''COENode'' else name))))"

definition runService_other :: "string \<Rightarrow> nat + service_call" where
  "runService_other name = Inl 1"

text \<open>The end of \<open>main\<close>: \<open>runService\<close> is the function of the system the program was built for.\<close>

definition main_mode :: "(string \<Rightarrow> nat + service_call) \<Rightarrow> bool \<Rightarrow> NodeConfig \<Rightarrow> nat + service_call" where
  "main_mode runService service cfg = (if service then runService (DeviceID_n cfg) else Inr RunsDirectly)"

subsection \<open>main\<close>

record node_flags =
  fl_config :: path
  fl_device_id :: string
  fl_identity :: path
  fl_store :: path
  fl_ka :: string
  fl_ka_ca :: path
  fl_ka_insecure :: bool
  fl_listen :: string
  fl_api :: string
  fl_api_token :: string
  fl_peer :: string
  fl_admin_token :: string
  fl_voucher :: string
  fl_enroll :: bool
  fl_msg :: string
  fl_service :: bool
  fl_stun :: string

text \<open>The values of the flags that are not given.\<close>

definition default_flags :: node_flags where
  "default_flags = \<lparr>fl_config = '''', fl_device_id = '''', fl_identity = '''', fl_store = '''', fl_ka = flag_ka, fl_ka_ca = flag_ka_ca,
     fl_ka_insecure = False, fl_listen = '''', fl_api = '''', fl_api_token = '''', fl_peer = '''', fl_admin_token = '''', fl_voucher = '''',
     fl_enroll = False, fl_msg = ''hello from COE'', fl_service = False, fl_stun = ''''\<rparr>"

definition flag_config :: "NodeConfig json \<Rightarrow> (string \<Rightarrow> string) \<Rightarrow> disk \<Rightarrow> node_flags \<Rightarrow> node_error + NodeConfig" where
  "flag_config J vars d f =
     map_sum id (main_config vars (fl_ka_ca f) (fl_ka_insecure f) (fl_voucher f) (fl_stun f))
       (loadConfig J d (fl_config f) (fl_device_id f) (fl_identity f) (fl_store f) (fl_ka f) (fl_listen f) (fl_api f)
          (fl_api_token f) (fl_admin_token f))"

datatype main_error = MainFailed node_error | ServiceFailed nat

text \<open>The configuration is read before the service manager is asked.\<close>

definition node_main ::
    "NodeConfig json \<Rightarrow> (string \<Rightarrow> string) \<Rightarrow> (string \<Rightarrow> nat + service_call) \<Rightarrow> node_lib \<Rightarrow> crypto_lib \<Rightarrow> codec \<Rightarrow> 'w http \<Rightarrow> local_env \<Rightarrow>
     issue_times \<Rightarrow> bytes \<Rightarrow> node_flags \<Rightarrow> ('w node, main_error, service_call \<times> node_outcome) go" where
  "node_main CJ vars runService lib L J http env t nonce f = (\<lambda>n.
     case flag_config CJ vars (nd_fs n) f of
       Inl e \<Rightarrow> (Inl (MainFailed e), n)
     | Inr cfg \<Rightarrow>
       (case main_mode runService (fl_service f) cfg of
          Inl e \<Rightarrow> (Inl (ServiceFailed e), n)
        | Inr mode \<Rightarrow>
          (case runAgent lib L J http env t nonce cfg (fl_enroll f) (fl_peer f) (fl_msg f) n of
             (Inl e, n') \<Rightarrow> (Inl (MainFailed e), n')
           | (Inr out, n') \<Rightarrow> (Inr (mode, out), n'))))"

section \<open>Lemmas\<close>

text \<open>The events that end the loop.\<close>

fun ends_service :: "svc_event \<Rightarrow> bool" where
  "ends_service RunReturned = True"
| "ends_service (Requested c st) \<longleftrightarrow> c = Stop \<or> c = Shutdown"

fun interrogation :: "svc_event \<Rightarrow> svc_Status option" where
  "interrogation (Requested Interrogate st) = Some st"
| "interrogation _ = None"

text \<open>
  The node when the process of the service ends: \<open>run\<close> has shut it down when \<open>run\<close> returned first;
  otherwise the goroutine is cut off where it is.
\<close>

definition service_exit :: "codec \<Rightarrow> svc_event list \<Rightarrow> 'w running \<Rightarrow> 'w running" where
  "service_exit J es s = (case dropWhile (\<lambda>e. \<not> ends_service e) es of RunReturned # _ \<Rightarrow> shutdown J s | _ \<Rightarrow> s)"

lemma execute_loop_exact:
  "execute_loop es = (List.map_filter interrogation (takeWhile (\<lambda>e. \<not> ends_service e) es) @
       (if \<exists>e \<in> set es. ends_service e then [\<lparr>State_y = StopPending, Accepts_y = []\<rparr>] else []),
     if \<exists>e \<in> set es. ends_service e then Some ((False, 0), tl (dropWhile (\<lambda>e. \<not> ends_service e) es)) else None)"
proof (induction es rule: execute_loop.induct)
  case (3 c st es)
  then show ?case by (cases c) (simp_all add: List.map_filter_simps)
qed (simp_all add: List.map_filter_simps)

section \<open>Properties\<close>

text \<open>
  The service reports to the service manager what it does: it starts with start pending and then running,
  accepting stop and shutdown; it answers every interrogation with the status the manager last
  saw, in order, until the node returns or stop or shutdown is requested; then it reports stop
  pending and returns with exit code 0, and before that it does not return.
\<close>

theorem service_reports:
  "Execute es =
    ([\<lparr>State_y = StartPending, Accepts_y = []\<rparr>, \<lparr>State_y = Running, Accepts_y = [AcceptStop, AcceptShutdown]\<rparr>] @
       List.map_filter interrogation (takeWhile (\<lambda>e. \<not> ends_service e) es) @
       (if list_ex ends_service es then [\<lparr>State_y = StopPending, Accepts_y = []\<rparr>] else []),
     if list_ex ends_service es then Some ((False, 0), tl (dropWhile (\<lambda>e. \<not> ends_service e) es)) else None)"
  by (simp add: Execute_def execute_loop_exact list_ex_iff)

text \<open>
  A stop request ends the service without ending the node: \<open>Execute\<close> returns although \<open>run\<close> has not
  returned, so the process ends with the node's sessions still registered and open.
\<close>

lemma stop_skips_shutdown:
  assumes "\<not> list_ex ends_service es" "c = Stop \<or> c = Shutdown"
  shows "snd (Execute (es @ Requested c st # rest)) = Some ((False, 0), rest) \<and> service_exit J (es @ Requested c st # rest) s = s"
proof -
  have "\<not> ends_service e" if "e \<in> set es" for e using assms(1) that by (auto simp: list_ex_iff)
  then have "dropWhile (\<lambda>e. \<not> ends_service e) (es @ Requested c st # rest) = Requested c st # rest"
    "\<exists>e \<in> set (es @ Requested c st # rest). ends_service e"
    using assms(2) by (auto simp: dropWhile_append)
  then show ?thesis by (simp add: Execute_def execute_loop_exact service_exit_def split_beta)
qed

text \<open>The service mode of another system never touches the device: its error comes before anything else.\<close>

lemma service_unsupported:
  assumes "flag_config CJ vars (nd_fs n) f = Inr cfg" "fl_service f"
  shows "node_main CJ vars runService_other lib L J http env t nonce f n = (Inl (ServiceFailed 1), n)"
  using assms by (simp add: node_main_def main_mode_def runService_other_def)

text \<open>
  A node with nothing to do has already drawn a key: without an address to listen on, an interface
  or a peer, the program fails only after the key was issued and stored.
\<close>

lemma nothing_to_serve_late:
  assumes "flag_config CJ vars (nd_fs n) f = Inr cfg0" "\<not> fl_service f" "\<not> fl_enroll f" "fl_peer f = ''''"
    and "node_login lib cfg0 n = (Inr (i, cfg, c), n1)" "ListenAddr_n cfg = ''''" "APIAddr_n cfg = ''''"
    and "node_start lib http t nonce i cfg c n1 = (Inr (iss, hub), n2)"
  shows "node_main CJ vars rs lib L J http env t nonce f n = (Inl (MainFailed NothingToServe), n2)"
  using assms by (simp add: node_main_def main_mode_def runAgent_def gbind_def gerr_def)

lemma service_name:
  "runWindowsService (Inr True) name = Inr (RunsAsService n) \<Longrightarrow> n \<noteq> '''' \<and> (name \<noteq> '''' \<longrightarrow> n = ''COENode-'' @ name)"
  by (auto simp: runWindowsService_def)

end
