(* ===== verification/Protection.thy ===== *)
theory Protection
  imports KeyStore
begin

text \<open>
  Keys at rest on both builds of the device: \<^verbatim>\<open>internal/device/protect_other.go\<close>, whose functions are in
  theory \<open>KeyStore\<close>, and \<^verbatim>\<open>internal/device/protect_windows.go\<close>, which calls the data protection
  interface of Windows. The operations of the key store are written once more with the protection
  as an argument, with the error path of \<open>Unprotect\<close> that only Windows has, and proved to be the
  operations of \<open>KeyStore\<close> on the other build.
\<close>

section \<open>Definitions\<close>

datatype protect_error = EmptyProtectInput | ProtectCallFailed

subsection \<open>protect_windows.go\<close>

text \<open>
  \<open>CryptProtectData\<close> and \<open>CryptUnprotectData\<close> are arguments. They read as many bytes as the 32-bit
  field \<open>Size\<close> of the blob says.
\<close>

record dpapi =
  CryptProtectData :: "bytes \<Rightarrow> bytes option"
  CryptUnprotectData :: "bytes \<Rightarrow> bytes option"

definition data_blob :: "bytes \<Rightarrow> bytes" where
  "data_blob b = take (unat (word_of_nat (length b) :: 32 word)) b"

definition win_Protect :: "dpapi \<Rightarrow> bytes \<Rightarrow> protect_error + bytes" where
  "win_Protect W plaintext =
     (if length plaintext = 0 then Inl EmptyProtectInput
      else case CryptProtectData W (data_blob plaintext) of None \<Rightarrow> Inl ProtectCallFailed | Some out \<Rightarrow> Inr out)"

definition win_Unprotect :: "dpapi \<Rightarrow> bytes \<Rightarrow> protect_error + bytes" where
  "win_Unprotect W blob =
     (if length blob = 0 then Inl EmptyProtectInput
      else case CryptUnprotectData W (data_blob blob) of None \<Rightarrow> Inl ProtectCallFailed | Some out \<Rightarrow> Inr out)"

definition win_ProtectAvailable :: bool where
  "win_ProtectAvailable = True"

subsection \<open>protect_other.go\<close>

definition raw_Protect :: "bytes \<Rightarrow> protect_error + bytes" where
  "raw_Protect plaintext = (case Protect plaintext of Inl _ \<Rightarrow> Inl EmptyProtectInput | Inr b \<Rightarrow> Inr b)"

definition raw_Unprotect :: "bytes \<Rightarrow> protect_error + bytes" where
  "raw_Unprotect blob = Inr (Unprotect blob)"

definition raw_ProtectAvailable :: bool where
  "raw_ProtectAvailable = False"

subsection \<open>store.go over either build\<close>

datatype pstore_error = ProtectionFailed protect_error | StoreError store_error

definition put_general ::
    "(bytes \<Rightarrow> protect_error + bytes) \<Rightarrow> store_record json \<Rightarrow> u64 \<Rightarrow> bytes \<Rightarrow> Meta \<Rightarrow> (disk, pstore_error, unit) go" where
  "put_general protect J epoch key meta = (\<lambda>d.
     case protect key of
       Inl e \<Rightarrow> (Inl (ProtectionFailed e), d)
     | Inr enc \<Rightarrow>
       (case os_WriteFile (store_path epoch) (Marshal J \<lparr>EncKey = enc, Key_r = [], Meta_r = meta\<lparr>EpochID_m := epoch\<rparr>\<rparr>) d of
          (ok, d') \<Rightarrow> (if ok then Inr () else Inl (StoreError FileWrite), d')))"

definition get_general ::
    "(bytes \<Rightarrow> protect_error + bytes) \<Rightarrow> store_record json \<Rightarrow> u64 \<Rightarrow> disk \<Rightarrow> pstore_error + bytes \<times> Meta" where
  "get_general unprotect J epoch d =
     (case os_ReadFile (store_path epoch) d of
        None \<Rightarrow> Inl (StoreError FileMissing)
      | Some b \<Rightarrow>
        (case Unmarshal J b of
           None \<Rightarrow> Inl (StoreError BadJSON)
         | Some rec \<Rightarrow>
           if length (EncKey rec) > 0 then
             (case unprotect (EncKey rec) of Inl e \<Rightarrow> Inl (ProtectionFailed e) | Inr k \<Rightarrow> Inr (k, Meta_r rec))
           else if length (Key_r rec) > 0 then Inr (Key_r rec, Meta_r rec)
           else Inl (StoreError EmptyKeyRecord)))"

section \<open>The contract of the protection\<close>

text \<open>
  What the store relies on: an empty key is refused, a blob is never empty, and a blob reads back as
  the key it was made of, for keys the protection accepts.
\<close>

locale protection =
  fixes protect unprotect :: "bytes \<Rightarrow> protect_error + bytes" and accepts :: "bytes \<Rightarrow> bool"
  assumes empty: "protect [] = Inl EmptyProtectInput"
    and blob: "protect k = Inr b \<Longrightarrow> b \<noteq> []"
    and reads_back: "accepts k \<Longrightarrow> protect k = Inr b \<Longrightarrow> unprotect b = Inr k"
begin

lemma put_get:
  assumes "json_ok V J" "\<And>b. protect key = Inr b \<Longrightarrow> V \<lparr>EncKey = b, Key_r = [], Meta_r = meta\<lparr>EpochID_m := e\<rparr>\<rparr>"
    and "accepts key" "put_general protect J e key meta d = (Inr (), d')"
  shows "get_general unprotect J e d' = Inr (key, meta\<lparr>EpochID_m := e\<rparr>) \<and>
    (\<forall>f. f \<noteq> e \<longrightarrow> get_general unprotect J f d' = get_general unprotect J f d)"
proof -
  obtain b where b: "protect key = Inr b" using assms(4) by (auto simp: put_general_def split: sum.splits)
  let ?rec = "\<lparr>EncKey = b, Key_r = [], Meta_r = meta\<lparr>EpochID_m := e\<rparr>\<rparr>"
  have w: "os_WriteFile (store_path e) (Marshal J ?rec) d = (True, d')"
    using assms(4) b by (auto simp: put_general_def split: prod.splits if_splits)
  have "Unmarshal J (Marshal J ?rec) = Some ?rec" using assms(1) assms(2) [OF b] by (simp add: json_ok_def)
  then have "get_general unprotect J e d' = Inr (key, meta\<lparr>EpochID_m := e\<rparr>)"
    using read_write_same [OF w] blob [OF b] reads_back [OF assms(3) b] by (simp add: get_general_def)
  moreover have "os_ReadFile (store_path f) d' = os_ReadFile (store_path f) d" if "f \<noteq> e" for f
    using read_write_other [of "store_path e" "Marshal J ?rec" d True d' "store_path f"] w that by simp
  ultimately show ?thesis by (simp add: get_general_def)
qed

lemma put_empty: "put_general protect J e [] meta d = (Inl (ProtectionFailed EmptyProtectInput), d)"
  by (simp add: put_general_def empty)

end

section \<open>The two builds\<close>

interpretation raw: protection raw_Protect raw_Unprotect "\<lambda>_. True"
proof
  show "raw_Protect [] = Inl EmptyProtectInput" by (simp add: raw_Protect_def Protect_def)
  show "b \<noteq> []" if "raw_Protect k = Inr b" for k b
    using that Unprotect_Protect by (auto simp: raw_Protect_def split: sum.splits)
  show "raw_Unprotect b = Inr k" if "raw_Protect k = Inr b" for k b
    using that Unprotect_Protect by (auto simp: raw_Protect_def raw_Unprotect_def split: sum.splits)
qed

text \<open>
  The documented behaviour of the data protection interface for one user: a blob is not empty, its
  size fits its field, and it decrypts to what was encrypted.
\<close>

definition dpapi_ok :: "dpapi \<Rightarrow> bool" where
  "dpapi_ok W \<longleftrightarrow> (\<forall>k b. CryptProtectData W k = Some b \<longrightarrow> b \<noteq> [] \<and> length b < 2 ^ 32 \<and> CryptUnprotectData W b = Some k)"

lemma data_blob_id: "length b < 2 ^ 32 \<Longrightarrow> data_blob b = b"
  by (simp add: data_blob_def unat_of_nat)

lemma protection_windows:
  assumes "dpapi_ok W"
  shows "protection (win_Protect W) (win_Unprotect W) (\<lambda>k. length k < 2 ^ 32)"
  using assms
  by unfold_locales (auto simp: win_Protect_def win_Unprotect_def dpapi_ok_def data_blob_id split: if_splits option.splits)

text \<open>On the other build the two operations are those of the key store.\<close>

definition store_err :: "store_error \<Rightarrow> pstore_error" where
  "store_err e = (if e = EmptyPlaintext then ProtectionFailed EmptyProtectInput else StoreError e)"

lemma put_general_raw:
  "put_general raw_Protect J e k m d = (case PutGeneral J e k m d of (r, d') \<Rightarrow> (map_sum store_err id r, d'))"
  by (simp add: put_general_def PutGeneral_def raw_Protect_def Protect_def store_err_def Let_def split: prod.split)

lemma get_general_raw: "get_general raw_Unprotect J e d = map_sum StoreError id (GetGeneral J e d)"
  by (simp add: get_general_def GetGeneral_def raw_Unprotect_def split: option.split)

text \<open>A blob of another system is taken for a key by the build without protection.\<close>

lemma foreign_blob_is_key:
  assumes "os_ReadFile (store_path e) d = Some b" "Unmarshal J b = Some rec" "EncKey rec \<noteq> []" "string_of (take 4 (EncKey rec)) \<noteq> ''RAW1''"
  shows "GetGeneral J e d = Inr (EncKey rec, Meta_r rec)"
  using assms by (simp add: GetGeneral_def Unprotect_def)

section \<open>Properties\<close>


definition key_meta_sample :: Meta where
  "key_meta_sample = \<lparr>EpochID_m = 0, KeySerial_m = 4, NotBefore_m = 1, NotAfter_m = 2, GraceSec_m = 300,
     Profile_m = ''strong'', DeviceID_m = ''dev''\<rparr>"

definition sample_dpapi :: dpapi where
  "sample_dpapi = \<lparr>CryptProtectData = \<lambda>k. if length k < 1000 then Some (map (\<lambda>x. x XOR 85) k @ [1]) else None,
     CryptUnprotectData = \<lambda>b. Some (map (\<lambda>x. x XOR 85) (butlast b))\<rparr>"

lemma sample_dpapi_ok: "dpapi_ok sample_dpapi"
proof -
  have "map (\<lambda>x. x XOR 85) (map (\<lambda>x. x XOR 85) k) = k" for k :: bytes
    by (simp add: comp_def xor.assoc)
  then show ?thesis by (auto simp: dpapi_ok_def sample_dpapi_def split: if_splits)
qed


end
