(* ===== verification/LocalHTTP.thy ===== *)
theory LocalHTTP
  imports Programs UpdateClient
begin

text \<open>
  The local control interface on the wire: the routes that \<open>Handler\<close> of
  \<^verbatim>\<open>internal/agent/localapi.go\<close> mounts with the decoding of their bodies and queries, \<open>ListenAndServe\<close>,
  and the requests that \<open>get\<close> and \<open>post\<close> of \<^verbatim>\<open>cmd/coe-cli/main.go\<close> build for the commands. JSON objects are
  lists of fields with strings or integers, named as the tags of the structs; their encoding is an
  argument.
\<close>

section \<open>Definitions\<close>

datatype jvalue = JString string | JInt int

type_synonym jobject = "(string \<times> jvalue) list"

record wire =
  w_Method :: string
  w_Target :: string
  w_ContentType :: string
  w_Authorization :: string
  w_Body :: bytes

subsection \<open>coe-cli\<close>

record cli_client =
  cli_base :: string
  cli_token :: string

definition cli_get :: "cli_client \<Rightarrow> string \<Rightarrow> wire" where
  "cli_get c path = \<lparr>w_Method = ''GET'', w_Target = path, w_ContentType = '''',
     w_Authorization = (if cli_token c \<noteq> '''' then ''Bearer '' @ cli_token c else ''''), w_Body = []\<rparr>"

definition cli_post :: "jobject json \<Rightarrow> cli_client \<Rightarrow> string \<Rightarrow> jobject \<Rightarrow> wire" where
  "cli_post J c path body = \<lparr>w_Method = ''POST'', w_Target = path, w_ContentType = ''application/json'',
     w_Authorization = (if cli_token c \<noteq> '''' then ''Bearer '' @ cli_token c else ''''), w_Body = Marshal J body\<rparr>"

text \<open>The path of the inbox command.\<close>

definition inbox_path :: "string \<Rightarrow> string \<Rightarrow> string" where
  "inbox_path wait clear = ''/v1/inbox'' @ (if wait \<noteq> '''' then ''?wait='' @ wait else if clear = ''0'' then ''?clear=0'' else '''')"

text \<open>
  The request of each command. \<open>connect\<close> leaves the field \<open>addr\<close> out when it has no address. A call
  without a decoded body is not one of the program.
\<close>

definition cli_request :: "jobject json \<Rightarrow> cli_client \<Rightarrow> local_call \<Rightarrow> wire" where
  "cli_request J c call = (case call of
     LHealth \<Rightarrow> cli_get c ''/v1/health''
   | LStatus \<Rightarrow> cli_get c ''/v1/status''
   | LPeersGet \<Rightarrow> cli_get c ''/v1/peers''
   | LPeersPost (Some (d, a)) \<Rightarrow> cli_post J c ''/v1/peers'' [(''device_id'', JString d), (''addr'', JString a)]
   | LConnect (Some (d, a)) \<Rightarrow> cli_post J c ''/v1/sessions''
       ((''device_id'', JString d) # (if a \<noteq> '''' then [(''addr'', JString a)] else []))
   | LConnectWebRTC (Some (d, u, r, w)) \<Rightarrow> cli_post J c ''/v1/sessions/webrtc''
       [(''role'', JString r), (''device_id'', JString d), (''signal_url'', JString u), (''wait_sec'', JInt w)]
   | LSessions \<Rightarrow> cli_get c ''/v1/sessions''
   | LSend (Some (t, x)) \<Rightarrow> cli_post J c ''/v1/send'' [(''to'', JString t), (''text'', JString x)]
   | LInbox w cl \<Rightarrow> cli_get c (inbox_path w cl)
   | _ \<Rightarrow> cli_post J c '''' [])"

subsection \<open>localapi.go\<close>

text \<open>
  A field of a body: its zero value when it is missing, an error when it has another type. A
  duplicate field counts at its last place.
\<close>

definition string_field :: "string \<Rightarrow> jobject \<Rightarrow> string option" where
  "string_field k ob = (if list_all (\<lambda>(k', v). k' = k \<longrightarrow> (case v of JString _ \<Rightarrow> True | JInt _ \<Rightarrow> False)) ob
     then Some (case map_of (rev ob) k of Some (JString s) \<Rightarrow> s | _ \<Rightarrow> '''') else None)"

definition int_field :: "string \<Rightarrow> jobject \<Rightarrow> int option" where
  "int_field k ob = (if list_all (\<lambda>(k', v). k' = k \<longrightarrow> (case v of JString _ \<Rightarrow> False | JInt n \<Rightarrow> is_i64 n)) ob
     then Some (case map_of (rev ob) k of Some (JInt n) \<Rightarrow> n | _ \<Rightarrow> 0) else None)"

definition two_fields :: "jobject json \<Rightarrow> string \<Rightarrow> string \<Rightarrow> bytes \<Rightarrow> (string \<times> string) option" where
  "two_fields J k1 k2 b = (case Unmarshal J b of
     None \<Rightarrow> None
   | Some ob \<Rightarrow> (case (string_field k1 ob, string_field k2 ob) of (Some x, Some y) \<Rightarrow> Some (x, y) | _ \<Rightarrow> None))"

definition webrtc_fields :: "jobject json \<Rightarrow> bytes \<Rightarrow> (string \<times> string \<times> string \<times> int) option" where
  "webrtc_fields J b = (case Unmarshal J b of
     None \<Rightarrow> None
   | Some ob \<Rightarrow> (case (string_field ''device_id'' ob, string_field ''signal_url'' ob, string_field ''role'' ob, int_field ''wait_sec'' ob) of
       (Some d, Some u, Some r, Some w) \<Rightarrow> Some (d, u, r, w) | _ \<Rightarrow> None))"

text \<open>
  The router; a route for \<open>GET\<close> also takes \<open>HEAD\<close>. \<open>None\<close> is the router's own answer: 405 for a path that is
  mounted for another method, 404 otherwise.
\<close>

definition mounted_paths :: "string list" where
  "mounted_paths = [''/v1/health'', ''/v1/status'', ''/v1/peers'', ''/v1/sessions'', ''/v1/sessions/webrtc'', ''/v1/send'', ''/v1/inbox'']"

definition local_Handler :: "jobject json \<Rightarrow> wire \<Rightarrow> local_call option" where
  "local_Handler J r =
     (let (path, q) = strings_Cut (CHR ''?'') (w_Target r); m = w_Method r; b = w_Body r in
      if m = ''GET'' \<or> m = ''HEAD'' then
        (if path = ''/v1/health'' then Some LHealth
         else if path = ''/v1/status'' then Some LStatus
         else if path = ''/v1/peers'' then Some LPeersGet
         else if path = ''/v1/sessions'' then Some LSessions
         else if path = ''/v1/inbox'' then Some (LInbox (query_Get q ''wait'') (query_Get q ''clear''))
         else None)
      else if m = ''POST'' then
        (if path = ''/v1/peers'' then Some (LPeersPost (two_fields J ''device_id'' ''addr'' b))
         else if path = ''/v1/sessions'' then Some (LConnect (two_fields J ''device_id'' ''addr'' b))
         else if path = ''/v1/sessions/webrtc'' then Some (LConnectWebRTC (webrtc_fields J b))
         else if path = ''/v1/send'' then Some (LSend (two_fields J ''to'' ''text'' b))
         else None)
      else None)"

text \<open>The interface behind a listener: \<open>listens\<close> is whether \<open>net.Listen\<close> succeeded on the address.\<close>

definition local_ListenAndServe ::
    "crypto_lib \<Rightarrow> codec \<Rightarrow> jobject json \<Rightarrow> LocalAPI \<Rightarrow> (string \<Rightarrow> bool) \<Rightarrow> string \<Rightarrow> local_env \<Rightarrow> wire \<Rightarrow> AgentHub
     \<Rightarrow> (nat \<times> local_body option) option \<times> AgentHub" where
  "local_ListenAndServe L C J a listens addr w r h =
     (if \<not> listens addr then (None, h)
      else case local_Handler J r of
        None \<Rightarrow> (Some (if fst (strings_Cut (CHR ''?'') (w_Target r)) \<in> set mounted_paths then 405 else 404, None), h)
      | Some c \<Rightarrow> (case local_serve L C w a (w_Authorization r) c h of ((code, b), h') \<Rightarrow> (Some (code, Some b), h')))"

section \<open>Lemmas\<close>

text \<open>What the wire carries unchanged: ASCII strings in bodies, and a wait without characters that mean something in a query.\<close>

definition plain_query :: "string \<Rightarrow> bool" where
  "plain_query s \<longleftrightarrow> list_all (\<lambda>c. c \<notin> {CHR ''%'', CHR ''&'', CHR '';'', CHR ''#'', CHR ''+'', CHR '' ''} \<and> \<not> control_char c) s"

definition jobject_ascii :: "jobject \<Rightarrow> bool" where
  "jobject_ascii ob \<longleftrightarrow> list_all (\<lambda>(k, v). case v of JString s \<Rightarrow> ascii s | JInt n \<Rightarrow> is_i64 n) ob"

definition call_plain :: "local_call \<Rightarrow> bool" where
  "call_plain c = (case c of
     LPeersPost (Some (d, a)) \<Rightarrow> ascii d \<and> ascii a
   | LConnect (Some (d, a)) \<Rightarrow> ascii d \<and> ascii a
   | LConnectWebRTC (Some (d, u, r, w)) \<Rightarrow> ascii d \<and> ascii u \<and> ascii r
   | LSend (Some (t, x)) \<Rightarrow> ascii t \<and> ascii x
   | LInbox w cl \<Rightarrow> plain_query w
   | _ \<Rightarrow> True)"

text \<open>The calls of the program.\<close>

definition cli_call :: "local_call \<Rightarrow> bool" where
  "cli_call c = (case c of
     LPeersPost b \<Rightarrow> b \<noteq> None | LConnect b \<Rightarrow> b \<noteq> None | LSend b \<Rightarrow> b \<noteq> None
   | LConnectWebRTC b \<Rightarrow> (case b of Some (d, u, r, w) \<Rightarrow> w = 60 | None \<Rightarrow> False)
   | LInbox w cl \<Rightarrow> cl = '''' \<or> w = '''' \<and> cl = ''0''
   | _ \<Rightarrow> True)"

fun all_calls :: "cli_result \<Rightarrow> bool" where
  "all_calls (CliCalls cs) = list_all cli_call cs"
| "all_calls _ = True"

lemma cli_call_simps [simp]:
  "cli_call LHealth" "cli_call LStatus" "cli_call LPeersGet" "cli_call LSessions" "cli_call (LPeersPost (Some x))"
  "cli_call (LConnect (Some x))" "cli_call (LSend (Some x))" "cli_call (LConnectWebRTC (Some (d, u, r, 60)))"
  "cli_call (LInbox w [])"
  by (simp_all add: cli_call_def)

lemma cli_call_inbox: "cli_call (cli_inbox as)"
  by (simp add: cli_inbox_def cli_call_def Let_def del: not_None_eq)

lemma cli_parse_calls:
  assumes "cli_parse args = CliCalls cs" "c \<in> set cs"
  shows "cli_call c"
proof -
  have "all_calls (cli_parse args)"
    by (cases args) (simp_all only: cli_parse_def list.case if_distrib [where f = all_calls] all_calls.simps list.pred_inject cli_call_simps
        cli_call_inbox simp_thms if_True if_cancel)
  then show ?thesis using assms by (simp add: list_all_iff)
qed

lemma QueryUnescape_plain: "plain_query s \<Longrightarrow> QueryUnescape s = Some s"
  by (induction s) (auto simp: plain_query_def)

lemma query_Get_plain:
  assumes "plain_query v" "k \<noteq> ''''" "plain_query k" "CHR ''='' \<notin> set k"
  shows "query_Get (k @ ''='' @ v) k' = (if k' = k then v else '''')"
proof -
  let ?p = "k @ ''='' @ v"
  have n: "CHR ''&'' \<notin> set ?p" "CHR '';'' \<notin> set ?p"
    using assms(1,3) by (auto simp: plain_query_def list_all_iff)
  have "strings_Cut (CHR ''='') ?p = (k, v)"
    using assms(4) by (induction k) (auto simp: strings_Cut_def)
  then have "query_part ?p = Some (k, v)"
    using n(2) assms(2) QueryUnescape_plain [OF assms(1)] QueryUnescape_plain [OF assms(3)] unfolding query_part_def by simp
  then show ?thesis using strings_Split_none [OF n(1)] by (simp add: query_Get_def List.map_filter_def)
qed

lemma query_Get_empty [simp]: "query_Get '''' k = ''''"
  by (simp add: query_Get_def query_part_def List.map_filter_def)

lemma inbox_path_cut:
  "strings_Cut (CHR ''?'') (inbox_path w cl) = (''/v1/inbox'', if w \<noteq> '''' then ''wait='' @ w else if cl = ''0'' then ''clear=0'' else '''')"
  by (simp add: inbox_path_def strings_Cut_def)

lemma inbox_routed:
  assumes "plain_query w" "cl = '''' \<or> w = '''' \<and> cl = ''0''"
  shows "local_Handler J (cli_get c (inbox_path w cl)) = Some (LInbox w cl)"
proof -
  have p: "plain_query ''wait''" "plain_query ''clear''" "plain_query ''0''" by code_simp+
  have "query_Get (''wait='' @ w) k = (if k = ''wait'' then w else '''')" "query_Get ''clear=0'' k = (if k = ''clear'' then ''0'' else '''')" for k
    using query_Get_plain [OF assms(1) _ p(1), of k] query_Get_plain [OF p(3) _ p(2), of k] by simp_all
  then show ?thesis using assms(2) by (auto simp: local_Handler_def cli_get_def inbox_path_cut)
qed

lemma get_routed:
  "local_Handler J (cli_get c ''/v1/health'') = Some LHealth" "local_Handler J (cli_get c ''/v1/status'') = Some LStatus"
  "local_Handler J (cli_get c ''/v1/peers'') = Some LPeersGet" "local_Handler J (cli_get c ''/v1/sessions'') = Some LSessions"
  by (simp_all add: local_Handler_def cli_get_def strings_Cut_def)

lemma post_routed:
  "local_Handler J (cli_post J c ''/v1/peers'' ob) = Some (LPeersPost (two_fields J ''device_id'' ''addr'' (Marshal J ob)))"
  "local_Handler J (cli_post J c ''/v1/sessions'' ob) = Some (LConnect (two_fields J ''device_id'' ''addr'' (Marshal J ob)))"
  "local_Handler J (cli_post J c ''/v1/sessions/webrtc'' ob) = Some (LConnectWebRTC (webrtc_fields J (Marshal J ob)))"
  "local_Handler J (cli_post J c ''/v1/send'' ob) = Some (LSend (two_fields J ''to'' ''text'' (Marshal J ob)))"
  by (simp_all add: local_Handler_def cli_post_def strings_Cut_def)

section \<open>Properties\<close>

text \<open>
  C31: Every command of the command line program reaches the route it means: the request built for it is
  routed by the local interface to the same call with the same values, for ASCII arguments and a
  waiting time without characters that a query reads in its own way.
\<close>

theorem cli_requests_routed:
  assumes "json_ok jobject_ascii J" "cli_parse args = CliCalls cs" "call \<in> set cs" "call_plain call"
  shows "local_Handler J (cli_request J c call) = Some call"
proof -
  have ob: "Unmarshal J (Marshal J ob) = Some ob" if "jobject_ascii ob" for ob
    using assms(1) that by (simp add: json_ok_def)
  note ok = cli_parse_calls [OF assms(2,3)] assms(4)
  show ?thesis
  proof (cases call)
    case (LPeersPost b)
    then obtain d a where "call = LPeersPost (Some (d, a))" "ascii d" "ascii a" using ok by (auto simp: cli_call_def call_plain_def)
    then show ?thesis by (simp add: cli_request_def post_routed two_fields_def ob jobject_ascii_def string_field_def)
  next
    case (LConnect b)
    then obtain d a where "call = LConnect (Some (d, a))" "ascii d" "ascii a" using ok by (auto simp: cli_call_def call_plain_def)
    then show ?thesis by (simp add: cli_request_def post_routed two_fields_def ob jobject_ascii_def string_field_def)
  next
    case (LConnectWebRTC b)
    then obtain d u r where "call = LConnectWebRTC (Some (d, u, r, 60))" "ascii d" "ascii u" "ascii r"
      using ok by (auto simp: cli_call_def call_plain_def split: option.splits)
    then show ?thesis
      by (simp add: cli_request_def post_routed webrtc_fields_def ob jobject_ascii_def string_field_def int_field_def is_i64_def)
  next
    case (LSend b)
    then obtain t x where "call = LSend (Some (t, x))" "ascii t" "ascii x" using ok by (auto simp: cli_call_def call_plain_def)
    then show ?thesis by (simp add: cli_request_def post_routed two_fields_def ob jobject_ascii_def string_field_def)
  next
    case (LInbox w cl)
    then show ?thesis using ok inbox_routed [of w cl J c] by (simp add: cli_request_def cli_call_def call_plain_def)
  qed (simp_all add: cli_request_def get_routed)
qed

text \<open>A concrete encoding: three fields for every member of an object.\<close>

fun put_members :: "jobject \<Rightarrow> bytes list" where
  "put_members [] = []"
| "put_members ((k, JString s) # ob) = bytes_of k # [] # bytes_of s # put_members ob"
| "put_members ((k, JInt n) # ob) = bytes_of k # [1] # inum n # put_members ob"

fun get_members :: "bytes list \<Rightarrow> jobject" where
  "get_members (k # t # v # fs) = (string_of k, if t = [] then JString (string_of v) else JInt (un_inum v)) # get_members fs"
| "get_members _ = []"

definition object_json :: "jobject json" where
  "object_json = \<lparr>Marshal = (\<lambda>ob. put_fields (put_members ob)), Unmarshal = (\<lambda>b. Some (get_members (get_fields b)))\<rparr>"

lemma object_json_ok: "json_ok jobject_ascii object_json"
proof -
  have "get_members (put_members ob) = ob" if "jobject_ascii ob" for ob
    using that by (induction ob rule: put_members.induct) (simp_all add: jobject_ascii_def)
  then show ?thesis by (simp add: json_ok_def object_json_def)
qed

theorem cli_requests_routed_witness:
  "local_Handler object_json (cli_request object_json \<lparr>cli_base = ''http://127.0.0.1:7701'', cli_token = ''t''\<rparr> (LSend (Some (''bob'', ''hello world'')))) =
    Some (LSend (Some (''bob'', ''hello world'')))"
proof -
  have p: "cli_parse [''send'', ''bob'', ''hello'', ''world''] = CliCalls [LSend (Some (''bob'', ''hello world''))]" by code_simp
  have "call_plain (LSend (Some (''bob'', ''hello world'')))" by (simp add: call_plain_def ascii_def)
  then show ?thesis using cli_requests_routed [OF object_json_ok p] by simp
qed

text \<open>
  The listener does not look at its address: the interface is served on every address that can be
  bound, although a comment announces that addresses other than the loopback are refused.
\<close>

lemma serves_any_address:
  assumes "listens ''0.0.0.0:7701''" "local_Handler J r = Some c" "Token_o a = ''''"
  shows "fst (local_ListenAndServe L C J a listens ''0.0.0.0:7701'' w r h) =
    Some (apsnd Some (fst (local_route L C w a c h)))"
  using assms by (simp add: local_ListenAndServe_def local_serve_def auth_def split_beta prod_eq_iff split: prod.split)

end
