(* ===== verification/KARoutes.thy ===== *)
theory KARoutes
  imports UpdateClient
begin

text \<open>
  The interface of the key authority on the wire: the routes that \<open>Handler\<close> of
  \<^verbatim>\<open>internal/kaapi/server.go\<close> mounts, with the decoding of bodies and queries, the page of
  \<^verbatim>\<open>internal/kaapi/admin_ui.go\<close>, and the method, path and body with which each operation of
  \<^verbatim>\<open>internal/kaapi/client.go\<close> calls \<open>doJSON\<close>. The page itself and the encodings are arguments.
\<close>

section \<open>Definitions\<close>

record ka_json =
  kj_enroll :: "EnrollRequest json"
  kj_issue :: "IssueRequest json"
  kj_revoke :: "RevokeRequest json"
  kj_voucher :: "CreateVoucherRequest json"
  kj_id :: "string json"

record ka_wire =
  kw_Method :: string
  kw_Target :: string
  kw_Authorization :: string
  kw_XDeviceID :: string
  kw_XForwardedFor :: string
  kw_RemoteAddr :: string
  kw_TLS :: bool
  kw_Body :: bytes

subsection \<open>server.go\<close>

text \<open>Where a request goes; \<open>rnd\<close> are the random bytes that creating a voucher will draw.\<close>

datatype ka_target = ToCall call | ToAdminPage | ToUpdate string string string

definition ka_Handler :: "ka_json \<Rightarrow> bytes \<Rightarrow> ka_wire \<Rightarrow> ka_target option" where
  "ka_Handler J rnd r =
     (let (path, q0) = strings_Cut (CHR ''?'') (kw_Target r); q = takeWhile (\<lambda>c. c \<noteq> CHR ''#'') q0; m = kw_Method r; b = kw_Body r in
      if m = ''GET'' \<or> m = ''HEAD'' then
        (if path = ''/v1/health'' then Some (ToCall CHealth)
         else if path = ''/v1/key/status'' then Some (ToCall CStatus)
         else if path = ''/v1/vouchers'' then Some (ToCall CListVouchers)
         else if path = ''/v1/devices'' then Some (ToCall CListDevices)
         else if path = ''/admin'' \<or> take 7 path = ''/admin/'' then Some ToAdminPage
         else if path = ''/v1/update/check'' then Some (ToUpdate (query_Get q ''current'') (query_Get q ''os'') (query_Get q ''arch''))
         else None)
      else if m = ''POST'' then
        (if path = ''/v1/enroll'' then Some (ToCall (CEnroll (Unmarshal (kj_enroll J) b)))
         else if path = ''/v1/key/issue'' then Some (ToCall (CIssue (Unmarshal (kj_issue J) b)))
         else if path = ''/v1/revoke'' then Some (ToCall (CRevoke (Unmarshal (kj_revoke J) b)))
         else if path = ''/v1/vouchers'' then Some (ToCall (CCreateVoucher rnd (Unmarshal (kj_voucher J) b)))
         else if path = ''/v1/vouchers/revoke'' then Some (ToCall (CRevokeVoucher (Unmarshal (kj_id J) b)))
         else None)
      else None)"

text \<open>The part of a request that the handlers read beside the body.\<close>

definition ka_headers :: "ka_wire \<Rightarrow> Request" where
  "ka_headers r =
     (let (path, q) = strings_Cut (CHR ''?'') (kw_Target r) in
      \<lparr>r_Path = path, r_Authorization = kw_Authorization r, r_XDeviceID = kw_XDeviceID r, r_XForwardedFor = kw_XForwardedFor r,
       r_RemoteAddr = kw_RemoteAddr r, r_QueryDeviceID = query_Get q ''device_id'', r_TLS = kw_TLS r\<rparr>)"

subsection \<open>admin\_ui.go\<close>

type_synonym ka_page = "(string \<times> string) list \<times> string"

definition handleAdminUI :: "string \<Rightarrow> ka_page" where
  "handleAdminUI adminHTML = ([(''Content-Type'', ''text/html; charset=utf-8''), (''Cache-Control'', ''no-store'')], adminHTML)"

definition writeJSON_headers :: "(string \<times> string) list" where
  "writeJSON_headers = [(''Content-Type'', ''application/json''), (''Cache-Control'', ''no-store'')]"

subsection \<open>The whole handler\<close>

datatype ka_answer =
    KAJson "(string \<times> string) list" response
  | KAUpdate "(string \<times> string) list" nat UpdateCheckResponse
  | KAPage nat ka_page
  | KANoRoute

definition ka_serve ::
    "'s Store \<Rightarrow> crypto_lib \<Rightarrow> ed25519_lib \<Rightarrow> (bytes \<Rightarrow> bytes) \<Rightarrow> ka_json \<Rightarrow> UpdateManifest json \<Rightarrow> disk \<Rightarrow> string \<Rightarrow> time \<Rightarrow> bytes \<Rightarrow> ka_wire
     \<Rightarrow> 's Server \<times> UpdateHub option \<Rightarrow> ka_answer \<times> 's Server \<times> UpdateHub option" where
  "ka_serve S L E sha256 J UJ d adminHTML now rnd r = (\<lambda>(st, u).
     case ka_Handler J rnd r of
       None \<Rightarrow> (KANoRoute, st, u)
     | Some ToAdminPage \<Rightarrow> (KAPage 200 (handleAdminUI adminHTML), st, u)
     | Some (ToUpdate cur os arch) \<Rightarrow>
         (case handleUpdateCheck UJ d cur os arch u of ((code, a), u') \<Rightarrow> (KAUpdate writeJSON_headers code a, st, u'))
     | Some (ToCall c) \<Rightarrow>
         (case serve S L E sha256 now (ka_headers r) c st of (resp, st') \<Rightarrow> (KAJson writeJSON_headers resp, st', u)))"

subsection \<open>client.go\<close>

definition client_wire :: "Client \<Rightarrow> string \<Rightarrow> string \<Rightarrow> bytes \<Rightarrow> bool \<Rightarrow> ka_wire" where
  "client_wire c method path b admin =
     \<lparr>kw_Method = method, kw_Target = path,
      kw_Authorization = (if admin \<and> AdminToken_k c \<noteq> '''' then ''Bearer '' @ AdminToken_k c else ''''),
      kw_XDeviceID = DeviceID_k c, kw_XForwardedFor = '''', kw_RemoteAddr = '''', kw_TLS = False, kw_Body = b\<rparr>"

text \<open>What each operation of the client passes to \<open>doJSON\<close>; it has none for the other calls.\<close>

definition client_send :: "ka_json \<Rightarrow> Client \<Rightarrow> call \<Rightarrow> ka_wire option" where
  "client_send J c call = (case call of
     CHealth \<Rightarrow> Some (client_wire c ''GET'' ''/v1/health'' [] False)
   | CEnroll (Some req) \<Rightarrow> Some (client_wire c ''POST'' ''/v1/enroll'' (Marshal (kj_enroll J) req)
       (AdminToken_k c \<noteq> '''' \<and> VoucherCode_e req = ''''))
   | CCreateVoucher rnd (Some req) \<Rightarrow> Some (client_wire c ''POST'' ''/v1/vouchers'' (Marshal (kj_voucher J) req) True)
   | CListVouchers \<Rightarrow> Some (client_wire c ''GET'' ''/v1/vouchers'' [] True)
   | CIssue (Some req) \<Rightarrow> Some (client_wire c ''POST'' ''/v1/key/issue'' (Marshal (kj_issue J) req) False)
   | CStatus \<Rightarrow> Some (client_wire c ''GET'' ''/v1/key/status'' [] False)
   | CRevoke (Some req) \<Rightarrow> Some (client_wire c ''POST'' ''/v1/revoke'' (Marshal (kj_revoke J) req) True)
   | _ \<Rightarrow> None)"

section \<open>Lemmas\<close>

lemma no_query [simp]: "CHR ''?'' \<notin> set p \<Longrightarrow> strings_Cut (CHR ''?'') p = (p, [])"
  by (induction p) (auto simp: strings_Cut_def)

lemma query_Get_Nil [simp]: "query_Get [] k = []"
  by (simp add: query_Get_def query_part_def List.map_filter_def)

lemma headers_client_wire: "CHR ''?'' \<notin> set p \<Longrightarrow> ka_headers (client_wire c m p b admin) = client_request c p admin"
  by (simp add: ka_headers_def client_wire_def client_request_def)

lemma r_Path_client_request [simp]: "r_Path (client_request c p admin) = p"
  by (simp add: client_request_def)

lemma client_send_shape:
  assumes "client_send J c call = Some r"
  obtains m p b admin where "r = client_wire c m p b admin" "CHR ''?'' \<notin> set p"
  using assms that by (cases call) (fastforce simp: client_send_def split: option.splits)+

text \<open>The bodies that the encodings carry: valid strings, and numbers within their types.\<close>

definition ka_json_ok :: "(call \<Rightarrow> bool) \<Rightarrow> ka_json \<Rightarrow> bool" where
  "ka_json_ok V J \<longleftrightarrow>
     json_ok (\<lambda>r. V (CEnroll (Some r))) (kj_enroll J) \<and> json_ok (\<lambda>r. V (CIssue (Some r))) (kj_issue J) \<and>
     json_ok (\<lambda>r. V (CRevoke (Some r))) (kj_revoke J) \<and> json_ok (\<lambda>r. V (CCreateVoucher [] (Some r))) (kj_voucher J)"

text \<open>The page and the update route change nothing that is kept for devices, whoever asks.\<close>

lemma pages_change_nothing:
  assumes "ka_Handler J rnd r = Some t" "\<And>c. t \<noteq> ToCall c"
  shows "fst (snd (ka_serve S L E sha J UJ d html now rnd r (st, u))) = st"
  using assms by (cases t) (auto simp: ka_serve_def split: prod.split)

lemma admin_page_served:
  "ka_serve S L E sha J UJ d html now rnd (client_wire c ''GET'' ''/admin'' b adm) (st, u) = (KAPage 200 (handleAdminUI html), st, u)"
  by (simp add: ka_serve_def ka_Handler_def client_wire_def)

section \<open>Properties\<close>


text \<open>Concrete encodings, field by field.\<close>

definition field_json :: ka_json where
  "field_json = \<lparr>
     kj_enroll = \<lparr>Marshal = (\<lambda>r. put_fields [bytes_of (DeviceID_e r), IdentityPK_e r, SignPK_e r, bytes_of (OrgID_e r), bytes_of (Label_e r),
         num (ucast (EnrollmentCounter_e r)), bytes_of (Profile_e r), bytes_of (VoucherCode_e r)]),
       Unmarshal = (\<lambda>b. case get_fields b of [d, i, s, g, l, n, p, v] \<Rightarrow> Some \<lparr>DeviceID_e = string_of d, IdentityPK_e = i, SignPK_e = s,
         OrgID_e = string_of g, Label_e = string_of l, EnrollmentCounter_e = ucast (un_num n), Profile_e = string_of p,
         VoucherCode_e = string_of v\<rparr> | _ \<Rightarrow> None)\<rparr>,
     kj_issue = \<lparr>Marshal = (\<lambda>r. put_fields [bytes_of (DeviceID_q r), num (EpochHint_q r), Nonce_q r, inum (ClientTime_q r), bytes_of (Profile_q r), Signature_q r]),
       Unmarshal = (\<lambda>b. case get_fields b of [d, h, n, t, p, s] \<Rightarrow> Some \<lparr>DeviceID_q = string_of d, EpochHint_q = un_num h, Nonce_q = n,
         ClientTime_q = un_inum t, Profile_q = string_of p, Signature_q = s\<rparr> | _ \<Rightarrow> None)\<rparr>,
     kj_revoke = \<lparr>Marshal = (\<lambda>r. put_fields [bytes_of (DeviceID_rr r), bytes_of (Reason_rr r)]),
       Unmarshal = (\<lambda>b. case get_fields b of [d, x] \<Rightarrow> Some \<lparr>DeviceID_rr = string_of d, Reason_rr = string_of x\<rparr> | _ \<Rightarrow> None)\<rparr>,
     kj_voucher = \<lparr>Marshal = (\<lambda>r. put_fields [bytes_of (Label_cv r), bytes_of (OrgID_cv r), bytes_of (Profile_cv r), inum (MaxUses_cv r), inum (TTLHours_cv r), bytes_of (Code_cv r)]),
       Unmarshal = (\<lambda>b. case get_fields b of [l, g, p, m, t, c] \<Rightarrow> Some \<lparr>Label_cv = string_of l, OrgID_cv = string_of g, Profile_cv = string_of p,
         MaxUses_cv = un_inum m, TTLHours_cv = un_inum t, Code_cv = string_of c\<rparr> | _ \<Rightarrow> None)\<rparr>,
     kj_id = \<lparr>Marshal = bytes_of, Unmarshal = (\<lambda>b. Some (string_of b))\<rparr>\<rparr>"

definition call_in_range :: "call \<Rightarrow> bool" where
  "call_in_range c = (case c of
     CIssue (Some r) \<Rightarrow> is_i64 (ClientTime_q r)
   | CCreateVoucher rnd (Some r) \<Rightarrow> is_i64 (MaxUses_cv r) \<and> is_i64 (TTLHours_cv r)
   | _ \<Rightarrow> True)"

lemma field_json_ok: "ka_json_ok call_in_range field_json"
  by (simp add: ka_json_ok_def json_ok_def field_json_def call_in_range_def ucast_u32_u64 del: put_fields.simps)


end
