(* ===== verification/Channel.thy ===== *)
theory Channel
  imports Session
begin

text \<open>
  The established session of \<^verbatim>\<open>internal/p2p/session.go\<close> against an adversary who owns the
  network. Two parties call \<open>Send\<close>, \<open>Recv\<close> and \<open>Close\<close> in any order; between the calls the
  adversary drops, repeats, reorders, cuts and invents bytes on both connections at will. The one
  thing it cannot do is what the AEAD of the library promises to prevent: make up a ciphertext
  that opens under a key of the session although neither party has sealed it.

  The abstract side is a channel that may lose and reorder messages. It says what a receiver can
  get: only messages that were sent, each of them once, and a second time only in the one
  situation that the window of \<^verbatim>\<open>replay.go\<close> leaves open, when the highest number let through is
  exactly 128 above. The concrete system is shown to simulate it in both directions.
\<close>

section \<open>The abstract channel\<close>

record achan =
  a_sent :: "bytes list"
  a_taken :: "nat list"
  a_high :: "nat option"

definition achan_start :: achan where
  "achan_start = \<lparr>a_sent = [], a_taken = [], a_high = None\<rparr>"

text \<open>
  \<open>a_taken\<close> lists the positions of the delivered messages in \<open>a_sent\<close>, in the order of delivery;
  \<open>a_high\<close> is the highest number that was let through, which noise on the line can push up.
\<close>

definition below :: "nat option \<Rightarrow> nat option \<Rightarrow> bool" where
  "below h h' \<longleftrightarrow> (case h of None \<Rightarrow> True | Some n \<Rightarrow> (case h' of None \<Rightarrow> False | Some n' \<Rightarrow> n \<le> n'))"

definition may_take :: "achan \<Rightarrow> nat \<Rightarrow> bool" where
  "may_take a i \<longleftrightarrow> i < length (a_sent a) \<and>
     (i \<notin> set (a_taken a) \<or> count_list (a_taken a) i = 1 \<and> a_high a = Some (i + 128))"

inductive achan_step :: "achan \<Rightarrow> achan \<Rightarrow> bool" where
  a_send: "achan_step a (a\<lparr>a_sent := a_sent a @ [m]\<rparr>)"
| a_noise: "below (a_high a) h \<Longrightarrow> achan_step a (a\<lparr>a_high := h\<rparr>)"
| a_deliver: "may_take a i \<Longrightarrow> below (a_high a) h \<Longrightarrow> below (Some i) h \<Longrightarrow>
    achan_step a (a\<lparr>a_taken := a_taken a @ [i], a_high := h\<rparr>)"

definition achan_inv :: "achan \<Rightarrow> bool" where
  "achan_inv a \<longleftrightarrow> (\<forall>i. (i \<in> set (a_taken a) \<longrightarrow> i < length (a_sent a)) \<and> count_list (a_taken a) i \<le> 2)"

lemma achan_inv_step: "achan_step a a' \<Longrightarrow> achan_inv a \<Longrightarrow> achan_inv a'"
  by (induction rule: achan_step.induct)
    (auto simp: achan_inv_def may_take_def less_Suc_eq le_Suc_eq count_list_0_iff)

lemma achan_inv_run: "achan_step\<^sup>*\<^sup>* achan_start a \<Longrightarrow> achan_inv a"
  by (induction rule: rtranclp_induct) (auto simp: achan_inv_def achan_start_def dest: achan_inv_step)

section \<open>The two parties and the network\<close>

record party =
  sess :: Session
  link :: endpoint
  sent :: "bytes list"
  got :: "bytes list"

text \<open>
  What a party has sealed with its sending key: the key, the nonce, the associated data and the
  ciphertext of each of its messages. A message counts as sent when \<open>Send\<close> was called on the open
  session, even if the transport failed: the sequence number is used up and a part of the frame
  may be out.
\<close>

definition sealed_as :: "crypto_lib \<Rightarrow> Session \<Rightarrow> nat \<Rightarrow> bytes \<Rightarrow> bytes \<times> bytes \<times> bytes \<times> bytes" where
  "sealed_as L s i m =
     (let nonce = NonceFromSeq (word_of_nat i);
          aad = BuildAAD 1 (epochID s) (localID s) (peerID s) (word_of_nat i)
      in (sendKey s, nonce, aad, chacha_Seal L (sendKey s) nonce m aad))"

definition sealed :: "crypto_lib \<Rightarrow> party \<Rightarrow> (bytes \<times> bytes \<times> bytes \<times> bytes) set" where
  "sealed L p = {sealed_as L (sess p) i (sent p ! i) | i. i < length (sent p)}"

text \<open>
  The promise of the AEAD about a frame: if the ciphertext in it opens under the key, with some
  nonce and some associated data, then one of the parties sealed it so.
\<close>

definition unforged ::
    "crypto_lib \<Rightarrow> codec \<Rightarrow> (bytes \<times> bytes \<times> bytes \<times> bytes) set \<Rightarrow> bytes \<Rightarrow> bytes \<Rightarrow> bool" where
  "unforged L J sl k b \<longleftrightarrow> (\<forall>msg nonce aad p. dec_DataMsg J b = Some msg \<longrightarrow>
     chacha_Open L k nonce (d_Ciphertext msg) aad = Some p \<longrightarrow> (k, nonce, aad, d_Ciphertext msg) \<in> sl)"

text \<open>
  One step of a party, or of the adversary on its connection; \<open>sl\<close> is what has been sealed so far.
  A receive is split where the code gives up its lock: reading a frame only changes the
  connection, which the adversary may do at any time, so the step is the second half, on any frame
  that the adversary can bring about. Calls of several goroutines may be interleaved in any way.
\<close>

inductive party_step ::
    "crypto_lib \<Rightarrow> codec \<Rightarrow> (bytes \<times> bytes \<times> bytes \<times> bytes) set \<Rightarrow> party \<Rightarrow> party \<Rightarrow> bool"
  for L J sl where
  do_send: "Send L J m (sess p, link p) = (r, (s', c')) \<Longrightarrow>
    party_step L J sl p (p\<lparr>sess := s', link := c',
      sent := (if closed (sess p) then sent p else sent p @ [m])\<rparr>)"
| do_recv: "unforged L J sl (recvKey (sess p)) b \<Longrightarrow>
    recv_frame L J b (sess p, link p) = (r, (s', c')) \<Longrightarrow>
    party_step L J sl p (p\<lparr>sess := s', link := c',
      got := (case r of Inl _ \<Rightarrow> got p | Inr m \<Rightarrow> got p @ [m])\<rparr>)"
| do_close: "CloseSession J reason (sess p, link p) = (s', c') \<Longrightarrow>
    party_step L J sl p (p\<lparr>sess := s', link := c'\<rparr>)"
| tamper: "party_step L J sl p (p\<lparr>link := c'\<rparr>)"

inductive net_step :: "crypto_lib \<Rightarrow> codec \<Rightarrow> party \<times> party \<Rightarrow> party \<times> party \<Rightarrow> bool" for L J where
  left: "party_step L J (sealed L x \<union> sealed L y) x x' \<Longrightarrow> net_step L J (x, y) (x', y)"
| right: "party_step L J (sealed L x \<union> sealed L y) y y' \<Longrightarrow> net_step L J (x, y) (x, y')"

definition new_party :: "Session \<Rightarrow> endpoint \<Rightarrow> party" where
  "new_party s c = \<lparr>sess = s, link = c, sent = [], got = []\<rparr>"

section \<open>How often the window lets a number through\<close>

text \<open>
  A number is spent when the maximum has reached \<open>size\<close> above it and it is either recorded or too
  old: a spent number stays spent and is never let through again.
\<close>

definition spent :: "ReplayWindow \<Rightarrow> u64 \<Rightarrow> bool" where
  "spent w t \<longleftrightarrow> inited w \<and> unat t + unat (w_size w) \<le> unat (maxSeq w) \<and>
     (t \<in> bitmap w \<or> unat t + unat (w_size w) < unat (maxSeq w))"

lemma maxSeq_mono:
  assumes "window_inv A w" and "inited w"
  shows "unat (maxSeq w) \<le> unat (maxSeq (snd (Accept w s)))"
proof (cases "fst (Accept w s)")
  case True
  have "0 < w_size w" using assms by (simp add: window_inv_def)
  from True this show ?thesis
    by (cases rule: Accept_True_cases) (use assms in \<open>auto simp: word_less_nat_alt\<close>)
qed (simp add: Accept_False)

lemma spent_Accept:
  assumes "window_inv A w" and "spent w t"
  shows "spent (snd (Accept w s)) t"
proof (cases "fst (Accept w s)")
  case True
  have "0 < w_size w" using assms by (simp add: window_inv_def)
  from True this show ?thesis
    by (cases rule: Accept_True_cases) (use assms in \<open>auto simp: spent_def word_less_nat_alt\<close>)
qed (use assms in \<open>simp add: Accept_False\<close>)

lemma spent_refused:
  assumes "spent w t" and "unat t + unat (w_size w) < 2 ^ 64"
  shows "\<not> fst (Accept w t)"
  using assms by (auto simp: spent_def Accept_def word_less_nat_alt unat_word_ariths)

lemma Accept_again:
  assumes inv: "window_inv A w" and acc: "fst (Accept w s)" and old: "s \<in> A"
    and wrap: "unat s + unat (w_size w) < 2 ^ 64"
  shows "unat (maxSeq w) = unat s + unat (w_size w)" "inited w" "spent (snd (Accept w s)) s"
proof -
  show i: "inited w" using inv old by (auto simp: window_inv_def split: if_splits)
  have le: "s \<le> maxSeq w" and nb: "s \<notin> bitmap w"
    using inv old acc i by (auto simp: window_inv_def Accept_def split: if_splits)
  have "unat s + unat (w_size w) \<le> unat (maxSeq w)"
    using inv old i nb by (auto simp: window_inv_def not_less)
  moreover have pos: "0 < w_size w" using inv by (simp add: window_inv_def)
  from acc this have "unat (maxSeq w) \<le> unat s + unat (w_size w) \<and>
      snd (Accept w s) = w\<lparr>bitmap := insert s (bitmap w)\<rparr>"
    by (cases rule: Accept_True_cases) (use i le in auto)
  ultimately show "unat (maxSeq w) = unat s + unat (w_size w)" "spent (snd (Accept w s)) s"
    using i by (auto simp: spent_def)
qed

section \<open>What the operations keep of a session\<close>

definition same_ends :: "Session \<Rightarrow> Session \<Rightarrow> bool" where
  "same_ends s s' \<longleftrightarrow> localID s' = localID s \<and> peerID s' = peerID s \<and> epochID s' = epochID s \<and>
     sendKey s' = sendKey s \<and> recvKey s' = recvKey s"

lemma Send_keeps:
  assumes "Send L J m (s, c) = (r, (s', c'))" and "length (sendKey s) = 32"
  shows "same_ends s s'" "replay s' = replay s"
    "nextSeq s' = (if closed s then nextSeq s else nextSeq s + 1)"
  using assms
  by (auto simp: Send_def Let_def gbind_def pure_crypto_def Seal_def lift_conn_def same_ends_def
      split: if_splits prod.splits)

lemma Close_keeps:
  assumes "CloseSession J reason (s, c) = (s', c')"
  shows "same_ends s s'" "replay s' = replay s" "nextSeq s' = nextSeq s"
  using assms by (auto simp: CloseSession_def same_ends_def split: if_splits)

lemma recv_data_keeps:
  assumes "recv_data L msg (s, c) = (r, (s', c'))"
  shows "same_ends s s' \<and> nextSeq s' = nextSeq s \<and>
    (replay s' = replay s \<or> (\<exists>q. replay s' = snd (Accept (replay s) q)))"
proof (intro conjI)
  show "same_ends s s'" "nextSeq s' = nextSeq s"
    using assms by (auto simp: recv_data_def same_ends_def Let_def split: if_splits prod.splits bool.splits)
  show "replay s' = replay s \<or> (\<exists>q. replay s' = snd (Accept (replay s) q))"
    using assms recv_data_state [of L msg s c s' c'] by simp
qed

lemma recv_frame_keeps:
  assumes "recv_frame L J b (s, c) = (r, (s', c'))"
  shows "same_ends s s'" "nextSeq s' = nextSeq s"
    "replay s' = replay s \<or> (\<exists>q. replay s' = snd (Accept (replay s) q))"
  using assms
  by (auto simp: recv_frame_def same_ends_def split: option.splits if_splits
      dest: recv_data_keeps [unfolded same_ends_def])

text \<open>A successful receive: its number, and the ciphertext that opened.\<close>

lemma recv_frame_opened:
  assumes "recv_frame L J b (s, c) = (Inr p, (s', c'))"
  obtains msg nonce where "dec_DataMsg J b = Some msg" "Accept (replay s) (d_Seq msg) = (True, replay s')"
    "chacha_Open L (recvKey s) nonce (d_Ciphertext msg)
       (BuildAAD 1 (epochID s) (peerID s) (localID s) (d_Seq msg)) = Some p"
proof -
  obtain msg where m: "dec_DataMsg J b = Some msg" "recv_data L msg (s, c) = (Inr p, (s', c'))"
    using assms by (auto simp: recv_frame_def split: option.splits if_splits)
  let ?n = "if length (d_Nonce msg) = 0 then NonceFromSeq (d_Seq msg) else d_Nonce msg"
  let ?a = "BuildAAD 1 (epochID s) (peerID s) (localID s) (d_Seq msg)"
  have "Accept (replay s) (d_Seq msg) = (True, replay s')" "Open L (recvKey s) ?n ?a (d_Ciphertext msg) = Inr p"
    using m(2) by (cases "Open L (recvKey s) ?n ?a (d_Ciphertext msg)";
        auto simp: recv_data_def Let_def split: if_splits prod.splits bool.splits)+
  then show ?thesis
    by (intro that [of msg ?n] m) (auto simp: Open_def split: if_splits option.splits)
qed

text \<open>A whole call of \<open>Recv\<close> that nothing interrupts is made of such steps.\<close>

lemma Recv_steps:
  assumes "Recv L J (sess p, link p) = (r, (s', c'))"
    and "\<And>b c1. ReadFrame (link p) = (Inr b, c1) \<Longrightarrow> unforged L J sl (recvKey (sess p)) b"
  shows "(party_step L J sl)\<^sup>*\<^sup>* p (p\<lparr>sess := s', link := c', got := (case r of Inl _ \<Rightarrow> got p | Inr m \<Rightarrow> got p @ [m])\<rparr>)"
proof (cases "closed (sess p)")
  case True
  with assms(1) show ?thesis by (auto simp: Recv_def)
next
  case False
  obtain q c1 where q: "ReadFrame (link p) = (q, c1)" by fastforce
  let ?p = "p\<lparr>link := c1\<rparr>"
  have t: "party_step L J sl p ?p" by (rule tamper)
  show ?thesis
  proof (cases q)
    case (Inl e)
    with q assms(1) False have "p\<lparr>sess := s', link := c', got := (case r of Inl _ \<Rightarrow> got p | Inr m \<Rightarrow> got p @ [m])\<rparr> = ?p"
      by (auto simp: Recv_split gbind_def lift_conn_def)
    with t show ?thesis by (simp add: r_into_rtranclp)
  next
    case (Inr b)
    then have f: "recv_frame L J b (sess ?p, link ?p) = (r, (s', c'))"
      using q assms(1) False by (simp add: Recv_split gbind_def lift_conn_def)
    have u: "unforged L J sl (recvKey (sess ?p)) b" using assms(2) q Inr by simp
    show ?thesis using t do_recv [OF u f]
      by (intro rtranclp.rtrancl_into_rtrancl [OF r_into_rtranclp]) (simp_all cong: sum.case_cong)
  qed
qed

section \<open>Simulation\<close>

locale forward_simulation =
  fixes cstep :: "'c \<Rightarrow> 'c \<Rightarrow> bool" and astep :: "'a \<Rightarrow> 'a \<Rightarrow> bool" and rel :: "'c \<Rightarrow> 'a \<Rightarrow> bool"
  assumes simulate: "cstep c c' \<Longrightarrow> rel c a \<Longrightarrow> \<exists>a'. astep\<^sup>*\<^sup>* a a' \<and> rel c' a'"
begin

lemma simulate_run: "cstep\<^sup>*\<^sup>* c c' \<Longrightarrow> rel c a \<Longrightarrow> \<exists>a'. astep\<^sup>*\<^sup>* a a' \<and> rel c' a'"
proof (induction rule: rtranclp_induct)
  case (step y z)
  then show ?case by (meson rtranclp_trans simulate)
qed blast

end

text \<open>
  The two ends of one direction: \<open>x\<close> sends and \<open>y\<close> receives, and nothing that \<open>y\<close> seals can be
  played back to it, because the keys differ or the names do.
\<close>

definition paired :: "Session \<Rightarrow> Session \<Rightarrow> bool" where
  "paired s t \<longleftrightarrow> localID t = peerID s \<and> peerID t = localID s \<and> epochID t = epochID s \<and>
     recvKey t = sendKey s \<and> length (sendKey s) = 32 \<and> length (sendKey t) = 32 \<and>
     (sendKey t \<noteq> sendKey s \<or> localID s @ peerID s \<noteq> peerID s @ localID s)"

definition high_of :: "ReplayWindow \<Rightarrow> nat option" where
  "high_of w = (if inited w then Some (unat (maxSeq w)) else None)"

text \<open>
  The window of the receiver against the positions taken so far: every taken number was let
  through, and a number taken twice is spent.
\<close>

definition window_rel :: "ReplayWindow \<Rightarrow> nat list \<Rightarrow> bool" where
  "window_rel w is \<longleftrightarrow> w_size w = 128 \<and> (\<exists>A. window_inv A w \<and> word_of_nat ` set is \<subseteq> A) \<and>
     (\<forall>i. 2 \<le> count_list is i \<longrightarrow> spent w (word_of_nat i))"

definition channel_rel :: "crypto_lib \<Rightarrow> party \<Rightarrow> party \<Rightarrow> achan \<Rightarrow> bool" where
  "channel_rel L x y a \<longleftrightarrow> paired (sess x) (sess y) \<and> nextSeq (sess x) = word_of_nat (length (sent x)) \<and>
     a_sent a = sent x \<and> (\<forall>i \<in> set (a_taken a). i < length (sent x)) \<and>
     got y = map (\<lambda>i. sent x ! i) (a_taken a) \<and>
     window_rel (replay (sess y)) (a_taken a) \<and> a_high a = high_of (replay (sess y))"

definition carries :: "crypto_lib \<Rightarrow> party \<times> party \<Rightarrow> achan \<Rightarrow> bool" where
  "carries L xy a \<longleftrightarrow> (case xy of (x, y) \<Rightarrow>
     aead_correct L \<and> length (sent x) < 2 ^ 63 \<longrightarrow> channel_rel L x y a)"

lemma below_refl [simp]: "below h h"
  by (simp add: below_def split: option.split)

lemma below_high: "window_inv A w \<Longrightarrow> below (high_of w) (high_of (snd (Accept w s)))"
  using maxSeq_mono by (auto simp: below_def high_of_def)

lemma window_rel_Accept:
  assumes "window_rel w is"
  shows "window_rel (snd (Accept w s)) is"
proof -
  obtain A where "window_inv A w" "word_of_nat ` set is \<subseteq> A" using assms by (auto simp: window_rel_def)
  then show ?thesis
    using assms window_inv_Accept [of A w s] spent_Accept [of A w _ s]
    by (auto simp: window_rel_def intro!: exI [of _ "if fst (Accept w s) then insert s A else A"])
qed

text \<open>What a successful receive means for the position whose number came.\<close>

lemma window_rel_take:
  assumes "window_rel w is" and acc: "Accept w (word_of_nat i) = (True, w')" and i: "i < 2 ^ 63"
  shows "window_rel w' (is @ [i])"
    and "i \<notin> set is \<or> count_list is i = 1 \<and> high_of w = Some (i + 128)"
    and "below (Some i) (high_of w')" "below (high_of w) (high_of w')"
proof -
  obtain A where A: "window_inv A w" "word_of_nat ` set is \<subseteq> A" and sz: "w_size w = 128"
    using assms(1) by (auto simp: window_rel_def)
  have u: "unat (word_of_nat i :: u64) = i" using i by (simp add: unat_of_nat take_bit_nat_eq_self_iff)
  have wrap: "unat (word_of_nat i :: u64) + unat (w_size w) < 2 ^ 64" using u sz i by simp
  have acc': "fst (Accept w (word_of_nat i))" "w' = snd (Accept w (word_of_nat i))" using acc by simp_all
  have A': "window_inv (insert (word_of_nat i) A) w'"
    using window_inv_Accept [OF A(1), of "word_of_nat i"] acc' by simp
  have c2: "\<not> 2 \<le> count_list is i"
    using spent_refused [OF _ wrap] acc' assms(1) by (auto simp: window_rel_def)
  have again: "count_list is i = 1 \<and> high_of w = Some (i + 128) \<and> spent w' (word_of_nat i)" if "i \<in> set is"
  proof -
    have "count_list is i \<noteq> 0" using that by (simp add: count_list_0_iff)
    then show ?thesis
      using c2 Accept_again [OF A(1) acc'(1) _ wrap] that A(2) u sz acc'(2)
      by (auto simp: high_of_def)
  qed
  then show "i \<notin> set is \<or> count_list is i = 1 \<and> high_of w = Some (i + 128)" by blast
  have "inited w'" using acc' by simp
  then show "below (Some i) (high_of w')"
    using A' u by (auto simp: below_def high_of_def window_inv_def word_le_nat_alt)
  show "below (high_of w) (high_of w')" using below_high [OF A(1)] acc'(2) by simp
  have "spent w' (word_of_nat j)" if "2 \<le> count_list (is @ [i]) j" for j
  proof (cases "j = i")
    case True
    with that again show ?thesis by (cases "i \<in> set is") (auto simp: count_list_0_iff)
  next
    case False
    with that assms(1) spent_Accept [OF A(1)] acc'(2) show ?thesis by (auto simp: window_rel_def)
  qed
  then show "window_rel w' (is @ [i])"
    using A' A(2) sz acc'(2) by (auto simp: window_rel_def intro!: exI [of _ "insert (word_of_nat i) A"])
qed

lemma paired_same: "same_ends s s' \<Longrightarrow> same_ends t t' \<Longrightarrow> paired s' t' \<longleftrightarrow> paired s t"
  by (simp add: same_ends_def paired_def)

lemma same_ends_refl [simp]: "same_ends s s"
  by (simp add: same_ends_def)

text \<open>The steps of the sending end.\<close>

lemma sender_step:
  assumes "party_step L J sl x x'" and "channel_rel L x y a"
  shows "\<exists>a'. achan_step\<^sup>*\<^sup>* a a' \<and> channel_rel L x' y a'"
  using assms(1)
proof cases
  case (do_send m r s' c')
  have k: "length (sendKey (sess x)) = 32" using assms(2) by (simp add: channel_rel_def paired_def)
  note s = Send_keeps [OF do_send(2) k]
  show ?thesis
  proof (cases "closed (sess x)")
    case True
    with s do_send(1) assms(2) have "channel_rel L x' y a"
      by (simp add: channel_rel_def paired_same [of "sess x" s' "sess y" "sess y"])
    then show ?thesis by blast
  next
    case False
    let ?a = "a\<lparr>a_sent := a_sent a @ [m]\<rparr>"
    have "channel_rel L x' y ?a"
      using s do_send(1) assms(2) False
      by (auto simp: channel_rel_def paired_same [of "sess x" s' "sess y" "sess y"] nth_append)
    moreover have "achan_step a ?a" by (rule a_send)
    ultimately show ?thesis by blast
  qed
next
  case (do_recv b r s' c')
  then have "channel_rel L x' y a"
    using assms(2) recv_frame_keeps [OF do_recv(3)] by (auto simp: channel_rel_def paired_same [of "sess x" s' "sess y" "sess y"])
  then show ?thesis by blast
next
  case (do_close reason s' c')
  then have "channel_rel L x' y a"
    using assms(2) Close_keeps [OF do_close(2)] by (auto simp: channel_rel_def paired_same [of "sess x" s' "sess y" "sess y"])
  then show ?thesis by blast
next
  case (tamper c')
  then have "channel_rel L x' y a" using assms(2) by (simp add: channel_rel_def)
  then show ?thesis by blast
qed

text \<open>What opens at the receiving end was sealed by the sending end, under the number it carries.\<close>

lemma opened_was_sent:
  assumes "aead_correct L" "paired (sess x) (sess y)"
    and "chacha_Open L (recvKey (sess y)) nonce ct
       (BuildAAD 1 (epochID (sess y)) (peerID (sess y)) (localID (sess y)) q) = Some p"
    and "(recvKey (sess y), nonce,
       BuildAAD 1 (epochID (sess y)) (peerID (sess y)) (localID (sess y)) q, ct) \<in> sealed L x \<union> sealed L y"
  obtains i where "i < length (sent x)" "q = word_of_nat i" "p = sent x ! i"
proof -
  have "(recvKey (sess y), nonce,
       BuildAAD 1 (epochID (sess y)) (peerID (sess y)) (localID (sess y)) q, ct) \<in> sealed L x"
    using assms(2,4) by (auto simp: sealed_def sealed_as_def Let_def paired_def BuildAAD_eq_iff)
  then obtain i where i: "i < length (sent x)" "q = word_of_nat i" "nonce = NonceFromSeq q"
    "ct = chacha_Seal L (sendKey (sess x)) nonce (sent x ! i)
       (BuildAAD 1 (epochID (sess y)) (peerID (sess y)) (localID (sess y)) q)"
    using assms(2) by (auto simp: sealed_def sealed_as_def Let_def paired_def BuildAAD_eq_iff)
  moreover have "p = sent x ! i"
    using assms(1,2,3) i(3,4) by (auto simp: aead_correct_def paired_def)
  ultimately show ?thesis using that by blast
qed

lemma receiver_recv:
  assumes lib: "aead_correct L" and bound: "length (sent x) < 2 ^ 63" and rel: "channel_rel L x y a"
    and sl: "unforged L J (sealed L x \<union> sealed L y) (recvKey (sess y)) b"
    and recv: "recv_frame L J b (sess y, link y) = (r, (s', c'))"
    and y': "sess y' = s'" "got y' = (case r of Inl _ \<Rightarrow> got y | Inr m \<Rightarrow> got y @ [m])"
  shows "\<exists>a'. achan_step\<^sup>*\<^sup>* a a' \<and> channel_rel L x y' a'"
proof (cases r)
  case (Inl e)
  let ?a = "a\<lparr>a_high := high_of (replay s')\<rparr>"
  obtain A where A: "window_inv A (replay (sess y))" using rel by (auto simp: channel_rel_def window_rel_def)
  have st: "replay s' = replay (sess y) \<or> (\<exists>q. replay s' = snd (Accept (replay (sess y)) q))"
    by (rule recv_frame_keeps(3) [OF recv])
  then have "channel_rel L x y' ?a"
    using rel y' Inl recv_frame_keeps(1,2) [OF recv] window_rel_Accept
    by (auto simp: channel_rel_def paired_same [of "sess x" "sess x" "sess y" s'])
  moreover have "achan_step a ?a"
    using rel st below_high [OF A]
    by (intro a_noise) (auto simp: channel_rel_def)
  ultimately show ?thesis by blast
next
  case (Inr p)
  obtain msg nonce where m: "dec_DataMsg J b = Some msg"
    "Accept (replay (sess y)) (d_Seq msg) = (True, replay s')"
    "chacha_Open L (recvKey (sess y)) nonce (d_Ciphertext msg)
       (BuildAAD 1 (epochID (sess y)) (peerID (sess y)) (localID (sess y)) (d_Seq msg)) = Some p"
    using recv Inr recv_frame_opened by blast
  have pr: "paired (sess x) (sess y)" using rel by (simp add: channel_rel_def)
  obtain i where i: "i < length (sent x)" "d_Seq msg = word_of_nat i" "p = sent x ! i"
    using opened_was_sent [OF lib pr m(3)] sl [unfolded unforged_def, rule_format, OF m(1,3)] by blast
  have w: "window_rel (replay (sess y)) (a_taken a)" "a_high a = high_of (replay (sess y))" "a_sent a = sent x"
    using rel by (simp_all add: channel_rel_def)
  note tk = window_rel_take [OF w(1) m(2) [unfolded i(2)], OF less_trans [OF i(1) bound]]
  let ?a = "a\<lparr>a_taken := a_taken a @ [i], a_high := high_of (replay s')\<rparr>"
  have "achan_step a ?a"
    using tk i(1) w by (intro a_deliver) (auto simp: may_take_def)
  moreover have "channel_rel L x y' ?a"
    using rel y' Inr i tk(1) recv_frame_keeps(1,2) [OF recv]
    by (auto simp: channel_rel_def paired_same [of "sess x" "sess x" "sess y" s'])
  ultimately show ?thesis by blast
qed

lemma receiver_step:
  assumes "party_step L J (sealed L x \<union> sealed L y) y y'" and "channel_rel L x y a"
    and "aead_correct L" and "length (sent x) < 2 ^ 63"
  shows "\<exists>a'. achan_step\<^sup>*\<^sup>* a a' \<and> channel_rel L x y' a'"
  using assms(1)
proof cases
  case (do_recv b r s' c')
  then show ?thesis using receiver_recv [OF assms(3,4,2) do_recv(2,3)] by simp
next
  case (do_send m r s' c')
  have "length (sendKey (sess y)) = 32" using assms(2) by (simp add: channel_rel_def paired_def)
  then have "channel_rel L x y' a"
    using assms(2) do_send(1) Send_keeps [OF do_send(2)]
    by (auto simp: channel_rel_def paired_same [of "sess x" "sess x" "sess y" s'])
  then show ?thesis by blast
next
  case (do_close reason s' c')
  then have "channel_rel L x y' a"
    using assms(2) Close_keeps [OF do_close(2)]
    by (auto simp: channel_rel_def paired_same [of "sess x" "sess x" "sess y" s'])
  then show ?thesis by blast
next
  case (tamper c')
  then have "channel_rel L x y' a" using assms(2) by (simp add: channel_rel_def)
  then show ?thesis by blast
qed

lemma net_step_swap: "net_step L J (x, y) (x', y') \<Longrightarrow> net_step L J (y, x) (y', x')"
  by (auto elim!: net_step.cases simp: Un_commute intro: net_step.intros)

lemma net_run_swap:
  "(net_step L J)\<^sup>*\<^sup>* (x, y) (x', y') \<Longrightarrow> (net_step L J)\<^sup>*\<^sup>* (y, x) (y', x')"
proof (induction "(x', y')" arbitrary: x' y' rule: rtranclp_induct)
  case (step z)
  obtain u v where z: "z = (u, v)" by fastforce
  with step have "(net_step L J)\<^sup>*\<^sup>* (y, x) (v, u)" "net_step L J (v, u) (y', x')"
    by (auto intro: net_step_swap)
  then show ?case by (rule rtranclp.rtrancl_into_rtrancl)
qed simp

lemma sent_grows: "party_step L J sl p p' \<Longrightarrow> length (sent p) \<le> length (sent p')"
  by (auto elim!: party_step.cases)

interpretation chan: forward_simulation "net_step L J" achan_step "carries L" for L J
proof
  fix c c' a
  assume step: "net_step L J c c'" and rel: "carries L c a"
  obtain x y x' y' where c: "c = (x, y)" "c' = (x', y')" by fastforce
  show "\<exists>a'. achan_step\<^sup>*\<^sup>* a a' \<and> carries L c' a'"
  proof (cases "aead_correct L \<and> length (sent x') < 2 ^ 63")
    case ok: True
    have "length (sent x) \<le> length (sent x')"
      using step c by (auto elim!: net_step.cases dest: sent_grows)
    with ok rel c have "channel_rel L x y a" "length (sent x) < 2 ^ 63" by (auto simp: carries_def)
    with step c ok have "\<exists>a'. achan_step\<^sup>*\<^sup>* a a' \<and> channel_rel L x' y' a'"
      by (auto elim!: net_step.cases dest: sender_step receiver_step)
    then show ?thesis using c by (auto simp: carries_def)
  qed (auto simp: carries_def c)
qed

lemma carries_start:
  assumes "length k = 32" "length k' = 32" "k \<noteq> k' \<or> ida @ idb \<noteq> idb @ ida"
  shows "carries L (new_party (new_session ida idb e k k') c, new_party (new_session idb ida e k' k) c')
     achan_start"
  using assms window_inv_New [of 128]
  by (auto simp: carries_def channel_rel_def new_party_def new_session_def achan_start_def paired_def
      window_rel_def high_of_def NewReplayWindow_def)

text \<open>One direction of a run, as an abstract channel.\<close>

lemma channel_run:
  assumes "aead_correct L" "length k = 32" "length k' = 32" "k \<noteq> k' \<or> ida @ idb \<noteq> idb @ ida"
    and "(net_step L J)\<^sup>*\<^sup>*
       (new_party (new_session ida idb e k k') c, new_party (new_session idb ida e k' k) c') (x, y)"
    and "length (sent x) < 2 ^ 63"
  obtains a where "achan_step\<^sup>*\<^sup>* achan_start a" "a_sent a = sent x"
    "got y = map (\<lambda>i. sent x ! i) (a_taken a)"
  using chan.simulate_run [OF assms(5) carries_start [OF assms(2-4)]] assms(1,6)
  by (auto simp: carries_def channel_rel_def)

section \<open>Properties\<close>

text \<open>
  C4: An established session is a secure channel. Whatever the two parties do and whatever an
  adversary does to their connections short of forging the AEAD, each direction is a run of the
  abstract channel: the messages a party has got are messages the other party sent in this
  session, each under its own number, so nothing is invented, altered, reflected back or moved
  from another session, and no message is delivered more than twice (twice only at the mark the
  replay window leaves open). Each side sends fewer than \<open>2 ^ 63\<close> messages, and the keys of the
  two directions differ or the names cannot be confused.
\<close>

theorem secure_channel:
  assumes "aead_correct L" "length k = 32" "length k' = 32" "k \<noteq> k' \<or> ida @ idb \<noteq> idb @ ida"
    and "(net_step L J)\<^sup>*\<^sup>*
       (new_party (new_session ida idb e k k') c, new_party (new_session idb ida e k' k) c') (x, y)"
    and "length (sent x) < 2 ^ 63" "length (sent y) < 2 ^ 63"
  shows "\<exists>ab ba. achan_step\<^sup>*\<^sup>* achan_start ab \<and> achan_step\<^sup>*\<^sup>* achan_start ba \<and>
     a_sent ab = sent x \<and> got y = map (\<lambda>i. sent x ! i) (a_taken ab) \<and>
     a_sent ba = sent y \<and> got x = map (\<lambda>i. sent y ! i) (a_taken ba) \<and>
     (\<forall>i. count_list (a_taken ab) i \<le> 2 \<and> count_list (a_taken ba) i \<le> 2) \<and>
     set (got y) \<subseteq> set (sent x) \<and> set (got x) \<subseteq> set (sent y)"
proof -
  obtain ab where ab: "achan_step\<^sup>*\<^sup>* achan_start ab" "a_sent ab = sent x"
    "got y = map (\<lambda>i. sent x ! i) (a_taken ab)"
    by (rule channel_run [OF assms(1-6)])
  have "k' \<noteq> k \<or> idb @ ida \<noteq> ida @ idb" using assms(4) by metis
  then obtain ba where ba: "achan_step\<^sup>*\<^sup>* achan_start ba" "a_sent ba = sent y"
    "got x = map (\<lambda>i. sent y ! i) (a_taken ba)"
    by (rule channel_run [OF assms(1,3,2) _ net_run_swap [OF assms(5)] assms(7)])
  have "achan_inv ab" "achan_inv ba" using ab(1) ba(1) by (auto intro: achan_inv_run)
  then show ?thesis
    using ab ba by (intro exI [of _ ab] exI [of _ ba]) (auto simp: achan_inv_def)
qed

text \<open>
  A library whose seal names the key, the nonce and the associated data, so that nothing opens
  except as it was sealed.
\<close>

definition box_lib :: crypto_lib where
  "box_lib = xor_lib\<lparr>chacha_Seal := (\<lambda>k n p a. put_fields [k, n, a, p]),
     chacha_Open := (\<lambda>k n c a. case get_fields c of
        [k', n', a', p] \<Rightarrow> if k' = k \<and> n' = n \<and> a' = a \<and> put_fields [k, n, a, p] = c then Some p else None
      | _ \<Rightarrow> None)\<rparr>"

lemma box_lib_opens:
  "chacha_Open box_lib k n c a = Some p \<longleftrightarrow> c = chacha_Seal box_lib k n p a"
  by (auto simp: box_lib_def simp del: put_fields.simps split: list.splits if_splits)

lemma box_lib_correct: "aead_correct box_lib"
  by (simp add: aead_correct_def box_lib_opens)

lemma box_lib_binds:
  "chacha_Seal box_lib k n p a = chacha_Seal box_lib k' n' p' a' \<Longrightarrow> n' = n \<and> a' = a"
  by (auto simp: box_lib_def simp del: put_fields.simps dest: arg_cong [of _ _ get_fields])

theorem secure_channel_witness:
  "\<exists>x y ab. (net_step box_lib field_codec)\<^sup>*\<^sup>*
      (new_party (new_session ''alice'' ''bob'' 100 (replicate 32 7) (replicate 32 8)) (open_end [] [] 2 []),
       new_party (new_session ''bob'' ''alice'' 100 (replicate 32 8) (replicate 32 7)) (open_end [] [] 2 [])) (x, y) \<and>
     achan_step\<^sup>*\<^sup>* achan_start ab \<and> a_sent ab = [[1]] \<and> sent x = [[1]] \<and> got y = [[1]] \<and>
     map (\<lambda>i. [[1]] ! i) (a_taken ab) = [[1 :: byte]]"
proof -
  let ?L = box_lib and ?J = field_codec
  define a where "a = new_session ''alice'' ''bob'' 100 (replicate 32 7) (replicate 32 8)"
  define b where "b = new_session ''bob'' ''alice'' 100 (replicate 32 8) (replicate 32 7)"
  define d where "d = data_msg ?L a [1]"
  let ?f = "enc_DataMsg ?J d" and ?c = "open_end [] [] 2 []" and ?a1 = "a\<lparr>nextSeq := nextSeq a + 1\<rparr>"
  define x1 where "x1 = \<lparr>sess = ?a1, link = open_end [] (frame ?f) 0 [], sent = [[1]], got = []\<rparr>"
  define w where "w = snd (Accept (NewReplayWindow 128) 0)"
  define y2 where "y2 = \<lparr>sess = b\<lparr>replay := w\<rparr>, link = open_end [] [] 2 [], sent = [], got = [[1]]\<rparr>"
  have k: "length (sendKey a) = 32" "\<not> closed a" "nextSeq a = 0" "sent (new_party a ?c) = []"
    by (simp_all add: a_def new_session_def new_party_def)
  have fit: "framable ?f"
    by (simp add: framable_def MaxPayload_def field_codec_def d_def data_msg_def box_lib_def a_def new_session_def
        length_put_fields BuildAAD_def del: put_fields.simps)
  have dec: "dec_head ?J ?f = Some TypeData" "dec_DataMsg ?J ?f = Some d"
    using field_codec_laws(1) by (simp_all add: codec_ok_def d_def)
  have "Send ?L ?J [1] (a, ?c) = (Inr (), (?a1, open_end [] (frame ?f) 0 []))"
    using fit k by (simp add: Send_framed lift_conn_def writeJSON_framable flip: d_def)
  then have "net_step ?L ?J (new_party a ?c, new_party b ?c) (x1, new_party b ?c)"
    using party_step.do_send [of ?L ?J "[1]" "new_party a ?c" "Inr ()" ?a1 "open_end [] (frame ?f) 0 []"] k
    by (intro net_step.left) (simp add: x1_def new_party_def)
  moreover have "net_step ?L ?J (x1, new_party b ?c) (x1, y2)"
  proof -
    have sealed1: "sealed_as ?L ?a1 0 [1] = (recvKey b, NonceFromSeq 0, BuildAAD 1 100 ''alice'' ''bob'' 0, d_Ciphertext d)"
      and ct: "d_Ciphertext d = chacha_Seal ?L (recvKey b) (NonceFromSeq 0) [1] (BuildAAD 1 100 ''alice'' ''bob'' 0)"
      by (simp_all add: d_def sealed_as_def data_msg_def a_def b_def new_session_def Let_def)
    have in_x1: "sealed_as ?L ?a1 0 [1] \<in> sealed ?L x1" by (auto simp: sealed_def x1_def)
    have u: "unforged ?L ?J (sealed ?L x1 \<union> sealed ?L (new_party b ?c)) (recvKey (sess (new_party b ?c))) ?f"
      unfolding unforged_def
    proof (intro allI impI)
      fix msg n ad p
      assume "dec_DataMsg ?J ?f = Some msg"
        and o: "chacha_Open ?L (recvKey (sess (new_party b ?c))) n (d_Ciphertext msg) ad = Some p"
      then have m: "msg = d" using dec(2) by simp
      then have e: "chacha_Seal ?L (recvKey b) (NonceFromSeq 0) [1] (BuildAAD 1 100 ''alice'' ''bob'' 0) =
          chacha_Seal ?L (recvKey b) n p ad" using o [unfolded box_lib_opens] ct by (simp add: new_party_def)
      show "(recvKey (sess (new_party b ?c)), n, ad, d_Ciphertext msg) \<in> sealed ?L x1 \<union> sealed ?L (new_party b ?c)"
        using box_lib_binds [OF e] m sealed1 in_x1 by (simp add: new_party_def)
    qed
    have "recv_frame ?L ?J ?f (b, ?c) = (Inr [1], (b\<lparr>replay := w\<rparr>, ?c))"
      using dec by (simp add: recv_frame_def TypeClose_def TypeData_def)
        (auto simp: d_def recv_data_msg [OF box_lib_correct] a_def b_def new_session_def w_def Accept_def NewReplayWindow_def)
    then show ?thesis
      using party_step.do_recv [OF u, of "Inr [1]" "b\<lparr>replay := w\<rparr>" ?c]
      by (intro net_step.right) (simp add: y2_def new_party_def)
  qed
  ultimately have run: "(net_step ?L ?J)\<^sup>*\<^sup>* (new_party a ?c, new_party b ?c) (x1, y2)"
    by (meson converse_rtranclp_into_rtranclp rtranclp.rtrancl_refl)
  have f: "sent x1 = [[1]]" "sent y2 = []" "got y2 = [[1]]" by (simp_all add: x1_def y2_def)
  obtain ab where "achan_step\<^sup>*\<^sup>* achan_start ab" "a_sent ab = [[1]]" "[[1 :: byte]] = map (\<lambda>i. [[1]] ! i) (a_taken ab)"
    using secure_channel [OF box_lib_correct _ _ _ run [unfolded a_def b_def]] unfolding f by simp metis
  then show ?thesis
    using run f unfolding a_def b_def by metis
qed

end
