(* ===== verification/SimpleProfile.thy ===== *)
theory SimpleProfile
  imports Session
begin

text \<open>
  The handshake of \<^verbatim>\<open>internal/p2p/session.go\<close> under the profile \<open>simple\<close>, where the general key is
  the day key of the organisation: only a hello and its acknowledgement go over the wire, no key is
  offered, and the session keys come from the day key, the two nonces and the two names.
\<close>

section \<open>Lemmas\<close>

lemma simple_params:
  assumes "effective_profile lc = ''simple''"
  shows "session_ikm L (default_profile (initiator_params lc eSK nonce ack e gk)) =
      (if length (GeneralKey_l lc) \<noteq> 32 then Inl SimpleNeedsOrgDayKey else Inr (GeneralKey_l lc))"
    and "session_ikm L (default_profile (responder_params lc eSK nonce hello e gk)) =
      (if length (GeneralKey_l lc) \<noteq> 32 then Inl SimpleNeedsOrgDayKey else Inr (GeneralKey_l lc))"
  using assms by (simp_all add: session_ikm_def default_profile_def initiator_params_def responder_params_def)

text \<open>Each side's derivation succeeds; with the same day key the results are each other's mirror image.\<close>

lemma simple_keys:
  assumes "hkdf_total L" "length (GeneralKey_l la) = 32" "length (GeneralKey_l lb) = 32"
    and prof: "effective_profile la = ''simple''" "effective_profile lb = ''simple''"
  obtains r kA kB r' kA' kB' where
    "DeriveSessionStrong L (initiator_params la eA nA (responder_ack lb epB nB) e gA) = Inr (r, kA, kB)"
    "DeriveSessionStrong L (responder_params lb eB nB (initiator_hello la epA nA) e gB) = Inr (r', kB', kA')"
    "GeneralKey_l la = GeneralKey_l lb \<Longrightarrow> kA' = kA \<and> kB' = kB"
proof -
  let ?p = "initiator_params la eA nA (responder_ack lb epB nB) e gA"
  let ?q = "responder_params lb eB nB (initiator_hello la epA nA) e gB"
  have ikm: "session_ikm L (default_profile ?p) = Inr (GeneralKey_l la)" "session_ikm L (default_profile ?q) = Inr (GeneralKey_l lb)"
    using assms(2,3) by (simp_all add: simple_params [OF prof(1)] simple_params [OF prof(2)])
  obtain r kA kB where A: "DeriveSessionStrong L ?p = Inr (r, kA, kB)"
    by (rule DeriveSessionStrong_total [OF assms(1) ikm(1)]) (simp_all add: initiator_params_def)
  obtain r' kB' kA' where B: "DeriveSessionStrong L ?q = Inr (r', kB', kA')"
    by (rule DeriveSessionStrong_total [OF assms(1) ikm(2)]) (simp_all add: responder_params_def)
  have "session_salt (default_profile ?q) = session_salt (default_profile ?p)"
    "session_info (default_profile ?q) = session_info (default_profile ?p)"
    using prof by (simp_all add: session_salt_def session_info_def default_profile_def initiator_params_def
        responder_params_def responder_ack_def initiator_hello_def)
  moreover have "DeviceIDA (default_profile ?q) = DeviceIDA (default_profile ?p)" "DeviceIDB (default_profile ?q) = DeviceIDB (default_profile ?p)"
    "LocalDeviceID (default_profile ?p) = DeviceIDA (default_profile ?p)" "LocalDeviceID (default_profile ?q) = DeviceIDB (default_profile ?q)"
    by (simp_all add: default_profile_def initiator_params_def responder_params_def responder_ack_def initiator_hello_def)
  ultimately have "kA' = kA \<and> kB' = kB" if "GeneralKey_l la = GeneralKey_l lb"
    using A(1) B(1) ikm that by (auto simp: DeriveSessionStrong_def Let_def split: sum.splits if_splits)
  with A B that show thesis by blast
qed

lemma simple_initiator_run:
  fixes L J cfg ack q
  defines "lc \<equiv> Local cfg" and "eSK \<equiv> take 32 q" and "nonce \<equiv> take 16 (drop 32 q)"
  assumes conn: "2 \<le> n" "48 \<le> length q" and kp: "keypair L eSK ePK"
    and prof: "effective_profile lc = ''simple''"
    and ack: "a_Type ack = TypeHelloAck" "a_Accept ack" "PeerDeviceID_c cfg = '''' \<or> a_DeviceID ack = PeerDeviceID_c cfg"
      "dec_HelloAck J (enc_HelloAck J ack) = Some ack" "framable (enc_HelloAck J ack)"
    and agree: "AgreeEpoch (EpochID_l lc) (a_EpochID ack) now DefaultGraceSeconds = (agreed, True)"
    and fits: "framable (enc_Hello J (initiator_hello lc ePK nonce))"
    and keys: "DeriveSessionStrong L (initiator_params lc eSK nonce ack agreed (GeneralKey_l lc)) = Inr (root, sk, rk)"
  shows "handshakeInitiator L J now cfg (open_end (frame (enc_HelloAck J ack) @ r) t n q) =
      (Inr (new_session (DeviceID_l lc) (a_DeviceID ack) agreed sk rk),
       open_end r (t @ frame (enc_Hello J (initiator_hello lc ePK nonce))) (n - 2) (drop 48 q))"
proof -
  let ?h = "enc_Hello J (initiator_hello lc ePK nonce)" let ?r = "frame (enc_HelloAck J ack) @ r"
  have 1: "with_rand (GenerateX25519 L) (open_end ?r t n q) = (Inr (eSK, ePK), open_end ?r t n (drop 32 q))"
    using kp conn by (subst with_rand_GenerateX25519) (auto simp: eSK_def)
  have 2: "randomNonce16 (open_end ?r t n (drop 32 q)) = (Inr nonce, open_end ?r t n (drop 48 q))"
    using conn by (simp add: randomNonce16_def with_rand_Read nonce_def)
  have 3: "writeJSON ?h (open_end ?r t n (drop 48 q)) = (Inr (), open_end ?r (t @ frame ?h) (n - 2) (drop 48 q))"
    using conn fits by (simp add: writeJSON_framable)
  have 4: "readJSON (dec_HelloAck J) (open_end ?r (t @ frame ?h) (n - 2) (drop 48 q)) =
      (Inr ack, open_end r (t @ frame ?h) (n - 2) (drop 48 q))"
    using ack by (subst readJSON_frame) auto
  show ?thesis
    unfolding handshakeInitiator_def Let_def lc_def [symmetric] pure_crypto_def
    using prof ack agree keys by (simp add: gbind_def 1 2 3 4)
qed

lemma simple_responder_run:
  fixes L J cfg hello q
  defines "lc \<equiv> Local cfg" and "eSK \<equiv> take 32 q" and "nonce \<equiv> take 16 (drop 32 q)"
  assumes conn: "2 \<le> n" "48 \<le> length q" and kp: "keypair L eSK ePK"
    and prof: "effective_profile lc = ''simple''"
    and hello: "h_Type hello = TypeHello" "h_Ver hello = 1" "PeerDeviceID_c cfg = '''' \<or> h_DeviceID hello = PeerDeviceID_c cfg"
      "dec_Hello J (enc_Hello J hello) = Some hello" "framable (enc_Hello J hello)"
    and agree: "AgreeEpoch (h_EpochID hello) (EpochID_l lc) now DefaultGraceSeconds = (agreed, True)"
    and fits: "framable (enc_HelloAck J (responder_ack lc ePK nonce))"
    and keys: "DeriveSessionStrong L (responder_params lc eSK nonce hello agreed (GeneralKey_l lc)) = Inr (root, sk, rk)"
  shows "handshakeResponder L J now cfg (open_end (frame (enc_Hello J hello) @ r) t n q) =
      (Inr (new_session (DeviceID_l lc) (h_DeviceID hello) agreed sk rk),
       open_end r (t @ frame (enc_HelloAck J (responder_ack lc ePK nonce))) (n - 2) (drop 48 q))"
proof -
  let ?a = "enc_HelloAck J (responder_ack lc ePK nonce)"
  have 1: "readJSON (dec_Hello J) (open_end (frame (enc_Hello J hello) @ r) t n q) = (Inr hello, open_end r t n q)"
    using hello by (subst readJSON_frame) auto
  have 2: "with_rand (GenerateX25519 L) (open_end r t n q) = (Inr (eSK, ePK), open_end r t n (drop 32 q))"
    using kp conn by (subst with_rand_GenerateX25519) (auto simp: eSK_def)
  have 3: "randomNonce16 (open_end r t n (drop 32 q)) = (Inr nonce, open_end r t n (drop 48 q))"
    using conn by (simp add: randomNonce16_def with_rand_Read nonce_def)
  have 4: "writeJSON ?a (open_end r t n (drop 48 q)) = (Inr (), open_end r (t @ frame ?a) (n - 2) (drop 48 q))"
    using conn fits by (simp add: writeJSON_framable)
  show ?thesis
    unfolding handshakeResponder_def Let_def lc_def [symmetric] pure_crypto_def
    using prof hello agree keys by (simp add: gbind_def 1 2 3 4)
qed

section \<open>Properties\<close>

text \<open>
  C6: Under the profile \<open>simple\<close> the handshake of two devices whose clocks agree on the epoch always
  completes, on one message each way, and the two sessions have the same keys whenever the
  devices hold the same day key. Nothing confirms that they do: with different day keys both sides
  still return a session.
\<close>

theorem simple_handshake:
  assumes lib: "x25519_total L" "hkdf_total L" and codec: "codec_ok J" "codec_fits J"
    and creds: "creds_ok L (Local cfgA)" "creds_ok L (Local cfgB)"
    and profile: "effective_profile (Local cfgA) = ''simple''" "effective_profile (Local cfgB) = ''simple''"
    and pins: "PeerDeviceID_c cfgA \<in> {'''', DeviceID_l (Local cfgB)}" "PeerDeviceID_c cfgB \<in> {'''', DeviceID_l (Local cfgA)}"
    and epochs: "AgreeEpoch (EpochID_l (Local cfgA)) (EpochID_l (Local cfgB)) nowA DefaultGraceSeconds = (e, True)"
      "AgreeEpoch (EpochID_l (Local cfgA)) (EpochID_l (Local cfgB)) nowB DefaultGraceSeconds = (e, True)"
    and conn: "2 \<le> nA" "48 \<le> length qA" "2 \<le> nB" "48 \<le> length qB"
  shows "\<exists>streamA streamB kA kB kA' kB'.
      handshakeInitiator L J nowA cfgA (open_end streamB [] nA qA) =
        (Inr (new_session (DeviceID_l (Local cfgA)) (DeviceID_l (Local cfgB)) e kA kB),
         open_end [] streamA (nA - 2) (drop 48 qA)) \<and>
      handshakeResponder L J nowB cfgB (open_end streamA [] nB qB) =
        (Inr (new_session (DeviceID_l (Local cfgB)) (DeviceID_l (Local cfgA)) e kB' kA'),
         open_end [] streamB (nB - 2) (drop 48 qB)) \<and>
      (GeneralKey_l (Local cfgA) = GeneralKey_l (Local cfgB) \<longrightarrow> kA' = kA \<and> kB' = kB)"
proof -
  let ?la = "Local cfgA" and ?lb = "Local cfgB"
  let ?eA = "take 32 qA" and ?rA = "take 16 (drop 32 qA)" and ?eB = "take 32 qB" and ?rB = "take 16 (drop 32 qB)"
  have len: "length ?eA = 32" "length ?eB = 32" "length ?rA = 16" "length ?rB = 16" using conn by simp_all
  obtain epA epB where eph: "keypair L ?eA epA" "keypair L ?eB epB"
    using lib(1) len by (metis x25519_total_def)
  then have epl: "length epA = 32" "length epB = 32" by (simp_all add: keypair_length)
  have gk: "length (GeneralKey_l ?la) = 32" "length (GeneralKey_l ?lb) = 32" using creds by (simp_all add: creds_ok_def)
  obtain r kA kB r' kA' kB' where keys:
    "DeriveSessionStrong L (initiator_params ?la ?eA ?rA (responder_ack ?lb epB ?rB) e (GeneralKey_l ?la)) = Inr (r, kA, kB)"
    "DeriveSessionStrong L (responder_params ?lb ?eB ?rB (initiator_hello ?la epA ?rA) e (GeneralKey_l ?lb)) = Inr (r', kB', kA')"
    "GeneralKey_l ?la = GeneralKey_l ?lb \<Longrightarrow> kA' = kA \<and> kB' = kB"
    by (rule simple_keys [OF lib(2) gk profile, of ?eA ?rA epB ?rB e "GeneralKey_l ?la" ?eB epA "GeneralKey_l ?lb"]) blast
  let ?hello = "initiator_hello ?la epA ?rA" and ?ack = "responder_ack ?lb epB ?rB"
  note hello = hello_codec [OF codec creds(1) epl(1) len(3)] and ack = ack_codec [OF codec creds(2) epl(2) len(4)]
  have A: "handshakeInitiator L J nowA cfgA (open_end (frame (enc_HelloAck J ?ack) @ []) [] nA qA) =
      (Inr (new_session (DeviceID_l ?la) (a_DeviceID ?ack) e kA kB), open_end [] ([] @ frame (enc_Hello J ?hello)) (nA - 2) (drop 48 qA))"
    by (rule simple_initiator_run [OF conn(1,2) eph(1) profile(1)])
      (use pins epochs hello ack keys in auto)
  have B: "handshakeResponder L J nowB cfgB (open_end (frame (enc_Hello J ?hello) @ []) [] nB qB) =
      (Inr (new_session (DeviceID_l ?lb) (h_DeviceID ?hello) e kB' kA'), open_end [] ([] @ frame (enc_HelloAck J ?ack)) (nB - 2) (drop 48 qB))"
    by (rule simple_responder_run [OF conn(3,4) eph(2) profile(2)])
      (use pins epochs hello ack keys in \<open>auto simp: initiator_hello_def\<close>)
  have "h_DeviceID ?hello = DeviceID_l ?la" by (simp add: initiator_hello_def)
  then show ?thesis
    using A B keys(3) unfolding append_Nil append_Nil2 responder_ack_sel by metis
qed

definition simple_device :: "SessionConfig \<Rightarrow> SessionConfig" where
  "simple_device cfg = cfg\<lparr>Local := (Local cfg)\<lparr>GeneralKey_l := replicate 32 6, Profile_l := ''simple''\<rparr>\<rparr>"

theorem simple_handshake_witness:
  "\<exists>streamA streamB kA kB.
      handshakeInitiator xor_lib field_codec (8640000 * 10 ^ 9) (simple_device alice)
        (open_end streamB [] 2 (replicate 48 3)) =
        (Inr (new_session ''alice'' ''bob'' 100 kA kB), open_end [] streamA 0 []) \<and>
      handshakeResponder xor_lib field_codec (8640005 * 10 ^ 9) (simple_device bob)
        (open_end streamA [] 2 (replicate 48 4)) =
        (Inr (new_session ''bob'' ''alice'' 100 kB kA), open_end [] streamB 0 [])"
proof -
  have "AgreeEpoch 100 100 (8640000 * 10 ^ 9) DefaultGraceSeconds = (100, True)"
    "AgreeEpoch 100 100 (8640005 * 10 ^ 9) DefaultGraceSeconds = (100, True)"
    by code_simp+
  moreover have "creds_ok xor_lib (Local (simple_device alice))" "creds_ok xor_lib (Local (simple_device bob))"
    by (simp_all add: creds_ok_def keypair_xor_lib simple_device_def alice_def bob_def ascii_def)
  ultimately show ?thesis
    using simple_handshake [OF xor_lib_laws(1,4) field_codec_laws, of "simple_device alice" "simple_device bob"
        "8640000 * 10 ^ 9" 100 "8640005 * 10 ^ 9" 2 "replicate 48 3" 2 "replicate 48 4"]
    by (auto simp: simple_device_def alice_def bob_def effective_profile_def)
qed

end
