(* ===== verification/Impostor.thy ===== *)
theory Impostor
  imports Exchange
begin

text \<open>
  What the handshake of \<^verbatim>\<open>internal/p2p/session.go\<close> does not establish. Neither side compares the
  identity key of the peer with anything, and the general key in a key offer is only checked for
  its length, so the device name in a hello is the peer's own statement. Here a party with keys
  of its own making and 32 zero bytes for a general key completes the handshake of the program
  under any name, in either role, and reads the general key of the device it talks to. At an agent
  it takes over the conversation with the peer of that name.
\<close>

definition impostor :: "string \<Rightarrow> bytes \<Rightarrow> bytes \<Rightarrow> u64 \<Rightarrow> string \<Rightarrow> SessionConfig" where
  "impostor name sk pk epoch profile =
     \<lparr>Local = \<lparr>DeviceID_l = name, IdentitySK_l = sk, IdentityPK_l = pk, GeneralKey_l = replicate 32 0,
        KeySerial_l = 0, EpochID_l = epoch, Profile_l = profile\<rparr>,
      PeerGeneralKey = [], PeerDeviceID_c = ''''\<rparr>"

lemma impostor_sel [simp]:
  "DeviceID_l (Local (impostor name sk pk epoch profile)) = name"
  "IdentitySK_l (Local (impostor name sk pk epoch profile)) = sk"
  "IdentityPK_l (Local (impostor name sk pk epoch profile)) = pk"
  "EpochID_l (Local (impostor name sk pk epoch profile)) = epoch"
  "Profile_l (Local (impostor name sk pk epoch profile)) = profile"
  "PeerDeviceID_c (impostor name sk pk epoch profile) = ''''"
  by (simp_all add: impostor_def)

lemma impostor_equipped:
  assumes "creds_ok L (Local victim)" "keypair L sk pk" "ascii name" "length name \<le> 4096"
  shows "creds_ok L (Local (impostor name sk pk epoch (Profile_l (Local victim))))"
    and "effective_profile (Local (impostor name sk pk epoch (Profile_l (Local victim)))) =
      effective_profile (Local victim)"
  using assms by (simp_all add: creds_ok_def impostor_def effective_profile_def)

lemma AgreeEpoch_same:
  "EpochValidForUse e now DefaultGraceSeconds \<Longrightarrow> AgreeEpoch e e now DefaultGraceSeconds = (e, True)"
  by (simp add: AgreeEpoch_def DefaultGraceSeconds_def)

text \<open>
  C11: The name of a peer is not authenticated. Take a device whose credentials are good, at a time
  when its epoch is in use, and a name that it has pinned as the peer it wants, or any name if it
  has pinned none. A party that has only a key pair of its own and no key of the authority (its
  general key is 32 zero bytes) gets through: when the device dials and the party answers, and when
  the party dials and the device answers, the device ends with a session whose peer is the name,
  the party ends with the same session keys, and the general key of the device, which the
  authority issued to it alone, opens from what the device wrote.
\<close>

theorem impostor_accepted:
  assumes lib: "x25519_total L" "dh_agrees L" "aead_correct L" "aead_overhead L" "hkdf_total L"
    and codec: "codec_ok J" "codec_fits J"
    and victim: "creds_ok L (Local victim)" "effective_profile (Local victim) \<noteq> ''simple''"
      "EpochValidForUse (EpochID_l (Local victim)) now DefaultGraceSeconds"
      "PeerDeviceID_c victim \<in> {'''', name}"
    and party: "keypair L sk pk" "ascii name" "length name \<le> 4096"
    and conn: "4 \<le> n" "60 \<le> length q" "4 \<le> n'" "60 \<le> length q'"
  shows "let v = Local victim; e = EpochID_l v; imp = impostor name sk pk e (Profile_l v) in
    (\<exists>to from k k' wrap epV offer.
       handshakeInitiator L J now victim (open_end from [] n q) =
         (Inr (new_session (DeviceID_l v) name e k k'), open_end [] to (n - 4) (drop 60 q)) \<and>
       handshakeResponder L J now imp (open_end to [] n' q') =
         (Inr (new_session name (DeviceID_l v) e k' k), open_end [] from (n' - 4) (drop 60 q')) \<and>
       to = frame (enc_Hello J (initiator_hello v epV (take 16 (drop 32 q)))) @ frame (enc_KeyOffer J offer) \<and>
       DeriveWrapKey L sk (IdentityPK_l v) (take 32 q') epV
         (take 16 (drop 32 q)) (take 16 (drop 32 q')) e (DeviceID_l v) name = Inr wrap \<and>
       openGeneralKey L wrap offer e (DeviceID_l v) = Inr (GeneralKey_l v)) \<and>
    (\<exists>to from k k' wrap epV offer.
       handshakeInitiator L J now imp (open_end from [] n' q') =
         (Inr (new_session name (DeviceID_l v) e k' k), open_end [] to (n' - 4) (drop 60 q')) \<and>
       handshakeResponder L J now victim (open_end to [] n q) =
         (Inr (new_session (DeviceID_l v) name e k k'), open_end [] from (n - 4) (drop 60 q)) \<and>
       from = frame (enc_HelloAck J (responder_ack v epV (take 16 (drop 32 q)))) @ frame (enc_KeyOffer J offer) \<and>
       DeriveWrapKey L sk (IdentityPK_l v) (take 32 q') epV
         (take 16 (drop 32 q')) (take 16 (drop 32 q)) e name (DeviceID_l v) = Inr wrap \<and>
       openGeneralKey L wrap offer e (DeviceID_l v) = Inr (GeneralKey_l v))"
proof -
  let ?v = "Local victim" let ?e = "EpochID_l ?v" let ?i = "impostor name sk pk ?e (Profile_l ?v)"
  note imp = impostor_equipped [OF victim(1) party, of ?e]
  have prof: "effective_profile (Local ?i) \<noteq> ''simple''" using imp(2) victim(2) by simp
  have agree: "AgreeEpoch ?e ?e now DefaultGraceSeconds = (?e, True)" by (rule AgreeEpoch_same [OF victim(3)])
  have pins: "PeerDeviceID_c victim \<in> {'''', DeviceID_l (Local ?i)}" "PeerDeviceID_c ?i \<in> {'''', DeviceID_l ?v}"
    using victim(4) by simp_all
  have agree': "AgreeEpoch ?e (EpochID_l (Local ?i)) now DefaultGraceSeconds = (?e, True)"
    "AgreeEpoch (EpochID_l (Local ?i)) ?e now DefaultGraceSeconds = (?e, True)"
    using agree by simp_all
  show ?thesis
    unfolding Let_def
  proof (intro conjI, goal_cases)
    case 1
    show ?case
      by (rule handshake_transcript [OF lib codec victim(1) imp(1) imp(2) [symmetric] victim(2) pins
            agree'(1,1) conn]) (unfold impostor_sel, blast)
  next
    case 2
    show ?case
      by (rule handshake_transcript [OF lib codec imp(1) victim(1) imp(2) prof pins(2,1)
            agree'(2,2) conn(3,4,1,2)]) (unfold impostor_sel, blast)
  qed
qed

theorem impostor_accepted_witness:
  "\<exists>to from k k' wrap hello offer.
       handshakeInitiator xor_lib field_codec (8640000 * 10 ^ 9) alice (open_end from [] 4 (replicate 60 3)) =
         (Inr (new_session ''alice'' ''bob'' 100 k k'), open_end [] to 0 []) \<and>
       handshakeResponder xor_lib field_codec (8640000 * 10 ^ 9)
         (impostor ''bob'' (replicate 32 11) (xor_bytes (replicate 32 11) (9 # replicate 31 0)) 100 '''')
         (open_end to [] 4 (replicate 60 4)) =
         (Inr (new_session ''bob'' ''alice'' 100 k' k), open_end [] from 0 []) \<and>
       to = hello @ frame (enc_KeyOffer field_codec offer) \<and>
       openGeneralKey xor_lib wrap offer 100 ''alice'' = Inr (replicate 32 1)"
proof -
  have v: "EpochValidForUse 100 (8640000 * 10 ^ 9) DefaultGraceSeconds" by code_simp
  have a: "DeviceID_l (Local alice) = ''alice''" "EpochID_l (Local alice) = 100" "Profile_l (Local alice) = ''''"
    "GeneralKey_l (Local alice) = replicate 32 1" "PeerDeviceID_c alice = ''bob''" "effective_profile (Local alice) = ''strong''"
    by (simp_all add: alice_def effective_profile_def)
  have c: "(4 :: nat) - 4 = 0" "drop 60 (replicate 60 (3 :: byte)) = []" "drop 60 (replicate 60 (4 :: byte)) = []"
    by simp_all
  show ?thesis
    using impostor_accepted [OF xor_lib_laws(1,2,3,5,4) field_codec_laws alice_bob_creds(1), of
        "8640000 * 10 ^ 9" "''bob''" "replicate 32 11" "xor_bytes (replicate 32 11) (9 # replicate 31 0)"
        4 "replicate 60 3" 4 "replicate 60 4", unfolded a c Let_def, OF _ v, THEN conjunct1]
    by (simp add: keypair_xor_lib ascii_def del: replicate.simps) metis
qed

section \<open>What an agent does with an impostor\<close>

text \<open>A text to a peer whose session is at the end of the heap.\<close>

lemma send_to_registered:
  assumes "map_of (hub_sessions h) name = Some p" "hub_heap h ! p = (s, c)" "p < length (hub_heap h)" "name \<noteq> ''''"
    and "Send L J (bytes_of text) (s, c) = (Inr (), sc)"
  shows "local_serve L J env api (''Bearer '' @ Token_o api) (LSend (Some (name, text))) h =
    ((200, LOK), h\<lparr>hub_heap := (hub_heap h)[p := sc]\<rparr>)"
  using assms by (simp add: local_serve_def auth_def local_route_def api_handleSend_def hub_Send_def)

lemma accept_finish_closes_old:
  assumes "map_of (hub_sessions h) (peerID s) = Some p" "p < length (hub_heap h)"
  shows "closed (fst (hub_heap (accept_finish J s c h) ! p))"
  using assms close_at_closed [of h p p J "''replaced''"]
  by (simp add: accept_finish_def add_session_def Let_def nth_append)



end
