(* ===== verification/Revocation.thy ===== *)
theory Revocation
  imports NodeRun
begin

text \<open>
  What a revocation at the key authority does to a node that is running: \<open>handleRevoke\<close> of
  \<^verbatim>\<open>internal/kaapi/server.go\<close>, the hourly refresh of \<^verbatim>\<open>cmd/coe-node/main.go\<close> and the epoch check of
  the handshake in \<^verbatim>\<open>internal/p2p/session.go\<close> taken together. Other clients use the authority at the
  same time, the network may lose any request, and the goroutines of the node interleave.
\<close>

section \<open>A handshake needs an epoch in use\<close>

lemma EpochValidForUse_current: "EpochValidForUse (EpochID now) now g"
  by (simp add: EpochValidForUse_def Let_def)

lemma AgreeEpoch_both:
  assumes "AgreeEpoch a b now DefaultGraceSeconds = (e, True)"
  shows "EpochValidForUse a now DefaultGraceSeconds" "EpochValidForUse b now DefaultGraceSeconds"
  using assms EpochValidForUse_current [of now]
  by (auto simp: AgreeEpoch_def Let_def DefaultGraceSeconds_def split: if_splits)

lemma handshakeInitiator_epoch:
  assumes "handshakeInitiator L J now cfg c = (Inr s, c')"
  shows "EpochValidForUse (EpochID_l (Local cfg)) now DefaultGraceSeconds"
  using assms AgreeEpoch_both
  by (auto simp: handshakeInitiator_def Let_def gbind_def gerr_def split: prod.splits sum.splits if_splits)

lemma handshakeResponder_epoch:
  assumes "handshakeResponder L J now cfg c = (Inr s, c')"
  shows "EpochValidForUse (EpochID_l (Local cfg)) now DefaultGraceSeconds"
    and "readJSON (dec_Hello J) c = (Inr hello, c1) \<Longrightarrow> EpochValidForUse (h_EpochID hello) now DefaultGraceSeconds"
  using assms AgreeEpoch_both
  by (auto simp: handshakeResponder_def Let_def gbind_def gerr_def split: prod.splits sum.splits if_splits)

section \<open>A world in which a device is revoked\<close>

type_synonym 's ka_world = "RateLimiter option \<times> 's Server \<times> time list"

definition barred :: "'s Store \<Rightarrow> ('s \<Rightarrow> bool) \<Rightarrow> string \<Rightarrow> 's ka_world \<Rightarrow> bool" where
  "barred S invar d = (\<lambda>(lim, st, ts). invar (Registry_f st) \<and>
     (\<exists>rec. st_Get S d (Registry_f st) = Some rec \<and> Revoked rec))"

text \<open>
  A node beside the other clients of the authority: either a goroutine of the node takes a step,
  or the authority serves other requests, none of which enrolls the device anew. The times at
  which later requests of the node arrive are chosen here too; a request without one is lost.
\<close>

inductive shared_step ::
    "'s ka_world program \<Rightarrow> 's Store \<Rightarrow> crypto_lib \<Rightarrow> ed25519_lib \<Rightarrow> (bytes \<Rightarrow> bytes) \<Rightarrow> 's ka_world running \<Rightarrow> 's ka_world running \<Rightarrow> bool"
  for P S L E sha where
  own: "node_step P s s' \<Longrightarrow> shared_step P S L E sha s s'"
| others: "nd_net (rn_node s) = (lim, st, ts) \<Longrightarrow> serve_all S L E sha xs st = (resps, st') \<Longrightarrow>
    \<forall>(now, r, c) \<in> set xs. enroll_target c \<noteq> Some (DeviceID_n (pg_cfg P)) \<Longrightarrow>
    shared_step P S L E sha s (s\<lparr>rn_node := (rn_node s)\<lparr>nd_net := (lim', st', ts')\<rparr>\<rparr>)"

text \<open>
  What no later step changes: the key that the node knows, and the credentials, except that a
  refresh under way may still hand that key to the hub. A node whose refresh is waiting keeps its
  key store and its credentials.
\<close>

definition frozen :: "'w program \<Rightarrow> 'w running \<Rightarrow> 'w running \<Rightarrow> bool" where
  "frozen P s s' \<longleftrightarrow> rn_key s' = rn_key s \<and>
     hub_creds (rn_hub s') \<in> {hub_creds (rn_hub s), key_creds (pg_cfg P) (pg_identity P) (rn_key s)} \<and>
     (rn_pc s = RefreshWaits \<longrightarrow> rn_pc s' = RefreshWaits \<and> nd_keys (rn_node s') = nd_keys (rn_node s) \<and>
        hub_creds (rn_hub s') = hub_creds (rn_hub s))"

lemma frozen_trans: "frozen P s s' \<Longrightarrow> frozen P s' t \<Longrightarrow> frozen P s t"
  by (auto simp: frozen_def)

text \<open>
  What the node and its peers see of it: the node's key is no longer changed, and once the epochs
  of its key and of its credentials are over, grace included, it completes no handshake in either
  role, and no peer that reads a hello with its epoch does.
\<close>

definition locked_out :: "'w program \<Rightarrow> 'w running \<Rightarrow> 'w running \<Rightarrow> bool" where
  "locked_out P s s' \<longleftrightarrow> frozen P s s' \<and>
     (\<forall>now. \<not> EpochValidForUse (EpochID_s (rn_key s)) now DefaultGraceSeconds \<longrightarrow>
        \<not> EpochValidForUse (EpochID_l (hub_creds (rn_hub s))) now DefaultGraceSeconds \<longrightarrow>
        (\<forall>peer c t c'. handshakeInitiator (pg_crypto P) (pg_codec P) now (pinned (hub_creds (rn_hub s')) peer) c \<noteq> (Inr t, c')) \<and>
        (\<forall>peer c t c'. handshakeResponder (pg_crypto P) (pg_codec P) now (pinned (hub_creds (rn_hub s')) peer) c \<noteq> (Inr t, c')) \<and>
        (\<forall>cfg c hello c1 t c'. readJSON (dec_Hello (pg_codec P)) c = (Inr hello, c1) \<longrightarrow>
           h_EpochID hello = EpochID_l (hub_creds (rn_hub s')) \<longrightarrow>
           handshakeResponder (pg_crypto P) (pg_codec P) now cfg c \<noteq> (Inr t, c')))"

lemma locked_outI:
  assumes "frozen P s s'"
  shows "locked_out P s s'"
proof -
  have "EpochID_l (hub_creds (rn_hub s')) \<in> {EpochID_l (hub_creds (rn_hub s)), EpochID_s (rn_key s)}"
    using assms by (auto simp: frozen_def key_creds_def)
  then show ?thesis
    using assms handshakeInitiator_epoch handshakeResponder_epoch
    by (fastforce simp: locked_out_def pinned_def)
qed

lemma update_check_world: "snd (update_check get os arch w) = snd (get (update_query node_version os arch) w)"
  by (simp add: update_check_def client_CheckUpdate_def split: prod.splits sum.splits option.splits)

context ka_store
begin

lemma serve_barred:
  assumes "barred S invar d (lim, st, ts)" "enroll_target c \<noteq> Some d"
  shows "barred S invar d (lim', snd (serve S L E sha now r c st), ts')"
proof -
  obtain rec where inv: "invar (Registry_f st)" and rec: "devs (abs (Registry_f st)) d = Some rec" "Revoked rec"
    using assms(1) get by (auto simp: barred_def)
  have "quiet (enroll_target c) (Registry_f st) (Registry_f (snd (serve S L E sha now r c st)))"
    by (rule serve_quiet [OF inv])
  then obtain cs where "invar (Registry_f (snd (serve S L E sha now r c st)))"
    "ka_run hash (abs (Registry_f st)) cs (abs (Registry_f (snd (serve S L E sha now r c st))))" "\<forall>c \<in> set cs. \<not> enrolls d c"
    using assms(2) unfolding quiet_def by metis
  then show ?thesis using revoked_run [OF _ rec] get by (auto simp: barred_def)
qed

lemma serve_all_barred:
  assumes "barred S invar d (lim, st, ts)" "\<forall>(now, r, c) \<in> set xs. enroll_target c \<noteq> Some d"
    "serve_all S L E sha xs st = (resps, st')"
  shows "barred S invar d (lim', st', ts')"
  using assms
proof (induction xs arbitrary: st resps lim ts)
  case (Cons x xs)
  obtain now r c where x: "x = (now, r, c)" by (cases x)
  obtain rs where "serve_all S L E sha xs (snd (serve S L E sha now r c st)) = (rs, st')"
    using Cons.prems(3) x by (auto simp: split_beta) (metis prod.collapse)
  moreover have "barred S invar d (lim, snd (serve S L E sha now r c st), ts)"
    using serve_barred [OF Cons.prems(1)] Cons.prems(2) x by auto
  ultimately show ?case using Cons.IH Cons.prems(2) by auto
qed (auto simp: barred_def)

lemma direct_barred:
  assumes "barred S invar d w" "enroll_target c \<noteq> Some d" "direct S L E sha r c w = (resp, w')"
  shows "barred S invar d w'"
proof -
  obtain lim st ts where w: "w = (lim, st, ts)" by (cases w)
  show ?thesis
    using assms serve_barred [OF assms(1) [unfolded w] assms(2)] unfolding w
    by (auto simp: direct_def HandlerWithLimit_def barred_def split: list.splits prod.splits option.splits sum.splits)
      (metis snd_conv)+
qed

text \<open>Behind the limiter as without it, no key comes for a revoked device.\<close>

lemma direct_no_key:
  assumes "barred S invar d w" "direct S L E sha r (CIssue (Some req)) w = (Some (code, IssueBody a), w')"
  shows "TrimSpace (DeviceID_q req) \<noteq> d"
proof
  assume d: "TrimSpace (DeviceID_q req) = d"
  obtain lim st ts where w: "w = (lim, st, ts)" by (cases w)
  have "\<exists>now r st'. handleIssue S L E now r (Some req) st = ((code, IssueBody a), st')"
    using assms(2) unfolding w
    by (fastforce simp: direct_def HandlerWithLimit_def serve_def writeErr_def
        split: list.splits prod.splits option.splits sum.splits)
  then obtain now r st' where h: "handleIssue S L E now r (Some req) st = ((code, IssueBody a), st')" by blast
  have inv: "invar (Registry_f st)" using assms(1) w by (auto simp: barred_def)
  show False
    using issue_justified [OF inv h] assms(1) w d by (auto simp: issue_justified_def barred_def)
qed

lemma doJSON_barred:
  assumes "barred S invar d w" "enroll_target c \<noteq> Some d" "doJSON (direct S L E sha) cl path c admin w = (r, w')"
  shows "barred S invar d w'"
  using assms direct_barred [OF assms(1,2)]
  by (auto simp: doJSON_def split: prod.splits option.splits)

lemma client_Health_barred:
  assumes "barred S invar d w" "client_Health (direct S L E sha) cl w = (r, w')"
  shows "barred S invar d w'"
proof -
  obtain q w1 where q: "doJSON (direct S L E sha) cl ''/v1/health'' CHealth False w = (q, w1)" by (meson surj_pair)
  with assms(2) have "w' = w1"
    by (auto simp: client_Health_def gbind_def decode_def split: sum.splits option.splits)
  then show ?thesis using doJSON_barred [OF assms(1) _ q] by (simp add: enroll_target_def)
qed

lemma client_IssueKey_barred:
  assumes "barred S invar d w" "TrimSpace (DeviceID_q req) = d" "client_IssueKey E' (direct S L E sha) cl req w = (r, w')"
  shows "barred S invar d w' \<and> (\<exists>e. r = Inl e)"
proof -
  define req' where "req' = (let req = (if Profile_q req = '''' then req\<lparr>Profile_q := ''strong''\<rparr> else req)
    in if length (SignKey_k cl) > 0 then req\<lparr>Signature_q :=
         SignIssue E' (SignKey_k cl) (DeviceID_q req) (Nonce_q req) (ClientTime_q req) (Profile_q req)\<rparr> else req)"
  have req: "DeviceID_q req' = DeviceID_q req" by (simp add: req'_def Let_def)
  have g: "gbind (doJSON (direct S L E sha) cl ''/v1/key/issue'' (CIssue (Some req')) False)
      (decode (\<lambda>b. case b of IssueBody a \<Rightarrow> Some a | _ \<Rightarrow> None)) w = (r, w')"
    using assms(3) unfolding client_IssueKey_def req'_def Let_def .
  obtain q w1 where q: "doJSON (direct S L E sha) cl ''/v1/key/issue'' (CIssue (Some req')) False w = (q, w1)"
    by (meson surj_pair)
  have "q \<noteq> Inr (IssueBody a)" for a
  proof
    assume "q = Inr (IssueBody a)"
    with q obtain code where "direct S L E sha (client_request cl ''/v1/key/issue'' False) (CIssue (Some req')) w =
        (Some (code, IssueBody a), w1)"
      by (auto simp: doJSON_def split: prod.splits option.splits if_splits body.splits)
    from direct_no_key [OF assms(1) this] assms(2) req show False by simp
  qed
  then have "\<exists>e. r = Inl e" "w' = w1"
    using g q by (auto simp: gbind_def decode_def split: sum.splits option.splits body.splits)
  then show ?thesis using doJSON_barred [OF assms(1) _ q] by (simp add: enroll_target_def)
qed

lemma issueKey_barred:
  assumes "barred S invar (DeviceID_n cfg) w" "TrimSpace (DeviceID_n cfg) = DeviceID_n cfg"
    and "issueKey E' (direct S L E sha) t nonce cl cfg (ck, w) = (r, ck', w')"
  shows "barred S invar (DeviceID_n cfg) w' \<and> (\<exists>e. r = Inl e)"
proof -
  obtain h w1 where h: "client_Health (direct S L E sha) cl w = (h, w1)" by (meson surj_pair)
  have "barred S invar (DeviceID_n cfg) w1" using client_Health_barred [OF assms(1) h] .
  note i = client_IssueKey_barred [OF this, of "\<lparr>DeviceID_q = DeviceID_n cfg, EpochHint_q = hint, Nonce_q = nonce,
    ClientTime_q = ct, Profile_q = p, Signature_q = []\<rparr>" for hint ct p]
  show ?thesis
    using assms(2,3) h i by (auto simp: issueKey_def Let_def split: prod.splits sum.splits if_splits)
qed

text \<open>Every step of the node leaves it frozen and the device revoked.\<close>

lemma node_step_frozen:
  assumes "node_step P s s'" and http: "pg_http P = direct S L E sha" and upd: "\<And>u w. snd (pg_get P u w) = w"
    and id: "TrimSpace (DeviceID_n (pg_cfg P)) = DeviceID_n (pg_cfg P)"
    and b: "barred S invar (DeviceID_n (pg_cfg P)) (nd_net (rn_node s))"
  shows "barred S invar (DeviceID_n (pg_cfg P)) (nd_net (rn_node s')) \<and> frozen P s s'"
  using assms(1)
proof (cases rule: node_step.cases)
  case (tick t nonce)
  obtain r ck w where i: "issueKey (lib_ed (pg_lib P)) (direct S L E sha) t nonce (pg_client P) (pg_cfg P)
      (nd_clock (rn_node s), nd_net (rn_node s)) = (r, ck, w)" by (cases rule: prod_cases3)
  show ?thesis
    using issueKey_barred [OF b id i] tick i http by (auto simp: refresh_issue_def Let_def frozen_def)
next
  case (update l w)
  have "w = nd_net (rn_node s)"
    using update(2) upd update_check_world [of "pg_get P" "pg_os P" "pg_arch P" "nd_net (rn_node s)"] by simp
  then show ?thesis using update b by (simp add: frozen_def)
next
  case (accept a)
  then show ?thesis using b by (simp add: frozen_def)
next
  case (call env tok c resp h)
  then have "hub_creds h = hub_creds (rn_hub s)" using creds_local_serve by (metis snd_conv)
  then show ?thesis using call b by (simp add: frozen_def)
next
  case (hub h)
  then show ?thesis using b agent_step_creds [OF hub(2,3)] by (simp add: frozen_def)
qed (use b in \<open>simp_all add: frozen_def refresh_store_def refresh_set_def SetCreds_def Let_def\<close>)

lemma shared_run_frozen:
  assumes "(shared_step P S L E sha)\<^sup>*\<^sup>* s s'" "pg_http P = direct S L E sha" "\<And>u w. snd (pg_get P u w) = w"
    "TrimSpace (DeviceID_n (pg_cfg P)) = DeviceID_n (pg_cfg P)"
    "barred S invar (DeviceID_n (pg_cfg P)) (nd_net (rn_node s))"
  shows "barred S invar (DeviceID_n (pg_cfg P)) (nd_net (rn_node s')) \<and> frozen P s s'"
  using assms(1)
proof (induction rule: rtranclp_induct)
  case base
  show ?case using assms(5) by (simp add: frozen_def)
next
  case (step x y)
  from step(2) show ?case
  proof cases
    case own
    then show ?thesis using node_step_frozen [OF own assms(2-4)] step.IH frozen_trans by blast
  next
    case (others lim st ts xs resps st' lim' ts')
    then show ?thesis using serve_all_barred step.IH by (auto simp: frozen_def)
  qed
qed

text \<open>An accepted revocation, and everything after it.\<close>

lemma handleRevoke_barred:
  assumes "invar (Registry_f st)" "serve S L E sha now r (CRevoke (Some req)) st = ((200, b), st1)"
  shows "barred S invar (DeviceID_rr req) (lim, st1, ts)"
proof -
  obtain res g where g: "st_Revoke S (DeviceID_rr req) (Registry_f st) = (res, g)" by fastforce
  have "res = Inr () \<and> Registry_f st1 = g"
    using assms(2) g by (auto simp: serve_def handleRevoke_def writeErr_def split: if_splits sum.splits)
  moreover have "invar g" "revoke_spec (DeviceID_rr req) (abs (Registry_f st)) res (abs g)"
    using revoke [OF assms(1) g] by simp_all
  ultimately show ?thesis
    using get by (auto simp: barred_def revoke_spec_def saved_def split: option.splits)
qed

lemma revocation_locks:
  assumes "pg_http P = direct S L E sha" "\<And>u w. snd (pg_get P u w) = w"
    and "TrimSpace (DeviceID_n (pg_cfg P)) = DeviceID_n (pg_cfg P)"
    and "invar (Registry_f st)" "serve S L E sha now r (CRevoke (Some req)) st = ((200, b), st1)"
    and "DeviceID_rr req = DeviceID_n (pg_cfg P)"
    and "(shared_step P S L E sha)\<^sup>*\<^sup>* (s\<lparr>rn_node := (rn_node s)\<lparr>nd_net := (lim, st1, ts)\<rparr>\<rparr>) s'"
  shows "locked_out P s s'"
proof -
  let ?s = "s\<lparr>rn_node := (rn_node s)\<lparr>nd_net := (lim, st1, ts)\<rparr>\<rparr>"
  have "barred S invar (DeviceID_n (pg_cfg P)) (nd_net (rn_node ?s))"
    using handleRevoke_barred [OF assms(4,5)] assms(6) by simp
  then have "frozen P ?s s'" using shared_run_frozen [OF assms(7,1-3)] by blast
  then show ?thesis by (intro locked_outI) (simp add: frozen_def)
qed

end

section \<open>Properties\<close>

text \<open>
  C9: A revocation reaches a running node. When the authority, over either store, has answered
  an administrator's request to revoke the device of a node with 200, then whatever the node and
  the other clients of the authority do afterwards, as long as nobody enrolls the device anew, the
  node never gets another key, and once the epoch of its last key is over, grace included, it
  completes no handshake as the side that dials or as the side that answers, and no peer completes
  one with a hello that carries its epoch. Until then it keeps its key and its key store: the
  refresh that is refused wipes nothing.
\<close>

theorem revocation_locks_out:
  "(\<forall>(P :: Registry ka_world program) L E s s' lim st st1 ts now r req b.
      pg_http P = direct (registry_Store sha J) L E sha \<longrightarrow> (\<forall>u w. snd (pg_get P u w) = w) \<longrightarrow>
      TrimSpace (DeviceID_n (pg_cfg P)) = DeviceID_n (pg_cfg P) \<longrightarrow> reg_invar (Registry_f st) \<longrightarrow>
      serve (registry_Store sha J) L E sha now r (CRevoke (Some req)) st = ((200, b), st1) \<longrightarrow>
      DeviceID_rr req = DeviceID_n (pg_cfg P) \<longrightarrow>
      (shared_step P (registry_Store sha J) L E sha)\<^sup>*\<^sup>* (s\<lparr>rn_node := (rn_node s)\<lparr>nd_net := (lim, st1, ts)\<rparr>\<rparr>) s' \<longrightarrow>
      locked_out P s s') \<and>
   (\<forall>(P :: sql_db ka_world program) L E s s' lim st st1 ts now r req b.
      pg_http P = direct (sql_Store sha) L E sha \<longrightarrow> (\<forall>u w. snd (pg_get P u w) = w) \<longrightarrow>
      TrimSpace (DeviceID_n (pg_cfg P)) = DeviceID_n (pg_cfg P) \<longrightarrow> sql_invar (Registry_f st) \<longrightarrow>
      serve (sql_Store sha) L E sha now r (CRevoke (Some req)) st = ((200, b), st1) \<longrightarrow>
      DeviceID_rr req = DeviceID_n (pg_cfg P) \<longrightarrow>
      (shared_step P (sql_Store sha) L E sha)\<^sup>*\<^sup>* (s\<lparr>rn_node := (rn_node s)\<lparr>nd_net := (lim, st1, ts)\<rparr>\<rparr>) s' \<longrightarrow>
      locked_out P s s')"
  by (intro conjI allI impI; (rule rst.revocation_locks | rule sst.revocation_locks); blast)

theorem revocation_locks_out_witness:
  "\<exists>st1 b s'. serve (sql_Store id) xor_lib toy_ed25519 id sample_now (sample_request\<lparr>r_Authorization := ''Bearer secret''\<rparr>)
       (CRevoke (Some \<lparr>DeviceID_rr = ''dev'', Reason_rr = ''lost''\<rparr>)) (server_with (sample_db signing_device)) = ((200, b), st1) \<and>
     (let s = serving (sample_key 100) (node_hub sample_config (identity_of_disk sample_disk_identity) (sample_key 100)) (sample_node 0);
          s1 = s\<lparr>rn_node := (rn_node s)\<lparr>nd_net := (None, st1, [sample_now, sample_now])\<rparr>\<rparr>
      in shared_step sample_program (sql_Store id) xor_lib toy_ed25519 id s1 s' \<and> locked_out sample_program s s' \<and>
         rn_key s' = sample_key 100)"
proof -
  define s where "s = serving (sample_key 100) (node_hub sample_config (identity_of_disk sample_disk_identity) (sample_key 100)) (sample_node 0)"
  obtain b st1 where rv: "serve (sql_Store id) xor_lib toy_ed25519 id sample_now (sample_request\<lparr>r_Authorization := ''Bearer secret''\<rparr>)
       (CRevoke (Some \<lparr>DeviceID_rr = ''dev'', Reason_rr = ''lost''\<rparr>)) (server_with (sample_db signing_device)) = ((200, b), st1)"
    by (simp add: serve_def handleRevoke_def adminOK_def server_with_def sql_Store_def sql_Revoke_def db_Exec_def
        sample_db_def signing_device_sel Let_def)
  define s1 where "s1 = s\<lparr>rn_node := (rn_node s)\<lparr>nd_net := (None, st1, [sample_now, sample_now])\<rparr>\<rparr>"
  define s' where "s' = refresh_issue sample_lib (direct (sql_Store id) xor_lib toy_ed25519 id) (shifted_times 0) [1] sample_config sample_client s1"
  have "node_step sample_program s1 s'"
    using node_step.tick [of s1 sample_program "shifted_times 0" "[1]"] by (simp add: s'_def s1_def s_def serving_def)
  then have st: "shared_step sample_program (sql_Store id) xor_lib toy_ed25519 id s1 s'" by (rule own)
  have c: "TrimSpace (DeviceID_n (pg_cfg sample_program)) = DeviceID_n (pg_cfg sample_program)"
    "\<forall>u w. snd (pg_get sample_program u w) = w" "DeviceID_n (pg_cfg sample_program) = ''dev''"
    by (simp_all add: sample_config_def TrimSpace_def is_space_def) (simp add: sample_program_def)
  have run: "(shared_step sample_program (sql_Store id) xor_lib toy_ed25519 id)\<^sup>*\<^sup>*
      (s\<lparr>rn_node := (rn_node s)\<lparr>nd_net := (None, st1, [sample_now, sample_now])\<rparr>\<rparr>) s'"
    using st unfolding s1_def by (rule r_into_rtranclp)
  have "locked_out sample_program s s'"
    by (rule revocation_locks_out [of id reg_codec, THEN conjunct2, rule_format, OF sample_program_sel(4) _ c(1) _ rv _ run])
      (use c(2,3) sample_state(2) [of signing_device] in \<open>simp_all add: sample_program_def\<close>)
  then show ?thesis
    using rv st by (intro exI conjI) (auto simp: Let_def s_def s1_def locked_out_def frozen_def serving_def)
qed

end
