(* ===== verification/AuditTrail.thy ===== *)
theory AuditTrail
  imports Server
begin

text \<open>
  What the audit log of \<^verbatim>\<open>internal/kaapi/audit.go\<close> says about the answers of
  \<^verbatim>\<open>internal/kaapi/server.go\<close>. A grant is what an answer gives away or takes back: a key, an
  enrollment, a revocation, a voucher. Grants can be read off the answers and off the log.
\<close>

section \<open>Grants\<close>

datatype grant =
    KeyGrant string u64 u64 string string
  | EnrollGrant string string
  | RevokeGrant string
  | VoucherGrant string

definition answer_grant :: "response \<Rightarrow> grant list" where
  "answer_grant resp = (case snd resp of
     IssueBody a \<Rightarrow> [KeyGrant (DeviceID_s a) (EpochID_s a) (KeySerial_s a) (hex_EncodeToString (RequestID_s a)) (Profile_s a)]
   | EnrollBody e \<Rightarrow> [EnrollGrant (DeviceID_er e) (Profile_er e)]
   | RevokedBody d \<Rightarrow> [RevokeGrant d]
   | VoucherBody v \<Rightarrow> [VoucherGrant (ID_cr v)]
   | _ \<Rightarrow> [])"

definition event_grant :: "AuditEvent \<Rightarrow> grant list" where
  "event_grant ev =
     (if Endpoint_a ev = ''/v1/key/issue'' \<and> ResultCode_a ev = 200
      then [KeyGrant (DeviceID_a ev) (EpochID_a ev) (KeySerial_a ev) (RequestID_a ev) (Profile_a ev)]
      else if Endpoint_a ev = ''/v1/enroll'' \<and> ResultCode_a ev = 201 then [EnrollGrant (DeviceID_a ev) (Profile_a ev)]
      else if Endpoint_a ev = ''/v1/revoke'' \<and> ResultCode_a ev = 200 then [RevokeGrant (DeviceID_a ev)]
      else if Endpoint_a ev = ''/v1/vouchers'' \<and> ResultCode_a ev = 201 then [VoucherGrant (drop 8 (Error_a ev))]
      else [])"

text \<open>The log of a step against its answer: at most one line, at the time of the request.\<close>

definition logged :: "time \<Rightarrow> response \<Rightarrow> 's Server \<Rightarrow> 's Server \<Rightarrow> bool" where
  "logged now resp st st' \<longleftrightarrow>
     Audit st' = Audit st \<and> answer_grant resp = [] \<or>
     (\<exists>ev. Audit st' = Audit st @ [ev] \<and> Timestamp_a ev = Some now \<and> event_grant ev = answer_grant resp)"

lemma event_grant_time [simp]: "event_grant (ev\<lparr>Timestamp_a := t\<rparr>) = event_grant ev"
  by (simp add: event_grant_def)

text \<open>The two ways a handler ends, and the parts of the state that the log does not depend on.\<close>

lemma logged_quiet: "Audit st' = Audit st \<Longrightarrow> logged now resp st st' \<longleftrightarrow> answer_grant resp = []"
  by (simp add: logged_def)

lemma logged_line:
  "Timestamp_a ev = None \<Longrightarrow> Audit st' = Audit st \<Longrightarrow>
     logged now resp st (audit now ev st') \<longleftrightarrow> event_grant ev = answer_grant resp"
  by (simp add: logged_def audit_def Log_def)

lemma logged_registry [simp]: "logged now resp (st\<lparr>Registry_f := g\<rparr>) st' \<longleftrightarrow> logged now resp st st'"
  by (simp add: logged_def)

lemmas log_simps = logged_quiet logged_line no_event_def event_grant_def answer_grant_def writeErr_def

lemma finish_enroll_logged:
  "finish_enroll S now r req v st = (resp, st') \<Longrightarrow> logged now resp st st'"
  by (auto simp: finish_enroll_def log_simps split: prod.splits sum.splits)

lemma handleEnroll_logged:
  "handleEnroll S now r b st = (resp, st') \<Longrightarrow> logged now resp st st'"
  by (auto simp: handleEnroll_def log_simps split: option.splits if_splits prod.splits sum.splits
      dest!: finish_enroll_logged)

lemma handleIssue_logged:
  "handleIssue S L E now r b st = (resp, st') \<Longrightarrow> logged now resp st st'"
  by (auto simp: handleIssue_def log_simps Let_def split: option.splits if_splits prod.splits sum.splits
     )

lemma handleRevoke_logged:
  "handleRevoke S now r b st = (resp, st') \<Longrightarrow> logged now resp st st'"
  by (auto simp: handleRevoke_def log_simps split: option.splits if_splits prod.splits sum.splits)

lemma handleCreateVoucher_logged:
  "handleCreateVoucher S sha now rnd r b st = (resp, st') \<Longrightarrow> logged now resp st st'"
  by (auto simp: handleCreateVoucher_def log_simps Let_def split: option.splits if_splits prod.splits sum.splits
     )

lemma serve_logged:
  assumes "serve S L E sha now r c st = (resp, st')"
  shows "logged now resp st st'"
  using assms
  by (cases c) (auto simp: serve_def handleHealth_def handleStatus_def handleListVouchers_def handleRevokeVoucher_def
      handleListDevices_def log_simps Let_def split: option.splits if_splits prod.splits sum.splits
      dest: handleEnroll_logged handleIssue_logged handleRevoke_logged handleCreateVoucher_logged)

section \<open>Properties\<close>


text \<open>
  Not every refusal leaves a line: a key request from a device that is authenticated, whose clock
  is right but whose epoch hint is more than one epoch away, is answered with 400 and not logged.
\<close>

theorem epoch_mismatch_not_audited:
  assumes "authenticateIssue S E r req st = Inr (d, rec, p)" "CheckSkew (ClientTime_q req) (Unix now) = Inr ()"
    and "\<not> epoch_hint_ok (EpochHint_q req) (EpochID now)"
  shows "handleIssue S L E now r (Some req) st = ((400, ErrorBody ''epoch_mismatch''), st)"
  using assms by (simp add: handleIssue_def writeErr_def Let_def)

end
