(* ===== verification/Spec2Isabelle.thy ===== *)
theory Spec2Isabelle
  imports Settings Rtc DataChannel Exchange Service Protection LocalHTTP KARoutes Channel SimpleProfile Impostor
    Revocation AuditTrail
begin

text \<open>
  A verification of COE, the key authority, the device node and the peer-to-peer protocol of this
  repository (Go, module \<^verbatim>\<open>github.com/telecon/coe\<close>).

  \<^bold>\<open>The system.\<close> A key authority holds one master key. Devices enroll with an administrator's token
  or with a voucher and obtain one general key per day, derived from the master key, the device, its
  enrollment counter and the epoch. Two devices with keys of the same epoch open a session over TCP
  or over a WebRTC data channel: they exchange hellos, wrap their general keys for each other, derive
  one key per direction and then exchange sealed records behind a replay window. A node serves
  applications through a local interface. Peers that connect over WebRTC find each other through a
  signalling server that carries only session descriptions.

  \<^bold>\<open>Theories and sources\<close> (paths below \<^verbatim>\<open>src/\<close>; names are those of the Go functions, with a suffix or
  prefix where two packages share one).

  \<^item> Shared: \<open>Prelude\<close> (types for words, bytes, 64-bit arithmetic with wrap-around, the error monad
    \<open>('s, 'e, 'a) go\<close>, association lists), \<open>Encoding\<close> (big-endian numbers, concatenation,
    \<^verbatim>\<open>crypto/hkdf.go\<close>), \<open>FieldCodec\<close> (a concrete codec for the witnesses), \<open>Files\<close> (a disk whose writes
    can fail, decimal numbers, \<^verbatim>\<open>fmt.Sscanf\<close>).
  \<^item> Cryptography: \<open>Epoch\<close> (\<^verbatim>\<open>crypto/epoch.go\<close>), \<open>Crypto\<close> (\<^verbatim>\<open>general_key.go\<close>, \<^verbatim>\<open>x25519.go\<close>, \<^verbatim>\<open>aead.go\<close>,
    \<^verbatim>\<open>session.go\<close>), \<open>Xoroshiro\<close> (\<^verbatim>\<open>xoroshiro.go\<close>).
  \<^item> Peers: \<open>Frame\<close>, \<open>Msg\<close>, \<open>Replay\<close>, \<open>Session\<close> (\<^verbatim>\<open>internal/p2p\<close>), \<open>Channel\<close> (two sessions and an adversary on the
    network), \<open>SimpleProfile\<close> (the handshake without key offers), \<open>Impostor\<close> (what the handshake does not check), \<open>Agent\<close> (\<^verbatim>\<open>internal/agent\<close>), \<open>Signal\<close> over
    \<open>Mailbox\<close> (\<^verbatim>\<open>internal/signal\<close>), \<open>Ice\<close>, \<open>DataChannel\<close> and \<open>Rtc\<close> (\<^verbatim>\<open>internal/webrtcx\<close> and the signalling client).
  \<^item> Devices: \<open>Auth\<close>, \<open>Clock\<close>, \<open>KeyStore\<close>, \<open>Protection\<close> (\<^verbatim>\<open>internal/device\<close>, the last with the build for Windows),
    \<open>Node\<close> (\<^verbatim>\<open>internal/config\<close> and the start of \<^verbatim>\<open>cmd/coe-node\<close>), \<open>NodeRun\<close> (its running agent: goroutines as
    steps), \<open>Service\<close> (its flags and the service of the operating system), \<open>Exchange\<close> (two agents together).
  \<^item> Key authority: \<open>KATypes\<close>, \<open>KAStore\<close> (the contract of a store), \<open>Registry\<close> (the store on a file),
    \<open>SQLStore\<close> (the store in a database), \<open>Stores\<close> (what both have in common), \<open>RateLimit\<close>, \<open>Server\<close>,
    \<open>WellTyped\<close> (the types of records and answers), \<open>AuditTrail\<close> (the log against the answers), \<open>Revocation\<close> (a
    revocation and a running node), \<open>Update\<close>, \<open>KAClient\<close>, \<open>UpdateClient\<close>, \<open>KARoutes\<close> (routes and
    requests on the wire, \<^verbatim>\<open>internal/kaapi\<close>), \<open>TLSUtil\<close> (\<^verbatim>\<open>internal/tlsutil\<close>).
  \<^item> Programs: \<open>MasterKey\<close> and \<open>KAMain\<close> (\<^verbatim>\<open>cmd/ka\<close>), \<open>KACheck\<close> (\<^verbatim>\<open>cmd/ka-check\<close>), \<open>Programs\<close>
    (\<^verbatim>\<open>cmd/coe-keygen\<close>, \<^verbatim>\<open>cmd/coe-cli\<close>, \<^verbatim>\<open>cmd/coe-admin\<close>), \<open>LocalHTTP\<close> (the local interface and \<^verbatim>\<open>cmd/coe-cli\<close> on the
    wire), \<open>Desktop\<close> (\<^verbatim>\<open>cmd/coe-tray\<close>, \<^verbatim>\<open>cmd/coe-signal\<close>), \<open>Settings\<close> (the flags and the environment of all of them),
    \<open>Onboarding\<close> (lemmas on a new device).

  \<^bold>\<open>How code becomes definitions.\<close> A struct is a record, an operation is a function from the state to a
  result and the new state, an error return is \<open>Inl\<close> of a datatype with one constructor per cause.
  Maps whose order can be observed are association lists. Sequence numbers, serials and epochs are
  64-bit words, times and durations are integers in nanoseconds with the 64-bit wrap-around of Go
  written out. Go channels are bounded lists; a send that would block takes the \<open>default\<close> branch.
  Sections under a mutex are one step. The agent, the running node, the signalling hub, the data channel
  and the stores have step relations or runs of operations, so that the theorems hold for every
  interleaving; in the running node each statement of the refresh that another goroutine can see is a
  step of its own, and a receive is split where it gives up the lock of the session.

  \<^bold>\<open>Parameters.\<close> Code that is not in the repository is an argument, with its documented behaviour as a
  named hypothesis: X25519, ChaCha20-Poly1305 and HKDF (\<open>x25519_total\<close>, \<open>dh_agrees\<close>, \<open>aead_correct\<close>,
  \<open>aead_overhead\<close>, \<open>hkdf_total\<close>), Ed25519 (\<open>ed25519_correct\<close>), SHA-256, JSON (\<open>codec_ok\<close>, \<open>codec_fits\<close>,
  \<open>json_ok\<close>, \<open>reg_json_ok\<close>), X.509, the peer connection of pion (\<open>rtc_lawful\<close>), the data protection interface
  of Windows (\<open>dpapi_ok\<close>), its service manager, the network and the random source. Each of them has a concrete instance in the theories, on which the witnesses are
  evaluated.

  \<^bold>\<open>Interfaces\<close> are locales, interpreted on the definitions of the model: \<open>framing\<close> (a framed stream,
  \<open>frames\<close>), \<open>replay_filter\<close> (a window that refuses what it has accepted, \<open>rw\<close>), \<open>ka_store\<close> (the laws of a
  registry over an abstract state, \<open>rst\<close> for the file and \<open>sst\<close> for the database), \<open>mailbox\<close> (a bounded
  first-in first-out buffer, \<open>mb\<close> for a signalling queue and \<open>ch\<close> for the data channel), \<open>forward_simulation\<close> (a
  relation that the steps of two systems keep, \<open>chan\<close> for two sessions over the abstract channel) and \<open>protection\<close> (what the key
  store needs of the protection of keys, \<open>raw\<close> for the build without it and \<open>protection_windows\<close> for Windows). The clients' lemmas,
  such as the uniqueness of serials and the bound on the uses of a voucher, are proved once in the locale.

  \<^bold>\<open>What is shown.\<close>

  \<^item> The whole path of a new device, from the voucher to the stored key (\<open>onboarding_completes\<close>, below), and
    on to a text that one started device sends to another (\<open>enrolled_devices_talk\<close>), and its parts: an
    identity from \<open>coe-keygen\<close> is usable, a start obtains exactly the derived key.
  \<^item> Sessions: two honest ends agree on keys and names, under either profile; against an adversary who owns the
    network but cannot forge the AEAD a session is a channel that delivers only what was sent, each message at
    most twice; over a network that carries everything what is sent is received, in order; replayed
    frames are refused; nonces are never reused; the window accepts exactly the numbers it should,
    up to the edge case that \<open>replay_low_water_mark\<close> describes.
  \<^item> The agent: every registered session carries its peer's name whatever is interleaved; two agents
    with keys of the same epoch connect, and a text given to one arrives in the inbox of the other.
  \<^item> The running node: its credentials are always those of a key the authority answered, and the status
    it reports agrees with them except during a refresh; it follows the authority into a new epoch; its
    shutdown closes every session. The service reports its states to the service manager in order.
  \<^item> The key authority: keys are issued only to authenticated devices that are not revoked, issuing
    is idempotent within an epoch, a revocation locks a running node out by the end of its epoch, enrollment needs
    authority, the audit log reports exactly what was granted, vouchers are not overused, serials are
    not shared; both stores refine one abstract registry and keep it well typed; a restart keeps keys,
    devices and certificate.
  \<^item> Signalling and transport: messages are delivered in order and queues stay bounded, an offer and
    its answer reach the two connections, the data channel is a stream and reading from it returns.
  \<^item> Files and programs: keys survive the disk on either build, identities do, the master key is stable,
    production mode is guarded, a passed deployment check means what it says; every command of the command
    line and every operation of the client reaches the route it means.
  \<^item> Behaviour that surprises is stated as it is: a party with keys of its own making completes the handshake
    under any name and reads the general key of its peer, and at an agent it replaces the session with the
    peer and reads the next text sent to it; a forged frame blocks a genuine one, a corrected
    clock locks a node out, the configured authority is ignored, a refused enrollment spends a voucher.

  \<^bold>\<open>Termination and bounds.\<close> All definitions are total. \<open>dc_Read\<close> waits for events and is a function on the
  list of events to come, with a measure; that it returns once a message or the end arrives is a theorem. The loops of
  \<open>Dial\<close>, \<open>Accept\<close> and \<open>WaitType\<close> run over the list of the clock's readings, so a deadline ends them. \<open>Drain\<close> and the
  inbox recurse on their bound.

  \<^bold>\<open>Not modelled.\<close> The sockets that the programs open (whether listening succeeds is an argument), the deadlines
  that a connection keeps (setting one is a call of its own, an argument), tickers and signals (they are the order of the steps): they are calls into the operating
  system or into libraries. The constant pages (in \<^verbatim>\<open>kaapi/admin_ui.go\<close> and in the tray) and printed text
  have no behaviour of their own. Logging is left out except for the audit log, whose events are part of the server's state.
\<close>

section \<open>Properties of the whole system\<close>

text \<open>
  C1: A new device finds its way into the system: an administrator's client creates a voucher on the
  server, the node enrolls with its code and then starts, and the start ends with exactly the key
  that the authority derives for the enrolled device and the current epoch, with the next serial
  number, stored on the device's disk and placed into the credentials of its hub. The database
  works, the voucher's id and code are new, it has not expired when it is used, the device was not
  enrolled before, and the clocks are within two hours of each other.
\<close>

theorem onboarding_completes:
  assumes "ed25519_correct (lib_ed lib)" "ready_device (lib_ed lib) seed i cfg c"
    and "AdminTok st \<noteq> ''''" "AdminToken_k ca = AdminTok st" "stmts (Registry_f st) = []"
    and "Code_cv creq = ''''" "24 \<le> length rb" "nv = new_voucher sha T0 (drawn_id rb) (drawn_code rb) creq"
    and "fresh_voucher sha nv (Registry_f st)" "voucher_check T1 nv = None"
    and "getLocked (DeviceID_n cfg) (Registry_f st) = None" "clocks_ok t T2 T3 (nd_clock n)"
    and "issue_key L (Master st) (Profile_n cfg) (EpochID T3)
      (enroll_new (voucher_defaults (voucher_used nv) (node_request i (cfg\<lparr>VoucherCode_n := drawn_code rb\<rparr>)))) = Inr k" "k \<noteq> []"
    and "bindable (stored_serial (Registry_f st) + 1)"
    and "script (nd_keys n) = []" "lib_mkdir lib" "json_ok wf_record (lib_record lib)"
  shows "\<exists>v w1 er n1 iss hub n2.
    client_CreateVoucher (direct (sql_Store sha) L (lib_ed lib) sha) ca rb creq (None, st, [T0, T1, T2, T3]) = (Inr v, w1) \<and>
    node_enroll lib (direct (sql_Store sha) L (lib_ed lib) sha) i (cfg\<lparr>VoucherCode_n := Code_cr v\<rparr>) c (n\<lparr>nd_net := w1\<rparr>) = (Inr er, n1) \<and>
    node_start lib (direct (sql_Store sha) L (lib_ed lib) sha) t nonce i cfg c n1 = (Inr (iss, hub), n2) \<and>
    GeneralKey_s iss = k \<and> KeySerial_s iss = stored_serial (Registry_f st) + 1 \<and>
    GetGeneral (lib_record lib) (EpochID T3) (nd_keys n2) = Inr (k, key_meta iss) \<and> hub_creds hub = key_creds cfg i iss"
  using onboarding [OF assms(1-7) refl assms(8-18)] by fastforce

definition sample_admin :: Client where
  "sample_admin = \<lparr>BaseURL_k = '''', DeviceID_k = '''', AdminToken_k = ''secret'', SignKey_k = [], TLS_k = None\<rparr>"

definition sample_order :: CreateVoucherRequest where
  "sample_order = \<lparr>Label_cv = '''', OrgID_cv = '''', Profile_cv = ''strong'', MaxUses_cv = 1, TTLHours_cv = 168, Code_cv = ''''\<rparr>"

theorem onboarding_completes_witness:
  "\<exists>v w1 er n1 iss hub n2.
    client_CreateVoucher (direct (sql_Store id) xor_lib toy_ed25519 id) sample_admin (replicate 24 7) sample_order
      (None, server_with (empty_db []), [sample_now, sample_now, sample_now, sample_now]) = (Inr v, w1) \<and>
    node_enroll sample_lib (direct (sql_Store id) xor_lib toy_ed25519 id) (identity_of_disk sample_disk_identity)
      (sample_config\<lparr>VoucherCode_n := Code_cr v\<rparr>) sample_client (sample_node 0\<lparr>nd_net := w1\<rparr>) = (Inr er, n1) \<and>
    node_start sample_lib (direct (sql_Store id) xor_lib toy_ed25519 id) (shifted_times (3600 * 10 ^ 9)) [1]
      (identity_of_disk sample_disk_identity) sample_config sample_client n1 = (Inr (iss, hub), n2) \<and> KeySerial_s iss = 1"
proof -
  let ?i = "identity_of_disk sample_disk_identity" and ?st = "server_with (empty_db [])"
  let ?nv = "new_voucher id sample_now (drawn_id (replicate 24 7)) (drawn_code (replicate 24 7)) sample_order"
  have lib: "lib_ed sample_lib = toy_ed25519" "lib_record sample_lib = record_json" "lib_mkdir sample_lib"
    by (simp_all add: sample_lib_def)
  have r: "ready_device toy_ed25519 (replicate 32 3) ?i sample_config sample_client"
    using sample_enrolled(1)
    by (simp add: ready_device_def sample_client_def sample_config_def identity_of_disk_def sample_disk_identity_def
        zero_NodeConfig_def toy_ed25519_def TrimSpace_def is_space_def ascii_def)
  have a: "AdminTok ?st \<noteq> ''''" "AdminToken_k sample_admin = AdminTok ?st" "stmts (Registry_f ?st) = []" "Code_cv sample_order = ''''"
    "24 \<le> length (replicate 24 (7 :: byte))" "fresh_voucher id ?nv (Registry_f ?st)"
    "getLocked (DeviceID_n sample_config) (Registry_f ?st) = None"
    by (simp_all add: server_with_def sample_admin_def empty_db_def sample_order_def fresh_voucher_def getLocked_def)
  have "dec_digits 0 = ''0''" by code_simp
  then have ser: "stored_serial (Registry_f ?st) = 0"
    using Sscanf_Sprintf [of "[]" "[]" 0] by (simp add: stored_serial_def empty_db_def server_with_def)
  then have bind: "bindable (stored_serial (Registry_f ?st) + 1)" by (simp add: bindable_def)
  have vc: "voucher_check sample_now ?nv = None"
    by (simp add: voucher_check_def new_voucher_def sample_order_def sample_now_def Unix_def Let_def Hour_def Second_def wrap64_def)
  have c: "clocks_ok (shifted_times (3600 * 10 ^ 9)) sample_now sample_now (nd_clock (sample_node 0))"
    by (simp add: clocks_ok_def shifted_times_def sample_now_def sample_node_def Unix_def)
  have k: "\<exists>k. issue_key xor_lib (Master ?st) (Profile_n sample_config) (EpochID sample_now) rec = Inr k \<and> k \<noteq> []" for rec
    by (simp add: issue_key_def DeriveGeneralKey_def HKDF_def xor_lib_def sample_config_def server_with_def)
  obtain k where k: "issue_key xor_lib (Master ?st) (Profile_n sample_config) (EpochID sample_now) (enroll_new (voucher_defaults
      (voucher_used ?nv) (node_request ?i (sample_config\<lparr>VoucherCode_n := drawn_code (replicate 24 7)\<rparr>)))) = Inr k" "k \<noteq> []"
    using k by blast
  have n: "script (nd_keys (sample_node 0)) = []" by (simp add: sample_node_def)
  show ?thesis
    using onboarding_completes [of sample_lib "replicate 32 3" ?i sample_config sample_client ?st sample_admin sample_order
        "replicate 24 7" ?nv id sample_now sample_now "shifted_times (3600 * 10 ^ 9)" sample_now sample_now "sample_node 0" xor_lib k "[1]",
        unfolded lib(1,2), OF toy_ed25519_correct r a(1-5) refl a(6) vc a(7) c k bind n lib(3) record_json_ok] ser by auto
qed


text \<open>Two devices of the witness, told apart by their names and identity keys.\<close>

definition named_device :: "string \<Rightarrow> DeviceRecord" where
  "named_device x = signing_device\<lparr>DeviceID := x\<rparr>"

definition named_config :: "string \<Rightarrow> NodeConfig" where
  "named_config x = sample_config\<lparr>DeviceID_n := x\<rparr>"

definition named_client :: "string \<Rightarrow> Client" where
  "named_client x = sample_client\<lparr>DeviceID_k := x\<rparr>"

definition named_node :: "string \<Rightarrow> (RateLimiter option \<times> sql_db Server \<times> time list) node" where
  "named_node x = (sample_node 0)\<lparr>nd_net := (None, server_with (sample_db (named_device x)), [sample_now, sample_now])\<rparr>"

definition paired_identity :: "byte \<Rightarrow> Identity" where
  "paired_identity k = (identity_of_disk sample_disk_identity)\<lparr>PrivateKey_i := replicate 32 k,
     PublicKey_i := xor_bytes (replicate 32 k) (9 # replicate 31 0)\<rparr>"

lemma named_enrolled:
  assumes "TrimSpace x = x" "x \<noteq> ''''"
  shows "SignKey_k (named_client x) = ed25519_NewKeyFromSeed toy_ed25519 (replicate 32 3)"
    "enrolled_for (sql_Store id) toy_ed25519 (named_client x) (named_config x) (named_device x) (server_with (sample_db (named_device x)))"
proof -
  show "SignKey_k (named_client x) = ed25519_NewKeyFromSeed toy_ed25519 (replicate 32 3)"
    using sample_enrolled(1) by (simp add: named_client_def)
  show "enrolled_for (sql_Store id) toy_ed25519 (named_client x) (named_config x) (named_device x) (server_with (sample_db (named_device x)))"
    using sample_enrolled(2) assms
    by (simp add: enrolled_for_def named_client_def named_config_def named_device_def sql_Store_def sql_Get_def getLocked_def sample_db_def)
qed

lemma named_mark: "\<exists>db. sql_MarkIssued x (EpochID sample_now) (sample_db (named_device x)) = (Inr 8, db)"
proof -
  have e: "EpochID sample_now = 100" by (simp add: sample_now_def EpochID_def Unix_def go_div_def EpochSeconds_def u64_of_i64_def)
  have "getLocked x (sample_db (named_device x)) = Some (named_device x)" "stmts (sample_db (named_device x)) = []"
    by (simp_all add: getLocked_def sample_db_def named_device_def)
  then show ?thesis
    by (simp add: sql_MarkIssued_def named_device_def signing_device_sel already_issued_def gbind_def nextSerialLocked_def db_Exec_def
        Let_def sample_serial bindable_def e)
qed

lemma named_started:
  assumes "TrimSpace x = x" "x \<noteq> ''''" "ascii x"
  shows "\<exists>iss hub n'. node_start sample_lib (direct (sql_Store id) xor_lib (lib_ed sample_lib) id) (shifted_times (3600 * 10 ^ 9)) [1]
     i (named_config x) (named_client x) (named_node x) = (Inr (iss, hub), n')"
proof -
  obtain k where k: "issue_key xor_lib (Master (server_with (sample_db (named_device x)))) (Profile_n (named_config x)) (EpochID sample_now) (named_device x) = Inr k" "k \<noteq> []"
    by (simp add: issue_key_def DeriveGeneralKey_def HKDF_def xor_lib_def named_config_def sample_config_def server_with_def)
  obtain db where m: "st_MarkIssued (sql_Store id) (DeviceID_n (named_config x)) (EpochID sample_now)
      (Registry_f (server_with (sample_db (named_device x)))) = (Inr 8, db)"
    using named_mark [of x] by (auto simp: named_config_def sql_Store_def server_with_def)
  have n: "nd_net (named_node x) = (None, server_with (sample_db (named_device x)), [sample_now, sample_now])" "script (nd_keys (named_node x)) = []"
    "clocks_ok (shifted_times (3600 * 10 ^ 9)) sample_now sample_now (nd_clock (named_node x))"
    using sample_node_sel by (simp_all add: named_node_def)
  have c: "ascii (DeviceID_n (named_config x))" "ascii (Profile_n (named_config x))"
    using assms(3) sample_config_ascii by (simp_all add: named_config_def)
  show ?thesis
    using node_start_issues [of sample_lib "replicate 32 3", unfolded sample_lib_sel(1,2), OF toy_ed25519_correct _ named_enrolled [OF assms(1,2)]
        n(3) k m n(1,2) sample_lib_sel(3) record_json_ok c, of id "[1]" i] unfolding sample_lib_sel(1) by fastforce
qed

lemma named_device_ok: "ascii x \<Longrightarrow> length x \<le> 4096 \<Longrightarrow> x \<noteq> '''' \<Longrightarrow> device_ok xor_lib (named_config x) (paired_identity k)"
  by (simp add: device_ok_def keypair_xor_lib paired_identity_def named_config_def sample_config_def ascii_def)


end
